(* ===== verification/Dcpam_Prelude.thy ===== *)
theory Dcpam_Prelude
  imports Main "HOL-Library.Sublist"
begin

text \<open>
  Shared vocabulary of the development: faults (C undefined behaviour made a value), NUL-free
  C strings as \<open>char list\<close>, the search and formatting functions of the C library that the
  sources call (\<open>strstr\<close>, \<open>strncmp\<close>, \<open>snprintf\<close> with \<open>%s\<close>), byte buffers, and the generic list
  lemmas the components share.
\<close>

section \<open>Faults and outcomes\<close>

text \<open>
  Where the C code has undefined behaviour the model returns a \<open>fault\<close> instead of picking a value.
  \<open>Bad_unlock\<close> is the release of a mutex that is not held, which POSIX leaves undefined.
  \<open>Never_returns\<close> stands for a call that waits for a mutex that is held, or never ends, where the type of its
  caller has no other place for it.
\<close>

datatype fault =
    Out_of_bounds
  | Null_pointer
  | Use_after_free
  | Double_free
  | Division_by_zero
  | Uninitialised
  | Bad_unlock
  | Never_returns

type_synonym 'a outcome = "fault + 'a"

fun obind :: "'a outcome \<Rightarrow> ('a \<Rightarrow> 'b outcome) \<Rightarrow> 'b outcome" where
  "obind (Inl e) f = Inl e"
| "obind (Inr x) f = f x"

lemma obind_Inr_iff [simp]: "obind m f = Inr y \<longleftrightarrow> (\<exists>x. m = Inr x \<and> f x = Inr y)"
  by (cases m) auto

lemma obind_assoc: "obind (obind m f) g = obind m (\<lambda>x. obind (f x) g)"
  by (cases m) auto

section \<open>C strings\<close>

abbreviation NUL :: char where "NUL \<equiv> CHR 0x00"
abbreviation NL :: char where "NL \<equiv> CHR 0x0A"
abbreviation CR :: char where "CR \<equiv> CHR 0x0D"
abbreviation DQ :: char where "DQ \<equiv> CHR 0x22"
abbreviation SQ :: char where "SQ \<equiv> CHR 0x27"

text \<open>A C string held in a byte buffer: everything before the first NUL.\<close>

definition cstr_of :: "char list \<Rightarrow> string" where
  "cstr_of buf = takeWhile (\<lambda>c. c \<noteq> NUL) buf"

definition cstring :: "string \<Rightarrow> bool" where
  "cstring s \<longleftrightarrow> NUL \<notin> set s"

named_theorems cstring_intros

lemma cstring_Nil [simp, cstring_intros]: "cstring []"
  by (simp add: cstring_def)

lemma cstring_Cons [simp]: "cstring (c # s) \<longleftrightarrow> c \<noteq> NUL \<and> cstring s"
  by (auto simp: cstring_def)

lemma cstring_append [simp]: "cstring (s @ t) \<longleftrightarrow> cstring s \<and> cstring t"
  by (auto simp: cstring_def)

lemma cstring_take [cstring_intros]: "cstring s \<Longrightarrow> cstring (take n s)"
  by (auto simp: cstring_def dest: in_set_takeD)

lemma cstring_drop [cstring_intros]: "cstring s \<Longrightarrow> cstring (drop n s)"
  by (auto simp: cstring_def dest: in_set_dropD)

lemma takeWhile_cstring: "cstring s \<Longrightarrow> takeWhile (\<lambda>c. c \<noteq> NUL) s = s"
  by (auto simp: cstring_def takeWhile_eq_all_conv)

lemma cstr_of_NUL [simp]: "cstring s \<Longrightarrow> cstr_of (s @ NUL # r) = s"
  by (induction s) (auto simp: cstr_of_def)

lemma cstr_of_zeroed [simp]: "cstring s \<Longrightarrow> cstr_of (s @ replicate k NUL @ [NUL]) = s"
  using cstr_of_NUL [of s "replicate k NUL"] by (simp add: replicate_append_same)

lemma cstr_of_all [simp]: "cstring s \<Longrightarrow> cstr_of s = s"
  by (simp add: cstr_of_def takeWhile_cstring)

lemma cstring_cstr_of [simp]: "cstring (cstr_of buf)"
  by (induction buf) (auto simp: cstr_of_def)

lemma buffer_split:
  assumes "NUL \<in> set buf"
  shows "buf = cstr_of buf @ NUL # drop (Suc (length (cstr_of buf))) buf"
  using assms by (induction buf) (auto simp: cstr_of_def)

section \<open>Searching: \<open>strstr\<close>, \<open>strncmp\<close>\<close>

text \<open>Position of the first occurrence of the pattern, as \<open>strstr\<close> finds it.\<close>

primrec strstr :: "string \<Rightarrow> string \<Rightarrow> nat option" where
  "strstr [] p = (if p = [] then Some 0 else None)"
| "strstr (c # cs) p = (if prefix p (c # cs) then Some 0 else map_option Suc (strstr cs p))"

definition contains :: "string \<Rightarrow> string \<Rightarrow> bool" where
  "contains s p \<longleftrightarrow> strstr s p \<noteq> None"

lemma strstr_Some_split:
  "strstr s p = Some i \<Longrightarrow> s = take i s @ p @ drop (i + length p) s \<and> i + length p \<le> length s"
proof (induction s arbitrary: i)
  case Nil
  then show ?case by (auto split: if_splits)
next
  case (Cons c cs)
  show ?case
  proof (cases "prefix p (c # cs)")
    case True
    then have "length p \<le> Suc (length cs)" using prefix_length_le by fastforce
    with True Cons.prems show ?thesis by (auto simp: prefix_def)
  next
    case False
    with Cons.prems obtain j where "strstr cs p = Some j" "i = Suc j" by auto
    with Cons.IH [of j] show ?thesis by simp
  qed
qed

lemma strstr_bound: "strstr s p = Some i \<Longrightarrow> i + length p \<le> length s"
  using strstr_Some_split by blast

lemma strstr_drop_less:
  assumes "strstr s p = Some i" "p \<noteq> []"
  shows "length (drop (i + length p) s) < length s"
proof -
  have "0 < length p" using assms(2) by simp
  with strstr_bound [OF assms(1)] show ?thesis unfolding length_drop by linarith
qed

lemma strstr_first:
  "strstr s p = Some i \<Longrightarrow> j < i \<Longrightarrow> \<not> prefix p (drop j s)"
proof (induction s arbitrary: i j)
  case Nil
  then show ?case by (auto split: if_splits)
next
  case (Cons c cs)
  then show ?case by (cases j) (auto split: if_splits)
qed

lemma strstr_None_iff: "strstr s p = None \<longleftrightarrow> \<not> sublist p s"
  by (induction s) (auto simp: sublist_Cons_right)

lemma contains_iff: "contains s p \<longleftrightarrow> sublist p s"
  by (auto simp: contains_def strstr_None_iff)

lemma contains_append1: "contains s p \<Longrightarrow> contains (s @ t) p"
  unfolding contains_iff by (rule sublist_order.order_trans [OF _ sublist_append_rightI])

lemma contains_append2: "contains t p \<Longrightarrow> contains (s @ t) p"
  unfolding contains_iff by (rule sublist_order.order_trans [OF _ sublist_append_leftI])

lemma contains_mid: "contains (s @ p @ t) p"
  by (auto simp: contains_iff sublist_def)

lemma contains_char: "contains s [c] \<longleftrightarrow> c \<in> set s"
  by (induction s) (auto simp: contains_def)

text \<open>\<open>strtok\<close> with one delimiter, called until it returns NULL: the nonempty segments in order.\<close>

function strtok_all :: "char \<Rightarrow> string \<Rightarrow> string list" where
  "strtok_all d s =
     (case dropWhile (\<lambda>c. c = d) s of
        [] \<Rightarrow> []
      | c # cs \<Rightarrow> (c # takeWhile (\<lambda>c. c \<noteq> d) cs) # strtok_all d (dropWhile (\<lambda>c. c \<noteq> d) cs))"
  by pat_completeness auto
termination
proof (relation "measure (\<lambda>(d, s). length s)")
  fix d s c cs assume "dropWhile (\<lambda>c. c = d) s = c # cs"
  then have "length (c # cs) \<le> length s" using length_dropWhile_le [of "\<lambda>c. c = d" s] by simp
  moreover have "length (dropWhile (\<lambda>c. c \<noteq> d) cs) \<le> length cs" by (rule length_dropWhile_le)
  ultimately show "((d, dropWhile (\<lambda>c. c \<noteq> d) cs), (d, s)) \<in> measure (\<lambda>(d, s). length s)"
    by simp
qed simp

declare strtok_all.simps [simp del]

lemma strtok_all_Nil [simp]: "strtok_all d [] = []"
  by (simp add: strtok_all.simps)

lemma strtok_all_delim [simp]: "strtok_all d (d # s) = strtok_all d s"
  by (simp add: strtok_all.simps [of d "d # s"] strtok_all.simps [of d s])

lemma strtok_all_token:
  assumes "t \<noteq> []" "d \<notin> set t"
  shows "strtok_all d (t @ d # s) = t # strtok_all d s" "strtok_all d t = [t]"
proof -
  obtain c cs where t: "t = c # cs" using assms(1) by (cases t) auto
  have ne: "\<And>x. x \<in> set cs \<Longrightarrow> x \<noteq> d" "c \<noteq> d" using assms(2) t by auto
  have tw: "takeWhile (\<lambda>c. c \<noteq> d) (cs @ d # s) = cs" "dropWhile (\<lambda>c. c \<noteq> d) (cs @ d # s) = d # s"
    using ne by (auto simp: takeWhile_append2 dropWhile_append2)
  with ne t show "strtok_all d (t @ d # s) = t # strtok_all d s"
    by (simp add: strtok_all.simps [of d "c # cs @ d # s"] tw)
  have tw': "takeWhile (\<lambda>c. c \<noteq> d) cs = cs" "dropWhile (\<lambda>c. c \<noteq> d) cs = []"
    using ne by (auto simp: takeWhile_eq_all_conv dropWhile_eq_Nil_conv)
  with ne t show "strtok_all d t = [t]"
    by (simp add: strtok_all.simps [of d "c # cs"] tw' del: dropWhile_eq_Nil_conv)
qed

lemma strtok_all_length:
  "sum_list (map length (strtok_all d s)) + count_list s d = length s"
proof (induction d s rule: strtok_all.induct)
  case (1 d s)
  show ?case
  proof (cases "dropWhile (\<lambda>c. c = d) s")
    case Nil
    then have "\<forall>c \<in> set s. c = d" by (simp add: dropWhile_eq_Nil_conv)
    then have "count_list s d = length s" by (induction s) auto
    moreover have "strtok_all d s = []" unfolding strtok_all.simps [of d s] Nil by simp
    ultimately show ?thesis by simp
  next
    case (Cons c cs)
    let ?r = "dropWhile (\<lambda>c. c \<noteq> d) cs"
    define a where "a = takeWhile (\<lambda>c. c = d) s"
    have s: "s = a @ c # cs" and c: "c \<noteq> d"
      using Cons unfolding a_def dropWhile_eq_Cons_conv by blast+
    have "count_list (takeWhile (\<lambda>c. c = d) xs) d = length (takeWhile (\<lambda>c. c = d) xs)" for xs
      by (induction xs) auto
    then have a: "count_list a d = length a" by (simp add: a_def)
    have r: "count_list cs d = count_list ?r d" by (induction cs) auto
    have l: "length cs = length (takeWhile (\<lambda>c. c \<noteq> d) cs) + length ?r" by (induction cs) auto
    have tok: "strtok_all d s = (c # takeWhile (\<lambda>c. c \<noteq> d) cs) # strtok_all d ?r"
      unfolding strtok_all.simps [of d s] Cons by simp
    have "length s = length a + Suc (length cs)" by (simp add: s)
    moreover have "count_list s d = count_list a d + count_list cs d" by (simp add: s c)
    moreover have "sum_list (map length (strtok_all d s)) =
        Suc (length (takeWhile (\<lambda>c. c \<noteq> d) cs)) + sum_list (map length (strtok_all d ?r))"
      by (simp add: tok)
    ultimately show ?thesis using "1.IH" [OF Cons] a r l by linarith
  qed
qed

definition strncmp_eq :: "string \<Rightarrow> string \<Rightarrow> nat \<Rightarrow> bool" where
  "strncmp_eq a b n \<longleftrightarrow> take n a = take n b"

lemma strncmp_eq_refl [simp]: "strncmp_eq a a n"
  by (simp add: strncmp_eq_def)

lemma strncmp_eq_short:
  "length a < n \<Longrightarrow> length b < n \<Longrightarrow> strncmp_eq a b n \<longleftrightarrow> a = b"
  by (simp add: strncmp_eq_def)

section \<open>Formatting: \<open>snprintf\<close> with \<open>%s\<close> and \<open>%d\<close>\<close>

text \<open>
  Every format the model needs consists of literal text, \<open>%s\<close> and \<open>%d\<close>; the argument of the latter is
  given as the text of the number (\<open>show_int\<close>). A missing argument is undefined
  in C; the call sites below always pass as many arguments as the format has directives.
\<close>

fun sfmt :: "string \<Rightarrow> string list \<Rightarrow> string" where
  "sfmt [] args = []"
| "sfmt [c] args = [c]"
| "sfmt (c # d # r) args =
     (if c = CHR ''%'' \<and> (d = CHR ''s'' \<or> d = CHR ''d'')
      then (case args of [] \<Rightarrow> [] | a # as \<Rightarrow> a @ sfmt r as)
      else c # sfmt (d # r) args)"

definition snprintf_s :: "nat \<Rightarrow> string \<Rightarrow> string list \<Rightarrow> string" where
  "snprintf_s n fmt args = take (n - 1) (sfmt fmt args)"

lemma length_sfmt: "length (sfmt fmt args) \<le> length fmt + sum_list (map length args)"
proof (induction fmt args rule: sfmt.induct)
  case (3 c d r args)
  then show ?case by (cases args) (auto simp: trans_le_add1)
qed auto

lemma sfmt_literal: "CHR ''%'' \<notin> set s \<Longrightarrow> sfmt s args = s"
  by (induction s args rule: sfmt.induct) auto

lemma sfmt_prefix: "CHR ''%'' \<notin> set pre \<Longrightarrow> sfmt (pre @ CHR ''%'' # r) args = pre @ sfmt (CHR ''%'' # r) args"
proof (induction pre)
  case (Cons c pre)
  then show ?case by (cases pre) auto
qed simp

lemma sfmt_single:
  "CHR ''%'' \<notin> set pre \<Longrightarrow> CHR ''%'' \<notin> set post \<Longrightarrow> sfmt (pre @ ''%s'' @ post) [a] = pre @ a @ post"
  by (simp add: sfmt_prefix sfmt_literal)

text \<open>The sizing idiom of the sources: a buffer of the format's length plus the arguments'.\<close>

lemma snprintf_s_fits:
  "length fmt + sum_list (map length args) < n \<Longrightarrow> snprintf_s n fmt args = sfmt fmt args"
  using length_sfmt [of fmt args] by (simp add: snprintf_s_def)

text \<open>Decimal rendering, for \<open>%d\<close> and \<open>%zu\<close>.\<close>

fun show_nat :: "nat \<Rightarrow> string" where
  "show_nat n = (if n < 10 then [char_of (48 + n)] else show_nat (n div 10) @ [char_of (48 + n mod 10)])"

declare show_nat.simps [simp del]

definition show_int :: "int \<Rightarrow> string" where
  "show_int i = (if i < 0 then CHR ''-'' # show_nat (nat (- i)) else show_nat (nat i))"

section \<open>Scanning: the conversions of \<open>sscanf\<close>\<close>

definition is_digit :: "char \<Rightarrow> bool" where
  "is_digit c \<longleftrightarrow> 48 \<le> (of_char c :: nat) \<and> (of_char c :: nat) \<le> 57"

definition digits_val :: "string \<Rightarrow> nat" where
  "digits_val ds = foldl (\<lambda>n c. n * 10 + ((of_char c :: nat) - 48)) 0 ds"

definition is_space :: "char \<Rightarrow> bool" where
  "is_space c \<longleftrightarrow> c = CHR '' '' \<or> c = NL \<or> c = CR \<or> c = CHR 0x09"

text \<open>\<open>%d\<close>: white space, a sign, at least one digit; the value and what follows. No overflow is modelled.\<close>

definition scan_int :: "string \<Rightarrow> (int \<times> string) option" where
  "scan_int s =
     (let s = dropWhile is_space s;
          (neg, s) = (case s of c # cs \<Rightarrow> if c = CHR ''-'' then (True, cs) else if c = CHR ''+'' then (False, cs) else (False, s)
                      | [] \<Rightarrow> (False, []));
          ds = takeWhile is_digit s
      in if ds = [] then None
         else Some ((if neg then - int (digits_val ds) else int (digits_val ds)), drop (length ds) s))"

text \<open>A number that was printed is read back.\<close>

lemma is_digit_char: "n < 10 \<Longrightarrow> is_digit (char_of (48 + n :: nat))"
  by (simp add: is_digit_def)

lemma digits_val_snoc: "digits_val (ds @ [c]) = digits_val ds * 10 + ((of_char c :: nat) - 48)"
  by (simp add: digits_val_def)

lemma show_nat_digits: "\<forall>c \<in> set (show_nat n). is_digit c"
proof (induction n rule: show_nat.induct)
  case (1 n)
  then show ?case by (subst show_nat.simps) (auto simp: is_digit_char)
qed

lemma digits_val_show_nat [simp]: "digits_val (show_nat n) = n"
proof (induction n rule: show_nat.induct)
  case (1 n)
  then show ?case
    by (subst show_nat.simps) (auto simp: digits_val_snoc digits_val_def)
qed

lemma show_nat_not_Nil [simp]: "show_nat n \<noteq> []"
  by (subst show_nat.simps) simp

lemma scan_int_show_nat:
  assumes "r = [] \<or> \<not> is_digit (hd r)"
  shows "scan_int (show_nat n @ r) = Some (int n, r)"
proof -
  obtain c cs where s: "show_nat n = c # cs" by (cases "show_nat n") auto
  have d: "\<forall>x \<in> set (c # cs). is_digit x" using show_nat_digits [of n] s by simp
  have tw: "takeWhile is_digit ((c # cs) @ r) = c # cs"
    using d assms by (cases r) (auto simp: takeWhile_append2)
  have "\<not> is_space c" "c \<noteq> CHR ''-''" "c \<noteq> CHR ''+''"
    using d by (auto simp: is_digit_def is_space_def)
  with tw s show ?thesis
    using digits_val_show_nat [of n] by (simp add: scan_int_def Let_def)
qed

lemma takeWhile_prefix: "\<forall>c \<in> set w. P c \<Longrightarrow> \<not> P x \<Longrightarrow> takeWhile P (w @ x # r) = w"
  by (induction w) auto

lemma length_show_nat:
  "n < 10 \<Longrightarrow> length (show_nat n) = 1"
  "n < 10 ^ Suc k \<Longrightarrow> length (show_nat n) \<le> Suc k"
proof -
  show one: "n < 10 \<Longrightarrow> length (show_nat n) = 1" for n by (subst show_nat.simps) simp
  show "n < 10 ^ Suc k \<Longrightarrow> length (show_nat n) \<le> Suc k"
  proof (induction k arbitrary: n)
    case 0
    then show ?case using one by simp
  next
    case (Suc k)
    have "n div 10 < 10 ^ Suc k" using Suc.prems by (simp add: less_mult_imp_div_less)
    from Suc.IH [OF this] show ?case
      by (cases "n < 10") (simp_all add: one show_nat.simps [of n])
  qed
qed

text \<open>\<open>%n[^c]\<close>: up to \<open>n\<close> characters other than \<open>c\<close>, at least one.\<close>

definition scan_until :: "nat \<Rightarrow> char \<Rightarrow> string \<Rightarrow> (string \<times> string) option" where
  "scan_until n c s =
     (let t = take n (takeWhile (\<lambda>x. x \<noteq> c) s) in
      if t = [] then None else Some (t, drop (length t) s))"

text \<open>\<open>%ns\<close>: white space is skipped, then up to \<open>n\<close> other characters, at least one.\<close>

definition scan_word :: "nat \<Rightarrow> string \<Rightarrow> (string \<times> string) option" where
  "scan_word n s =
     (let s = dropWhile is_space s; t = take n (takeWhile (\<lambda>c. \<not> is_space c) s)
      in if t = [] then None else Some (t, drop (length t) s))"

text \<open>A literal part of the format.\<close>

definition scan_lit :: "string \<Rightarrow> string \<Rightarrow> string option" where
  "scan_lit lit s = (if prefix lit s then Some (drop (length lit) s) else None)"

section \<open>Byte buffers\<close>

text \<open>One store into an allocated buffer; \<open>None\<close> is a write outside it.\<close>

definition poke :: "char list \<Rightarrow> nat \<Rightarrow> char \<Rightarrow> char list option" where
  "poke buf i c = (if i < length buf then Some (buf[i := c]) else None)"

lemma poke_Some [simp]: "i < length buf \<Longrightarrow> poke buf i c = Some (buf[i := c])"
  by (simp add: poke_def)

lemma poke_None [simp]: "length buf \<le> i \<Longrightarrow> poke buf i c = None"
  by (simp add: poke_def)

text \<open>\<open>memcpy\<close> of a run of bytes to an offset.\<close>

definition memcpy_at :: "char list \<Rightarrow> nat \<Rightarrow> char list \<Rightarrow> char list outcome" where
  "memcpy_at buf off data =
     (if off + length data \<le> length buf
      then Inr (take off buf @ data @ drop (off + length data) buf)
      else Inl Out_of_bounds)"

lemma length_memcpy_at [simp]: "memcpy_at buf off data = Inr buf' \<Longrightarrow> length buf' = length buf"
  by (auto simp: memcpy_at_def split: if_splits)

lemma take_Suc_update:
  "i < length buf \<Longrightarrow> take (Suc i) (buf[i := c]) = take i buf @ [c]"
  by (simp add: take_Suc_conv_app_nth)

lemma take_drop_update:
  "i < length buf \<Longrightarrow> buf[i := c] = take i buf @ c # drop (Suc i) buf"
  by (simp add: upd_conv_take_nth_drop)

lemma take_take_append: "take n (take n xs @ ys) = take n (xs @ ys)"
  by (simp add: min_def)

end
