(* ===== verification/Sys_Time.thy ===== *)
theory Sys_Time
  imports Dcpam_Prelude "HOL-Library.Word"
begin

text \<open>
  \<open>src/utils/time.c\<close>: the sleep that survives interruptions, the text of a duration, and the conversions
  between a time stamp and its text, and the functions that print the current time. The clock and the calendar of
  the C library are parameters.
\<close>

section \<open>Sleeping\<close>

record timespec =
  tv_sec :: nat
  tv_nsec :: nat

definition nanoseconds :: "timespec \<Rightarrow> nat" where
  "nanoseconds t = tv_sec t * 10 ^ 9 + tv_nsec t"

text \<open>\<open>nanosleep\<close>: the whole time, an interruption (\<open>EINTR\<close>) with the time that is left, or an error.\<close>

datatype nap = Slept | Interrupted timespec | Sleep_failed

definition sleep_request :: "32 word \<Rightarrow> timespec" where
  "sleep_request ms = \<lparr>tv_sec = unat (ms div 1000), tv_nsec = unat (ms mod 1000) * 1000000\<rparr>"

partial_function (option) sleep_loop :: "(timespec \<Rightarrow> 'w \<Rightarrow> nap \<times> 'w) \<Rightarrow> timespec \<Rightarrow> 'w \<Rightarrow> 'w option" where
  "sleep_loop nanosleep ts_remaining w =
     (case nanosleep ts_remaining w of
        (Interrupted ts, w) \<Rightarrow> sleep_loop nanosleep ts w
      | (Slept, w) \<Rightarrow> Some w
      | (Sleep_failed, w) \<Rightarrow> Some w)"

definition dcpam_sleep :: "(timespec \<Rightarrow> 'w \<Rightarrow> nap \<times> 'w) \<Rightarrow> 32 word \<Rightarrow> 'w \<Rightarrow> 'w option" where
  "dcpam_sleep nanosleep ms w = sleep_loop nanosleep (sleep_request ms) w"

lemma sleep_request_ns: "nanoseconds (sleep_request ms) = unat ms * 1000000"
proof -
  have "unat ms = unat (ms div 1000) * 1000 + unat (ms mod 1000)"
    by (simp add: unat_div unat_mod)
  then show ?thesis by (simp add: nanoseconds_def sleep_request_def)
qed

text \<open>The nanoseconds are always in the range \<open>nanosleep\<close> accepts.\<close>

lemma sleep_request_valid: "tv_nsec (sleep_request ms) < 10 ^ 9"
proof -
  have "unat (ms mod 1000) < 1000" by (simp add: unat_mod)
  then show ?thesis by (simp add: sleep_request_def)
qed

text \<open>
  What \<open>nanosleep\<close> documents about the clock: a nap that ends by itself has lasted the requested time, an
  interrupted one the difference to the time that is left; the requests the loop makes do not fail.
\<close>

definition naps :: "('w \<Rightarrow> nat) \<Rightarrow> (timespec \<Rightarrow> 'w \<Rightarrow> nap \<times> 'w) \<Rightarrow> bool" where
  "naps clock nanosleep \<longleftrightarrow>
     (\<forall>t w. case nanosleep t w of
              (Slept, w') \<Rightarrow> clock w + nanoseconds t \<le> clock w'
            | (Interrupted ts, w') \<Rightarrow> clock w + nanoseconds t \<le> clock w' + nanoseconds ts
            | (Sleep_failed, w') \<Rightarrow> False)"

lemma sleep_loop_lasts:
  assumes "naps clock nanosleep" "sleep_loop nanosleep t w = Some w'"
  shows "clock w + nanoseconds t \<le> clock w'"
proof -
  have "nanosleep = nanosleep \<longrightarrow> clock w + nanoseconds t \<le> clock w'"
  proof (rule sleep_loop.raw_induct [where P = "\<lambda>f t w w'. f = nanosleep \<longrightarrow> clock w + nanoseconds t \<le> clock w'", OF _ assms(2)],
      goal_cases)
    case (1 loop f t w w')
    show ?case
    proof
      assume f: "f = nanosleep"
      obtain n v where n: "nanosleep t w = (n, v)" by fastforce
      have law: "case (n, v) of (Slept, w') \<Rightarrow> clock w + nanoseconds t \<le> clock w'
          | (Interrupted ts, w') \<Rightarrow> clock w + nanoseconds t \<le> clock w' + nanoseconds ts | (Sleep_failed, w') \<Rightarrow> False"
        using spec [OF spec [OF assms(1) [unfolded naps_def], of t], of w] unfolding n .
      show "clock w + nanoseconds t \<le> clock w'"
      proof (cases n)
        case (Interrupted ts)
        with 1(2) f n have "loop f ts v = Some w'" by simp
        with 1(1) f have "clock v + nanoseconds ts \<le> clock w'" by blast
        with law Interrupted show ?thesis by simp
      next
        case Slept
        with 1(2) f n have "v = w'" by simp
        with law Slept show ?thesis by simp
      qed (use law in simp)
    qed
  qed
  then show ?thesis by simp
qed

text \<open>It returns when the interruptions end: here the world counts those that are still to come.\<close>

lemma sleep_loop_returns:
  assumes "\<And>t w ts v. nanosleep t w = (Interrupted ts, v) \<Longrightarrow> signals v < (signals w :: nat)"
  shows "\<exists>w'. sleep_loop nanosleep t w = Some w'"
proof (induction "signals w" arbitrary: t w rule: less_induct)
  case less
  show ?case
  proof (cases "nanosleep t w")
    case (Pair n v)
    show ?thesis
    proof (cases n)
      case (Interrupted ts)
      with Pair assms have "signals v < signals w" by blast
      from less [OF this] Interrupted Pair show ?thesis by (subst sleep_loop.simps) simp
    qed (use Pair in \<open>subst sleep_loop.simps, simp\<close>)+
  qed
qed

text \<open>
  C38: A sleep ends and is never too short: whatever signals arrive, as long as only finitely many do, \<open>dcpam_sleep\<close>
  returns, and at least the requested milliseconds have passed.
\<close>

theorem sleep_lasts:
  assumes "naps clock nanosleep" "\<And>t w ts v. nanosleep t w = (Interrupted ts, v) \<Longrightarrow> signals v < (signals w :: nat)"
  shows "\<exists>w'. dcpam_sleep nanosleep ms w = Some w' \<and> clock w + unat ms * 1000000 \<le> clock w'"
proof -
  have "\<exists>w'. sleep_loop nanosleep (sleep_request ms) w = Some w'"
    by (rule sleep_loop_returns [where signals = signals]) (rule assms(2))
  then obtain w' where "sleep_loop nanosleep (sleep_request ms) w = Some w'" ..
  with sleep_loop_lasts [OF assms(1) this] show ?thesis by (simp add: dcpam_sleep_def sleep_request_ns)
qed

section \<open>Durations\<close>

text \<open>\<open>div\<close> takes an \<open>int\<close>: a \<open>long\<close> loses its upper half. Division rounds towards zero.\<close>

definition TIME_format :: "64 word \<Rightarrow> string" where
  "TIME_format seconds =
     (let s = sint (ucast seconds :: 32 word); q = (if s < 0 then - (- s div 60) else s div 60)
      in show_int q @ '' minutes, '' @ show_int (s - q * 60) @ '' seconds'')"

text \<open>The text read back: the seconds of every duration that fits an \<open>int\<close>.\<close>

definition read_duration :: "string \<Rightarrow> int option" where
  "read_duration s =
     Option.bind (scan_int s) (\<lambda>(m, s). Option.bind (scan_lit '' minutes, '' s) (\<lambda>s.
       Option.bind (scan_int s) (\<lambda>(n, s). Some (m * 60 + n))))"

lemma scan_int_show_int:
  assumes "r = [] \<or> \<not> is_digit (hd r)"
  shows "scan_int (show_int i @ r) = Some (i, r)"
proof (cases "i < 0")
  case False
  with scan_int_show_nat [OF assms] show ?thesis by (simp add: show_int_def)
next
  case True
  obtain c cs where s: "show_nat (nat (- i)) = c # cs" by (cases "show_nat (nat (- i))") auto
  have d: "\<forall>x \<in> set (c # cs). is_digit x" using show_nat_digits [of "nat (- i)"] s by simp
  have tw: "takeWhile is_digit ((c # cs) @ r) = c # cs"
    using d assms by (cases r) (auto simp: takeWhile_append2)
  have "digits_val (c # cs) = nat (- i)" using digits_val_show_nat [of "nat (- i)"] s by simp
  with tw s True show ?thesis by (simp add: scan_int_def show_int_def is_space_def Let_def)
qed

lemma not_digit_blank: "\<not> is_digit (CHR '' '')"
  by (simp add: is_digit_def)

lemma int_of_word: "- (2 ^ 31) \<le> s \<Longrightarrow> s < 2 ^ 31 \<Longrightarrow> sint (ucast (word_of_int s :: 64 word) :: 32 word) = s"
  by (simp add: ucast_down_wi is_down sint_sbintrunc' signed_take_bit_int_eq_self)

theorem duration_round_trip:
  assumes "- (2 ^ 31) \<le> s" "s < 2 ^ 31"
  shows "read_duration (TIME_format (word_of_int s)) = Some s"
proof -
  have "scan_int (show_int i @ '' minutes, '' @ u) = Some (i, '' minutes, '' @ u)" for i u
    by (rule scan_int_show_int) (simp add: is_digit_def)
  moreover have "scan_int (show_int i @ '' seconds'') = Some (i, '' seconds'')" for i
    by (rule scan_int_show_int) (simp add: is_digit_def)
  ultimately show ?thesis
    by (simp add: TIME_format_def read_duration_def Let_def int_of_word [OF assms] scan_lit_def)
qed

text \<open>A longer one is cut to 32 bits.\<close>

lemma long_duration_wraps: "TIME_format (word_of_int (2 ^ 32 + 60)) = ''1 minutes, 0 seconds''"
proof -
  have "sint (ucast (word_of_int (2 ^ 32 + 60) :: 64 word) :: 32 word) = 60"
    by (simp add: ucast_down_wi is_down sint_sbintrunc' signed_take_bit_eq_take_bit_shift take_bit_eq_mod)
  moreover have "show_int 1 = ''1''" "show_int 0 = ''0''" by code_simp+
  ultimately show ?thesis by (simp add: TIME_format_def)
qed

section \<open>Time stamps\<close>

record tm =
  tm_year :: int
  tm_mon :: int
  tm_mday :: int
  tm_hour :: int
  tm_min :: int
  tm_sec :: int
  tm_isdst :: bool

text \<open>\<open>strtoul\<close> with base 0: \<open>0x\<close> announces hexadecimal, a leading zero octal digits.\<close>

definition digit_value :: "char \<Rightarrow> nat" where
  "digit_value c =
     (let n = of_char c :: nat in
      if 48 \<le> n \<and> n \<le> 57 then n - 48 else if 97 \<le> n \<and> n \<le> 122 then n - 87 else if 65 \<le> n \<and> n \<le> 90 then n - 55 else 36)"

definition digits_base :: "nat \<Rightarrow> string \<Rightarrow> nat" where
  "digits_base b s = foldl (\<lambda>n c. n * b + digit_value c) 0 (takeWhile (\<lambda>c. digit_value c < b) s)"

definition strtoul :: "string \<Rightarrow> 64 word" where
  "strtoul s =
     (let s = dropWhile is_space s;
          (neg, s) = (case s of c # cs \<Rightarrow> if c = CHR ''-'' then (True, cs) else if c = CHR ''+'' then (False, cs) else (False, s)
                      | [] \<Rightarrow> (False, []));
          n = (case s of
                 c # d # cs \<Rightarrow>
                   if c = CHR ''0'' \<and> (d = CHR ''x'' \<or> d = CHR ''X'') then digits_base 16 cs
                   else if c = CHR ''0'' then digits_base 8 (d # cs) else digits_base 10 s
               | _ \<Rightarrow> digits_base 10 s)
      in if 2 ^ 64 \<le> n then - 1 else if neg then - of_nat n else of_nat n)"

text \<open>\<open>%Y-%m-%d %H:%M:%S\<close>.\<close>

definition two_digits :: "int \<Rightarrow> string" where
  "two_digits n = (if n < 10 then CHR ''0'' # show_int n else show_int n)"

definition datetime_text :: "tm \<Rightarrow> string" where
  "datetime_text t =
     show_int (tm_year t + 1900) @ ''-'' @ two_digits (tm_mon t + 1) @ ''-'' @ two_digits (tm_mday t) @ '' '' @
     two_digits (tm_hour t) @ '':'' @ two_digits (tm_min t) @ '':'' @ two_digits (tm_sec t)"

text \<open>A buffer that is too short is left with unspecified contents by \<open>strftime\<close>.\<close>

definition TIME_epoch2time :: "(int \<Rightarrow> tm) \<Rightarrow> string \<Rightarrow> nat \<Rightarrow> string outcome" where
  "TIME_epoch2time localtime epoch dst_len =
     (let s = datetime_text (localtime (sint (strtoul epoch)))
      in if length s < dst_len then Inr s else Inl Uninitialised)"

text \<open>\<open>%d-%d-%d %d:%d\<close>. The whole structure is zero before it is filled: the daylight saving flag too.\<close>

definition scan_datetime :: "string \<Rightarrow> (int \<times> int \<times> int \<times> int \<times> int) option" where
  "scan_datetime s =
     Option.bind (scan_int s) (\<lambda>(year, s). Option.bind (scan_lit ''-'' s) (\<lambda>s.
     Option.bind (scan_int s) (\<lambda>(month, s). Option.bind (scan_lit ''-'' s) (\<lambda>s.
     Option.bind (scan_int s) (\<lambda>(day, s).
     Option.bind (scan_int s) (\<lambda>(hours, s). Option.bind (scan_lit '':'' s) (\<lambda>s.
     Option.bind (scan_int s) (\<lambda>(minutes, s). Some (year, month, day, hours, minutes)))))))))"

definition TIME_epoch_from_datetime :: "(tm \<Rightarrow> int) \<Rightarrow> string \<Rightarrow> int" where
  "TIME_epoch_from_datetime mktime src =
     (case scan_datetime src of
        Some (year, month, day, hours, minutes) \<Rightarrow>
          mktime \<lparr>tm_year = year - 1900, tm_mon = month - 1, tm_mday = day, tm_hour = hours, tm_min = minutes, tm_sec = 0,
                  tm_isdst = False\<rparr>
      | None \<Rightarrow> 0)"

section \<open>The current time\<close>

definition TIME_BUFF_SIZE :: nat where "TIME_BUFF_SIZE = 30"

text \<open>\<open>DATETIME\<close>, \<open>%d-%m-%Y %H:%M:%S\<close>, and \<open>%b\<close> in the C locale.\<close>

definition gmt_text :: "tm \<Rightarrow> string" where
  "gmt_text t =
     two_digits (tm_mday t) @ ''-'' @ two_digits (tm_mon t + 1) @ ''-'' @ show_int (tm_year t + 1900) @ '' '' @
     two_digits (tm_hour t) @ '':'' @ two_digits (tm_min t) @ '':'' @ two_digits (tm_sec t)"

definition month_names :: "string list" where
  "month_names = [''Jan'', ''Feb'', ''Mar'', ''Apr'', ''May'', ''Jun'', ''Jul'', ''Aug'', ''Sep'', ''Oct'', ''Nov'', ''Dec'']"

definition stored :: "nat \<Rightarrow> string \<Rightarrow> string outcome" where
  "stored dst_len s = (if length s < dst_len then Inr s else Inl Uninitialised)"

definition TIME_get_gmt :: "('w \<Rightarrow> int) \<Rightarrow> (int \<Rightarrow> tm) \<Rightarrow> 'w \<Rightarrow> string outcome" where
  "TIME_get_gmt time localtime w = stored TIME_BUFF_SIZE (gmt_text (localtime (time w)))"

definition TIME_get_time ::
  "('w \<Rightarrow> int) \<Rightarrow> (int \<Rightarrow> tm) \<Rightarrow> (string \<Rightarrow> tm \<Rightarrow> string) \<Rightarrow> string \<Rightarrow> 'w \<Rightarrow> string outcome" where
  "TIME_get_time time localtime strftime format w = stored TIME_BUFF_SIZE (strftime format (localtime (time w)))"

definition TIME_get_epoch :: "('w \<Rightarrow> int) \<Rightarrow> 'w \<Rightarrow> int" where
  "TIME_get_epoch time w = time w"

definition TIME_get_month_name :: "('w \<Rightarrow> int) \<Rightarrow> (int \<Rightarrow> tm) \<Rightarrow> nat \<Rightarrow> 'w \<Rightarrow> string outcome" where
  "TIME_get_month_name time localtime dst_len w =
     (let month = nat (tm_mon (localtime (time w)))
      in stored dst_len (if month < 12 then month_names ! month else ''?''))"

definition TIME_get_year :: "('w \<Rightarrow> int) \<Rightarrow> (int \<Rightarrow> tm) \<Rightarrow> nat \<Rightarrow> 'w \<Rightarrow> string outcome" where
  "TIME_get_year time localtime dst_len w = stored dst_len (show_int (tm_year (localtime (time w)) + 1900))"

lemma scan_int_two_digits:
  assumes "0 \<le> n" "r = [] \<or> \<not> is_digit (hd r)"
  shows "scan_int (two_digits n @ r) = Some (n, r)"
proof (cases "n < 10")
  case False
  with scan_int_show_int [OF assms(2)] show ?thesis by (simp add: two_digits_def)
next
  case True
  then have s: "show_nat (nat n) = [char_of (48 + nat n)]" using assms(1) by (subst show_nat.simps) simp
  have d: "is_digit (char_of (48 + nat n))" using True assms(1) by (intro is_digit_char) simp
  have z: "is_digit (CHR ''0'')" "\<not> is_space (CHR ''0'')" by (simp_all add: is_digit_def is_space_def)
  have tw: "takeWhile is_digit (CHR ''0'' # char_of (48 + nat n) # r) = [CHR ''0'', char_of (48 + nat n)]"
    using d z assms(2) by (cases r) auto
  have "digits_val [CHR ''0'', char_of (48 + nat n)] = nat n"
    using True assms(1) by (simp add: digits_val_def)
  with tw z s True assms(1) show ?thesis by (simp add: two_digits_def show_int_def scan_int_def Let_def)
qed

lemma scan_int_blank: "scan_int (CHR '' '' # s) = scan_int s"
  by (simp add: scan_int_def is_space_def)

definition tm_ok :: "tm \<Rightarrow> bool" where
  "tm_ok t \<longleftrightarrow> 0 \<le> tm_mon t \<and> 0 \<le> tm_mday t \<and> 0 \<le> tm_hour t \<and> 0 \<le> tm_min t"

text \<open>A calendar date always fits into the 30 bytes, and into the 20 characters the logs keep of it.\<close>

lemma length_two_digits:
  assumes "0 \<le> n" "n < 100"
  shows "length (two_digits n) \<le> 2"
proof -
  have "length (show_nat (nat n)) \<le> Suc 1" if "\<not> n < 10" by (rule length_show_nat(2)) (use assms that in simp)
  moreover have "length (show_nat (nat n)) = 1" if "n < 10" by (rule length_show_nat(1)) (use assms that in simp)
  ultimately show ?thesis using assms(1) unfolding two_digits_def show_int_def by (cases "n < 10") simp_all
qed

lemma gmt_text_length:
  assumes "tm_ok t" "tm_mday t < 100" "tm_mon t < 99" "tm_hour t < 100" "tm_min t < 100" "0 \<le> tm_sec t" "tm_sec t < 100"
    "0 \<le> tm_year t" "tm_year t < 8100"
  shows "length (gmt_text t) \<le> 19"
proof -
  have year: "length (show_int (tm_year t + 1900)) \<le> 4"
    using assms(8,9) length_show_nat(2) [of "nat (tm_year t + 1900)" 3] by (simp add: show_int_def)
  have "length (two_digits (tm_mday t)) \<le> 2" "length (two_digits (tm_mon t + 1)) \<le> 2" "length (two_digits (tm_hour t)) \<le> 2"
    "length (two_digits (tm_min t)) \<le> 2" "length (two_digits (tm_sec t)) \<le> 2"
    using assms by (auto simp: tm_ok_def intro!: length_two_digits)
  with year show ?thesis by (simp add: gmt_text_def)
qed

lemma gmt_fits: "length (gmt_text (localtime (time w))) \<le> 19 \<Longrightarrow>
    TIME_get_gmt time localtime w = Inr (gmt_text (localtime (time w)))"
  by (simp add: TIME_get_gmt_def stored_def TIME_BUFF_SIZE_def)

lemma scan_datetime_text:
  assumes "tm_ok t"
  shows "scan_datetime (datetime_text t) = Some (tm_year t + 1900, tm_mon t + 1, tm_mday t, tm_hour t, tm_min t)"
proof -
  have sep: "scan_int (show_int i @ CHR ''-'' # r) = Some (i, CHR ''-'' # r)" for i r
    by (rule scan_int_show_int) (simp add: is_digit_def)
  have two: "0 \<le> i \<Longrightarrow> c = CHR ''-'' \<or> c = CHR '' '' \<or> c = CHR '':'' \<Longrightarrow> scan_int (two_digits i @ c # r) = Some (i, c # r)" for i c r
    by (rule scan_int_two_digits) (auto simp: is_digit_def)
  show ?thesis
    using assms by (simp add: scan_datetime_def datetime_text_def scan_lit_def sep two tm_ok_def scan_int_blank)
qed

text \<open>
  A time stamp survives its text: the text that \<open>TIME_epoch2time\<close> writes is read back by
  \<open>TIME_epoch_from_datetime\<close> to the beginning of its minute, when no daylight saving is in effect.
\<close>

theorem epoch_round_trip:
  assumes "localtime (sint (strtoul epoch)) = t" "tm_ok t" "\<not> tm_isdst t"
    "mktime (t\<lparr>tm_sec := 0\<rparr>) = sint (strtoul epoch) - tm_sec t" "length (datetime_text t) < dst_len"
  shows "\<exists>s. TIME_epoch2time localtime epoch dst_len = Inr s \<and>
    TIME_epoch_from_datetime mktime s = sint (strtoul epoch) - tm_sec t"
proof -
  have "t\<lparr>tm_sec := 0\<rparr> = \<lparr>tm_year = tm_year t, tm_mon = tm_mon t, tm_mday = tm_mday t, tm_hour = tm_hour t, tm_min = tm_min t,
      tm_sec = 0, tm_isdst = False\<rparr>"
    using assms(3) by (cases t) simp
  with assms scan_datetime_text [OF assms(2)] show ?thesis
    by (simp add: TIME_epoch2time_def TIME_epoch_from_datetime_def Let_def)
qed

text \<open>A calendar that knows one minute: 1970-01-01 00:00.\<close>

theorem epoch_round_trip_witness:
  "\<exists>s. TIME_epoch2time (\<lambda>e. \<lparr>tm_year = 70, tm_mon = 0, tm_mday = 1, tm_hour = 0, tm_min = 0, tm_sec = e, tm_isdst = False\<rparr>) ''42'' 30 = Inr s \<and>
     TIME_epoch_from_datetime (\<lambda>t. tm_sec t) s = 0"
proof -
  have e: "sint (strtoul ''42'') = 42"
    by (simp add: strtoul_def digits_base_def digit_value_def is_space_def)
  let ?t = "\<lparr>tm_year = 70, tm_mon = 0, tm_mday = 1, tm_hour = 0, tm_min = 0, tm_sec = 42, tm_isdst = False\<rparr>"
  have l: "length (datetime_text ?t) < 30" by code_simp
  from epoch_round_trip [where epoch = "''42''" and t = ?t and dst_len = 30 and mktime = tm_sec
      and localtime = "\<lambda>e. \<lparr>tm_year = 70, tm_mon = 0, tm_mday = 1, tm_hour = 0, tm_min = 0, tm_sec = e, tm_isdst = False\<rparr>"]
  show ?thesis using l by (simp add: e tm_ok_def)
qed

text \<open>A world that counts nanoseconds and the signals to come, each of which ends a nap after half of its seconds.\<close>

definition demo_nanosleep :: "timespec \<Rightarrow> nat \<times> nat \<Rightarrow> nap \<times> (nat \<times> nat)" where
  "demo_nanosleep t w =
     (case snd w of
        0 \<Rightarrow> (Slept, fst w + nanoseconds t, 0)
      | Suc k \<Rightarrow> (let r = t\<lparr>tv_sec := tv_sec t div 2\<rparr> in (Interrupted r, fst w + (nanoseconds t - nanoseconds r), k)))"

theorem sleep_lasts_witness:
  "\<exists>w. dcpam_sleep demo_nanosleep 2500 (0, 3) = Some w \<and> 2500000000 \<le> fst w"
proof -
  have h: "nanoseconds (t\<lparr>tv_sec := tv_sec t div 2\<rparr>) \<le> nanoseconds t" for t by (simp add: nanoseconds_def)
  have n: "naps fst demo_nanosleep"
    unfolding naps_def
  proof (intro allI)
    fix t :: timespec and w :: "nat \<times> nat"
    show "case demo_nanosleep t w of (Slept, w') \<Rightarrow> fst w + nanoseconds t \<le> fst w'
        | (Interrupted ts, w') \<Rightarrow> fst w + nanoseconds t \<le> fst w' + nanoseconds ts | (Sleep_failed, w') \<Rightarrow> False"
      using h [of t] by (cases "snd w") (simp_all add: demo_nanosleep_def Let_def)
  qed
  have "snd v < snd w" if "demo_nanosleep t w = (Interrupted ts, v)" for t w ts v
    using that by (cases "snd w") (auto simp: demo_nanosleep_def Let_def)
  from sleep_lasts [where signals = snd and w = "(0, 3)" and ms = 2500, OF n this]
  show ?thesis by auto
qed

theorem duration_round_trip_witness: "read_duration (TIME_format (word_of_int (- 125))) = Some (- 125)"
  by (rule duration_round_trip) simp_all

end
