(* ===== verification/C_Strings.thy ===== *)
theory C_Strings
  imports Dcpam_Prelude
begin

text \<open>
  \<open>src/utils/strings.c\<close> and \<open>src/utils/misc.c\<close>: the program's own \<open>strlcpy\<close> and \<open>strlcat\<close> on
  byte buffers, \<open>rtrim\<close>, \<open>strpos\<close>, \<open>mkrndstr\<close> and \<open>ARRAY_has_int_element\<close>. A store outside the
  destination is \<open>None\<close>. Sources are C strings, given without their terminating NUL. Sizes are
  \<open>nat\<close>: the only wrap-around, \<open>size + 1\<close> at \<open>SIZE_MAX\<close>, is not modelled.
\<close>

section \<open>\<open>strlcpy\<close>\<close>

text \<open>
  The \<open>do .. while\<close> loop: counter, destination, write position, rest of the source. It ends at the
  source's NUL (counter still positive) or when the counter reaches 0.
\<close>

fun strlcpy_loop :: "nat \<Rightarrow> char list \<Rightarrow> nat \<Rightarrow> string \<Rightarrow> (char list \<times> nat \<times> nat) option" where
  "strlcpy_loop 0 dst i src = Some (dst, i, 0)"
| "strlcpy_loop (Suc n) dst i [] =
     (case poke dst i NUL of None \<Rightarrow> None | Some dst' \<Rightarrow> Some (dst', Suc i, Suc n))"
| "strlcpy_loop (Suc n) dst i (c # cs) =
     (case poke dst i c of None \<Rightarrow> None | Some dst' \<Rightarrow> strlcpy_loop n dst' (Suc i) cs)"

definition strlcpy :: "char list \<Rightarrow> string \<Rightarrow> nat \<Rightarrow> (char list \<times> nat) option" where
  "strlcpy dst src sz =
     (if sz = 0 then Some (dst, length src)
      else (case strlcpy_loop sz dst 0 src of
              None \<Rightarrow> None
            | Some (dst', i, to_copy) \<Rightarrow>
                if to_copy = 0
                then (case poke dst' i NUL of None \<Rightarrow> None | Some dst'' \<Rightarrow> Some (dst'', length src))
                else Some (dst', length src)))"

lemma strlcpy_loop_cut:
  "n \<le> length src \<Longrightarrow> i + n \<le> length dst \<Longrightarrow>
   strlcpy_loop n dst i src = Some (take i dst @ take n src @ drop (i + n) dst, i + n, 0)"
proof (induction n dst i src rule: strlcpy_loop.induct)
  case (3 n dst i c cs)
  then show ?case by (simp add: take_Suc_update drop_update_cancel)
qed auto

lemma strlcpy_loop_whole:
  "length src < n \<Longrightarrow> i + length src < length dst \<Longrightarrow>
   strlcpy_loop n dst i src =
     Some (take i dst @ src @ NUL # drop (Suc (i + length src)) dst, Suc (i + length src), n - length src)"
proof (induction n dst i src rule: strlcpy_loop.induct)
  case (2 n dst i)
  then show ?case by (simp add: take_drop_update)
next
  case (3 n dst i c cs)
  then show ?case by (simp add: take_Suc_update drop_update_cancel)
qed auto

lemma strlcpy_loop_overrun:
  "i \<le> length dst \<Longrightarrow> length dst \<le> i + length src \<Longrightarrow> length dst - i < n \<Longrightarrow>
   strlcpy_loop n dst i src = None"
proof (induction n dst i src rule: strlcpy_loop.induct)
  case (1 dst i src)
  from "1.prems"(3) show ?case by simp
next
  case (2 n dst i)
  from "2.prems"(1,2) have "length dst = i" by simp
  then show ?case by simp
next
  case (3 n dst i c cs)
  show ?case
  proof (cases "i < length dst")
    case True
    with "3.IH" [of "dst[i := c]"] "3.prems" show ?thesis by simp
  qed (use "3.prems" in simp)
qed

text \<open>The shared form: what a call leaves in a large enough buffer.\<close>

lemma strlcpy_eq:
  assumes "0 < sz" "min sz (length src) < length dst"
  shows "strlcpy dst src sz =
     Some (take sz src @ NUL # drop (Suc (min sz (length src))) dst, length src)"
proof (cases "sz \<le> length src")
  case True
  then have "strlcpy_loop sz dst 0 src = Some (take sz src @ drop sz dst, sz, 0)"
    using strlcpy_loop_cut [of sz src 0 dst] assms by simp
  with True assms show ?thesis
    by (simp add: strlcpy_def list_update_append min_absorb1 Cons_nth_drop_Suc [symmetric])
next
  case False
  then have "strlcpy_loop sz dst 0 src =
      Some (src @ NUL # drop (Suc (length src)) dst, Suc (length src), sz - length src)"
    using strlcpy_loop_whole [of src sz 0 dst] assms by simp
  with False assms show ?thesis by (simp add: strlcpy_def min_absorb2)
qed

lemma strlcpy_overrun:
  assumes "0 < sz" "length dst \<le> min sz (length src)"
  shows "strlcpy dst src sz = None"
proof (cases "length dst < sz")
  case True
  then have "strlcpy_loop sz dst 0 src = None"
    using assms by (intro strlcpy_loop_overrun) auto
  with assms show ?thesis by (simp add: strlcpy_def)
next
  case False
  then have "sz \<le> length src" "sz = length dst" using assms by auto
  then show ?thesis
    using strlcpy_loop_cut [of sz src 0 dst] assms by (simp add: strlcpy_def)
qed

lemma strlcpy_cstr:
  assumes "0 < sz" "cstring src" "strlcpy dst src sz = Some (dst', r)"
  shows "cstr_of dst' = take sz src"
proof -
  have "min sz (length src) < length dst"
    using strlcpy_overrun [of sz dst src] assms by (cases "length dst \<le> min sz (length src)") auto
  with assms show ?thesis by (auto simp: strlcpy_eq cstring_take)
qed

text \<open>
  \<open>strlcpy\<close> leaves the first \<open>sz\<close> characters of the source, NUL-terminated, in the
  destination, does not touch the bytes after the terminator, and returns the length of the source;
  with \<open>sz = 0\<close> it writes nothing at all. It writes \<open>sz + 1\<close> bytes when the source is that long:
  \<open>sz\<close> is a length, not (as in BSD) the size of the destination. The writes stay inside the
  destination exactly when the terminator does.
\<close>

theorem strlcpy_spec:
  "strlcpy dst src sz =
    (if sz = 0 then Some (dst, length src)
     else if min sz (length src) < length dst
     then Some (take sz src @ NUL # drop (Suc (min sz (length src))) dst, length src)
     else None)"
  using strlcpy_eq [of sz src dst] strlcpy_overrun [of sz dst src]
  by (cases "sz = 0") (auto simp: strlcpy_def not_less)

section \<open>\<open>strlcat\<close>\<close>

text \<open>
  First loop: the length of the string in the destination, capped by \<open>sz\<close>. Second loop: copy while
  more than one byte is left, then only count. The result is the destination and the value returned.
\<close>

fun strlcat_scan :: "nat \<Rightarrow> char list \<Rightarrow> nat" where
  "strlcat_scan 0 dst = 0"
| "strlcat_scan (Suc n) [] = 0"
| "strlcat_scan (Suc n) (c # cs) = (if c = NUL then 0 else Suc (strlcat_scan n cs))"

fun strlcat_loop :: "nat \<Rightarrow> char list \<Rightarrow> nat \<Rightarrow> string \<Rightarrow> (char list \<times> nat) option" where
  "strlcat_loop to_copy dst i [] = Some (dst, i)"
| "strlcat_loop to_copy dst i (c # cs) =
     (if to_copy \<noteq> 1
      then (case poke dst i c of None \<Rightarrow> None | Some dst' \<Rightarrow> strlcat_loop (to_copy - 1) dst' (Suc i) cs)
      else strlcat_loop to_copy dst i cs)"

definition strlcat :: "char list \<Rightarrow> string \<Rightarrow> nat \<Rightarrow> (char list \<times> nat) option" where
  "strlcat dst src sz =
     (let dst_len = strlcat_scan sz dst; to_copy = sz - dst_len in
      if to_copy = 0 then Some (dst, dst_len + length src)
      else (case strlcat_loop to_copy dst dst_len src of
              None \<Rightarrow> None
            | Some (dst', i) \<Rightarrow>
                (case poke dst' i NUL of
                   None \<Rightarrow> None
                 | Some dst'' \<Rightarrow> Some (dst'', dst_len + length src))))"

lemma strlcat_scan_string: "strlcat_scan n (s @ NUL # r) = min n (length s)" if "cstring s"
  using that by (induction n "s @ NUL # r" arbitrary: s rule: strlcat_scan.induct)
    (auto simp: Cons_eq_append_conv)

lemma strlcat_loop_counts: "strlcat_loop 1 dst i src = Some (dst, i)"
  by (induction src) auto

lemma strlcat_loop_eq:
  "0 < n \<Longrightarrow> i + n \<le> length dst \<Longrightarrow>
   strlcat_loop n dst i src =
     Some (take i dst @ take (n - 1) src @ drop (i + min (n - 1) (length src)) dst,
           i + min (n - 1) (length src))"
proof (induction n dst i src rule: strlcat_loop.induct)
  case (2 n dst i c cs)
  show ?case
  proof (cases "n = 1")
    case True
    then show ?thesis using strlcat_loop_counts [of dst i "c # cs"] by simp
  next
    case False
    then obtain m where "n = Suc (Suc m)" using "2.prems" by (cases n) (auto simp: gr0_conv_Suc)
    with "2.IH"(1) [of "dst[i := c]"] "2.prems" show ?thesis
      by (simp add: take_Suc_update drop_update_cancel)
  qed
qed auto

text \<open>What a call leaves when the destination holds a C string shorter than \<open>sz\<close>.\<close>

lemma strlcat_eq:
  assumes "cstring s" "cstring src" "length s < sz" "sz \<le> length (s @ NUL # r)"
  shows "\<exists>buf. strlcat (s @ NUL # r) src sz = Some (buf, length s + length src) \<and>
           length buf = length (s @ NUL # r) \<and> cstr_of buf = take (sz - 1) (s @ src) \<and>
           drop sz buf = drop sz (s @ NUL # r)"
proof -
  let ?n = "sz - length s" and ?dst = "s @ NUL # r"
  let ?m = "min (?n - 1) (length src)"
  have scan: "strlcat_scan sz ?dst = length s"
    using assms strlcat_scan_string [of s sz r] by simp
  have loop: "strlcat_loop ?n ?dst (length s) src =
      Some (s @ take (?n - 1) src @ drop ?m (NUL # r), length s + ?m)"
    using strlcat_loop_eq [of ?n "length s" ?dst src] assms by simp
  obtain x xs where tl: "drop ?m (NUL # r) = x # xs"
  proof (cases "drop ?m (NUL # r)")
    case Nil
    then have "Suc (length r) \<le> ?m" by simp
    moreover have "?n \<le> Suc (length r)" using assms(4) by simp
    ultimately show ?thesis using assms(3) by linarith
  qed
  have xs: "xs = drop (Suc ?m) (NUL # r)"
    using tl by (metis drop_Suc list.sel(3) tl_drop)
  have at: "length s + ?m = length (s @ take (?n - 1) src)" by simp
  have pos: "sz - length s \<noteq> 0" using assms(3) by simp
  have "strlcat ?dst src sz =
      Some ((s @ take (?n - 1) src) @ NUL # xs, length s + length src)"
    unfolding strlcat_def Let_def scan loop tl append_assoc [symmetric] at using pos
    by (simp add: poke_def list_update_append del: append_assoc)
  moreover have "cstr_of ((s @ take (?n - 1) src) @ NUL # xs) = s @ take (?n - 1) src"
    by (rule cstr_of_NUL) (simp add: assms cstring_take)
  moreover have "s @ take (?n - 1) src = take (sz - 1) (s @ src)"
    using assms(3) by simp
  moreover have "length (NUL # r) = ?m + Suc (length xs)"
    using arg_cong [OF tl, of length] by simp
  moreover have "drop sz ((s @ take (?n - 1) src) @ NUL # xs) = drop sz (s @ NUL # r)"
  proof -
    have "length s + Suc ?m \<le> sz" using assms(3) by auto
    then obtain k where k: "sz = length (s @ take (?n - 1) src) + Suc k"
      using at by (auto simp: le_iff_add)
    have k': "sz = length s + (Suc ?m + k)" using k at by simp
    have "drop (length A + Suc k) (A @ NUL # xs) = drop k xs" for A :: string by simp
    from this [of "s @ take (?n - 1) src"]
    have "drop sz ((s @ take (?n - 1) src) @ NUL # xs) = drop k xs"
      by (simp only: k [symmetric])
    also have "\<dots> = drop (Suc ?m + k) (NUL # r)"
      by (simp add: xs add.commute)
    also have "\<dots> = drop sz (s @ NUL # r)"
    proof -
      have "drop (length s + j) (s @ t) = drop j t" for j and t :: string by simp
      from this [of "Suc ?m + k" "NUL # r"] show ?thesis by (simp only: k' [symmetric])
    qed
    finally show ?thesis .
  qed
  ultimately show ?thesis by auto
qed

text \<open>
  Appending to a C string in a buffer of at least \<open>sz\<close> bytes never writes past the \<open>sz\<close>-th
  byte; the buffer then holds the concatenation cut to \<open>sz - 1\<close> characters, and the value returned
  is the length the whole concatenation would have had.
\<close>

theorem strlcat_spec:
  assumes "cstring s" "cstring src" "length s < sz" "sz \<le> length (s @ NUL # r)"
  shows "\<exists>buf. strlcat (s @ NUL # r) src sz = Some (buf, length s + length src) \<and>
           length buf = length (s @ NUL # r) \<and> cstr_of buf = take (sz - 1) (s @ src) \<and>
           drop sz buf = drop sz (s @ NUL # r)"
  using assms by (rule strlcat_eq)

theorem strlcat_spec_witness:
  "\<exists>buf. strlcat (''ab'' @ NUL # ''xxxxx'') ''cdefg'' 5 = Some (buf, 7) \<and>
         length buf = 8 \<and> cstr_of buf = ''abcd'' \<and> drop 5 buf = ''xxx''"
  using strlcat_spec [of "''ab''" "''cdefg''" 5 "''xxxxx''"] by (simp add: eval_nat_numeral)

section \<open>\<open>rtrim\<close>, \<open>strpos\<close>, \<open>mkrndstr\<close>, \<open>ARRAY_has_int_element\<close>\<close>

text \<open>
  The pointer starts at the terminator and is decremented before each comparison, so at position 0
  the loop reads the byte before the string: a fault.
\<close>

fun rtrim_scan :: "string \<Rightarrow> char \<Rightarrow> nat \<Rightarrow> nat outcome" where
  "rtrim_scan s junk 0 = Inl Out_of_bounds"
| "rtrim_scan s junk (Suc k) = (if s ! k = junk then rtrim_scan s junk k else Inr k)"

definition rtrim :: "string \<Rightarrow> char \<Rightarrow> string outcome" where
  "rtrim s junk = obind (rtrim_scan s junk (length s)) (\<lambda>k. Inr (take (k + 1) s))"

lemma rtrim_scan_append:
  "c \<noteq> junk \<Longrightarrow> n \<le> k \<Longrightarrow>
   rtrim_scan (s @ c # replicate k junk) junk (Suc (length s + n)) = Inr (length s)"
  by (induction n) (simp_all add: nth_append)

lemma rtrim_scan_junk: "n \<le> k \<Longrightarrow> rtrim_scan (replicate k junk) junk n = Inl Out_of_bounds"
  by (induction n) auto

lemma all_junk_or_split:
  "s = replicate (length s) junk \<or> (\<exists>a c n. c \<noteq> junk \<and> s = a @ c # replicate n junk)"
proof (induction s rule: rev_induct)
  case (snoc x xs)
  show ?case
  proof (cases "x = junk")
    case True
    from snoc show ?thesis
    proof
      assume "xs = replicate (length xs) junk"
      with True have "xs @ [x] = replicate (length (xs @ [x])) junk"
        by (metis length_append_singleton replicate_Suc replicate_append_same)
      then show ?thesis by blast
    next
      assume "\<exists>a c n. c \<noteq> junk \<and> xs = a @ c # replicate n junk"
      then obtain a c n where "c \<noteq> junk" "xs = a @ c # replicate n junk" by blast
      with True have "c \<noteq> junk" "xs @ [x] = a @ c # replicate (Suc n) junk"
        by (simp_all add: replicate_append_same)
      then show ?thesis by blast
    qed
  next
    case False
    then have "xs @ [x] = xs @ x # replicate 0 junk" by simp
    with False show ?thesis by blast
  qed
qed simp

text \<open>
  \<open>rtrim\<close> drops exactly the trailing run of the junk character when the string holds another
  character; on an empty string, or one made of junk only, it reads (and may write) before the
  buffer.
\<close>

theorem rtrim_spec:
  "rtrim s junk =
     (if \<exists>c \<in> set s. c \<noteq> junk then Inr (rev (dropWhile (\<lambda>c. c = junk) (rev s)))
      else Inl Out_of_bounds)"
proof -
  consider "s = replicate (length s) junk"
    | a c n where "c \<noteq> junk" "s = a @ c # replicate n junk"
    using all_junk_or_split [of s junk] by blast
  then show ?thesis
  proof cases
    case 1
    then have "\<not> (\<exists>c \<in> set s. c \<noteq> junk)" by (metis in_set_replicate)
    moreover have "rtrim_scan s junk (length s) = Inl Out_of_bounds"
      using rtrim_scan_junk [of "length s" "length s" junk] 1 by simp
    ultimately show ?thesis by (simp add: rtrim_def)
  next
    case 2
    then have "rtrim_scan s junk (length s) = Inr (length a)"
      using rtrim_scan_append [of c junk n n a] by simp
    moreover have "dropWhile (\<lambda>c. c = junk) (replicate n junk @ c # rev a) = c # rev a"
      using 2(1) by (induction n) auto
    ultimately show ?thesis using 2 by (auto simp: rtrim_def)
  qed
qed

theorem rtrim_spec_witness:
  "rtrim ''dcpam//'' (CHR ''/'') = Inr ''dcpam'' \<and> rtrim ''//'' (CHR ''/'') = Inl Out_of_bounds"
  using rtrim_spec [of "''dcpam//''" "CHR ''/''"] rtrim_spec [of "''//''" "CHR ''/''"] by simp

definition strpos :: "string \<Rightarrow> string \<Rightarrow> int" where
  "strpos haystack needle =
     (case strstr haystack needle of Some i \<Rightarrow> int i | None \<Rightarrow> -1)"

definition mkrndstr_charset :: string where
  "mkrndstr_charset = ''abcdefghijklmnopqrstuvwxyzABCDEFGHIJKLMNOPQRSTUVWXYZ0123456789''"

text \<open>\<open>rnd n\<close> is the value of the \<open>n\<close>-th call of \<open>rand()\<close>; \<open>None\<close> is the NULL returned for length 0.\<close>

definition mkrndstr :: "(nat \<Rightarrow> nat) \<Rightarrow> nat \<Rightarrow> string option" where
  "mkrndstr rnd len =
     (if len = 0 then None
      else Some (map (\<lambda>n. mkrndstr_charset ! (rnd n mod length mkrndstr_charset)) [0..<len]))"

lemma mkrndstr_chars: "mkrndstr rnd len = Some s \<Longrightarrow> length s = len \<and> set s \<subseteq> set mkrndstr_charset"
proof -
  have "length mkrndstr_charset = 62" by (simp add: mkrndstr_charset_def)
  then have "mkrndstr_charset ! (rnd n mod length mkrndstr_charset) \<in> set mkrndstr_charset" for n
    by (intro nth_mem) simp
  then show "mkrndstr rnd len = Some s \<Longrightarrow> ?thesis"
    by (auto simp: mkrndstr_def split: if_splits)
qed

fun ARRAY_has_int_element_from :: "int list \<Rightarrow> int \<Rightarrow> int \<Rightarrow> int" where
  "ARRAY_has_int_element_from [] i element = -1"
| "ARRAY_has_int_element_from (x # xs) i element =
     (if x = element then i else ARRAY_has_int_element_from xs (i + 1) element)"

definition ARRAY_has_int_element :: "int list \<Rightarrow> int \<Rightarrow> int" where
  "ARRAY_has_int_element src_array element = ARRAY_has_int_element_from src_array 0 element"

lemma ARRAY_has_int_element_from_ge:
  "ARRAY_has_int_element_from xs i e = -1 \<and> e \<notin> set xs \<or>
   (\<exists>k < length xs. ARRAY_has_int_element_from xs i e = i + int k \<and> xs ! k = e \<and> e \<notin> set (take k xs))"
proof (induction xs arbitrary: i)
  case (Cons x xs)
  show ?case
  proof (cases "x = e")
    case True
    then show ?thesis by (intro disjI2 exI [of _ 0]) simp
  next
    case False
    from Cons.IH [of "i + 1"] show ?thesis
    proof (elim disjE exE conjE)
      fix k assume "k < length xs" "ARRAY_has_int_element_from xs (i + 1) e = i + 1 + int k"
        "xs ! k = e" "e \<notin> set (take k xs)"
      with False show ?thesis by (intro disjI2 exI [of _ "Suc k"]) simp
    qed (use False in auto)
  qed
qed simp

end
