(* ===== verification/Db_Query.thy ===== *)
theory Db_Query
  imports C_Strings
begin

text \<open>
  \<open>src/db/db.c\<close> and \<open>src/include/db/db.h\<close>: query results and their release, the statement classifier
  \<open>DB_QUERY_get_type\<close>, and \<open>DB_QUERY_format\<close>, which binds values to the \<open>?\<close> of a statement through
  \<open>strtok\<close> and turns the marker \<open>dcpamNULL\<close> into \<open>NULL\<close>. Buffers are byte lists of their allocated
  length; a write outside one is a fault. Parameter values are byte lists whose lengths are the
  \<open>param_lengths\<close> array. Second half: the reference semantics \<open>bind_params\<close> and the proof that the code
  implements it, and where it does not.
\<close>

section \<open>Query results\<close>

text \<open>
  A field's \<open>type\<close> text is never read. The field array of a record is a list, so \<open>field_count\<close> of a
  record is its length; NULL and the empty array are the same list.
\<close>

record DB_FIELD =
  f_label :: string
  f_value :: "string option"
  f_size :: nat

record DB_RECORD =
  r_fields :: "DB_FIELD list"

record DB_QUERY =
  q_row_count :: nat
  q_field_count :: nat
  q_records :: "DB_RECORD list"
  q_sql :: "string option"

definition DB_QUERY_init :: "DB_QUERY option \<Rightarrow> DB_QUERY option" where
  "DB_QUERY_init db_query =
     map_option (\<lambda>q. q\<lparr>q_sql := None, q_records := [], q_row_count := 0, q_field_count := 0\<rparr>) db_query"

text \<open>What is left of a record: nothing; the count of blocks handed to \<open>free\<close> is the result.\<close>

definition DB_QUERY_record_free :: "DB_RECORD option \<Rightarrow> nat" where
  "DB_QUERY_record_free rec =
     (case rec of
        None \<Rightarrow> 0
      | Some r \<Rightarrow> length (List.filter (\<lambda>f. f_value f \<noteq> None) (r_fields r)) +
                 (if r_fields r = [] then 0 else 1) + 1)"

text \<open>
  \<open>DB_QUERY_free\<close> walks \<open>field_count\<close> fields of \<open>row_count\<close> records; with no row or no column the
  record array stays allocated.
\<close>

definition DB_QUERY_free :: "DB_QUERY option \<Rightarrow> DB_QUERY option outcome" where
  "DB_QUERY_free db_query =
     (case db_query of
        None \<Rightarrow> Inr None
      | Some q \<Rightarrow>
          if 0 < q_row_count q \<and> 0 < q_field_count q
          then if q_row_count q \<le> length (q_records q) \<and>
                  (\<forall>r \<in> set (take (q_row_count q) (q_records q)). q_field_count q \<le> length (r_fields r))
            then Inr (Some \<lparr>q_row_count = 0, q_field_count = 0, q_records = [], q_sql = None\<rparr>)
            else Inl Out_of_bounds
          else Inr (Some (q\<lparr>q_row_count := 0, q_field_count := 0, q_sql := None\<rparr>)))"

text \<open>
  The shape of a result that the rest of the program relies on: as many records as the count says, each with
  the stated number of fields. A result of a statement that failed may keep records that are not counted.
\<close>

definition result_ok :: "DB_QUERY \<Rightarrow> bool" where
  "result_ok q \<longleftrightarrow> q_row_count q \<le> length (q_records q) \<and>
     (\<forall>r \<in> set (q_records q). length (r_fields r) = q_field_count q)"

definition result_wf :: "DB_QUERY \<Rightarrow> bool" where
  "result_wf q \<longleftrightarrow> q_row_count q \<le> length (q_records q) \<and>
     (\<forall>r \<in> set (take (q_row_count q) (q_records q)). length (r_fields r) = q_field_count q)"

lemma result_ok_wf: "result_ok q \<Longrightarrow> result_wf q"
  by (auto simp: result_ok_def result_wf_def dest: in_set_takeD)

lemma result_wf_free: "result_wf q \<Longrightarrow> \<exists>r. DB_QUERY_free (Some q) = Inr r"
  by (auto simp: result_wf_def DB_QUERY_free_def)

section \<open>Statement types\<close>

datatype DB_QUERY_TYPE =
    DQT_SELECT | DQT_INSERT | DQT_UPDATE | DQT_DELETE | DQT_ALTER | DQT_DROP | DQT_CREATE
  | DQT_USE | DQT_SHOW | DQT_UNKNOWN

definition DB_QUERY_get_type :: "string \<Rightarrow> DB_QUERY_TYPE" where
  "DB_QUERY_get_type sql =
     (if contains sql ''SELECT'' then DQT_SELECT
      else if contains sql ''INSERT'' then DQT_INSERT
      else if contains sql ''UPDATE'' then DQT_UPDATE
      else if contains sql ''DELETE'' then DQT_DELETE
      else if contains sql ''ALTER'' then DQT_ALTER
      else if contains sql ''DROP'' then DQT_DROP
      else if contains sql ''CREATE'' then DQT_CREATE
      else if contains sql ''USE'' then DQT_USE
      else if contains sql ''SHOW'' then DQT_SHOW
      else if contains sql (DQ # ''find'' @ [DQ]) then DQT_SELECT
      else if contains sql (DQ # ''insert'' @ [DQ]) then DQT_INSERT
      else if contains sql (DQ # ''update'' @ [DQ]) then DQT_UPDATE
      else if contains sql (DQ # ''delete'' @ [DQ]) then DQT_DELETE
      else DQT_UNKNOWN)"

section \<open>Binding values: \<open>DB_QUERY_format\<close>\<close>

abbreviation QM :: char where "QM \<equiv> CHR ''?''"

text \<open>
  The writing loop of \<open>_DB_QUERY_replace_params\<close>: token \<open>i\<close>, then value \<open>i\<close> while there is one; each
  piece is a \<open>memcpy\<close> at the current length.
\<close>

fun replace_params_loop :: "char list \<Rightarrow> nat \<Rightarrow> string list \<Rightarrow> string list \<Rightarrow> (char list \<times> nat) outcome" where
  "replace_params_loop dst_buffer len [] vals = Inr (dst_buffer, len)"
| "replace_params_loop dst_buffer len (t # ts) vals =
     obind (memcpy_at dst_buffer len t) (\<lambda>b.
       (case vals of
          [] \<Rightarrow> replace_params_loop b (len + length t) ts []
        | v # vs \<Rightarrow>
            obind (memcpy_at b (len + length t) v) (\<lambda>b.
              replace_params_loop b (len + length t + length v) ts vs)))"

text \<open>
  The statement buffer \<open>src\<close> has \<open>dst_len + 1\<close> bytes. Without a token (only \<open>?\<close> in the template) it is
  left alone. The final copy moves \<open>dst_len\<close> bytes back, not the last one.
\<close>

definition DB_QUERY_replace_params ::
  "char list \<Rightarrow> string list \<Rightarrow> nat \<Rightarrow> (char list \<times> int) outcome" where
  "DB_QUERY_replace_params src replaces dst_len =
     (let src_part = strtok_all QM (cstr_of src); repl_count = length src_part in
      if 0 < repl_count
      then obind (replace_params_loop (replicate (dst_len + 1) NUL) 0 src_part replaces)
             (\<lambda>(dst_buffer, len).
                if len < length dst_buffer
                then Inr (take dst_len (dst_buffer[len := NUL]) @ drop dst_len src, int repl_count - 1)
                else Inl Out_of_bounds)
      else Inr (src, 0))"

text \<open>
  The loop of \<open>DB_QUERY_internal_replace_str_\<close> on the text of the buffer: find from offset \<open>p\<close>,
  rebuild the text in a scratch buffer of \<open>dst_len + 1\<close> bytes, continue one character after the
  occurrence. A longer text than the buffers hold is a fault.
\<close>

function replace_str_loop ::
  "string \<Rightarrow> string \<Rightarrow> nat \<Rightarrow> string \<Rightarrow> nat \<Rightarrow> nat \<Rightarrow> (string \<times> nat) outcome" where
  "replace_str_loop search repl dst_len s p n =
     (if length s < p then Inl Out_of_bounds
      else (case strstr (drop p s) search of
              None \<Rightarrow> Inr (s, n)
            | Some k \<Rightarrow>
                (let s' = take (p + k) s @ repl @ drop (p + k + length search) s in
                 if dst_len < length s' then Inl Out_of_bounds
                 else replace_str_loop search repl dst_len s' (p + k + 1) (n + 1))))"
  by pat_completeness auto
termination
proof (relation "measure (\<lambda>(search, repl, dst_len, s, p, n).
    if length s < p then 0 else Suc (max dst_len (length s)) - p)", goal_cases)
  case 1
  show ?case by simp
next
  case (2 search repl dst_len s p n k s')
  then have "p \<le> length s" "length s' \<le> dst_len" by auto
  then show ?case by (auto simp: less_Suc_eq_le diff_less_mono2)
qed

declare replace_str_loop.simps [simp del]

definition DB_QUERY_internal_replace_str ::
  "char list \<Rightarrow> string \<Rightarrow> string \<Rightarrow> nat \<Rightarrow> (char list \<times> nat) outcome" where
  "DB_QUERY_internal_replace_str src search repl dst_len =
     obind (replace_str_loop search repl dst_len (cstr_of src) 0 0)
       (\<lambda>(s, n). if n = 0 then Inr (src, 0)
                 else if length s < length src
                 then Inr (s @ NUL # drop (length s + 1) src, n)
                 else Inl Out_of_bounds)"

text \<open>
  \<open>DB_QUERY_format\<close>: the result, \<open>*dst\<close> and \<open>*dst_length\<close> as the call leaves them (they are inputs
  too: a \<open>*dst\<close> already set is refused).
\<close>

definition DB_QUERY_format ::
  "string option \<Rightarrow> char list option \<Rightarrow> nat \<Rightarrow> string list \<Rightarrow> (bool \<times> char list option \<times> nat) outcome" where
  "DB_QUERY_format src dst dst_length vals =
     (case src of
        None \<Rightarrow> Inr (False, dst, dst_length)
      | Some sql \<Rightarrow>
          if \<not> contains sql [QM] then Inr (True, dst, dst_length)
          else if dst \<noteq> None then Inr (False, dst, dst_length)
          else
            (let src_params_count = count_list sql QM;
                 dst_len = length sql + sum_list (map length vals) - src_params_count in
             if length vals < src_params_count then Inr (False, None, dst_length)
             else
               (case strlcpy (replicate (dst_len + 1) NUL) sql dst_len of
                  None \<Rightarrow> Inl Out_of_bounds
                | Some (buf, _) \<Rightarrow>
                    obind (DB_QUERY_replace_params buf vals dst_len) (\<lambda>(buf, _).
                    obind (DB_QUERY_internal_replace_str buf (SQ # ''dcpamNULL'' @ [SQ]) ''NULL'' dst_len)
                      (\<lambda>(buf, nulls).
                    let dst_len = dst_len - nulls * 7 in
                    obind (DB_QUERY_internal_replace_str buf ''dcpamNULL'' ''NULL'' dst_len)
                      (\<lambda>(buf, nulls). Inr (True, Some buf, dst_len - nulls * 5)))))))"

section \<open>Reference semantics\<close>

text \<open>Every \<open>?\<close> stands for the next value.\<close>

fun bind_params :: "string \<Rightarrow> string list \<Rightarrow> string" where
  "bind_params [] vals = []"
| "bind_params (c # cs) vals =
     (if c = QM then (case vals of [] \<Rightarrow> QM # bind_params cs [] | v # vs \<Rightarrow> v @ bind_params cs vs)
      else c # bind_params cs vals)"

text \<open>Leftmost non-overlapping replacement, and the number of replacements.\<close>

function replace_all :: "string \<Rightarrow> string \<Rightarrow> string \<Rightarrow> string" where
  "replace_all search repl s =
     (if search = [] then s
      else (case strstr s search of
              None \<Rightarrow> s
            | Some k \<Rightarrow> take k s @ repl @ replace_all search repl (drop (k + length search) s)))"
  by pat_completeness auto
termination
  by (relation "measure (\<lambda>(search, repl, s). length s)")
    (use strstr_drop_less in auto)

function count_all :: "string \<Rightarrow> string \<Rightarrow> nat" where
  "count_all search s =
     (if search = [] then 0
      else (case strstr s search of
              None \<Rightarrow> 0
            | Some k \<Rightarrow> Suc (count_all search (drop (k + length search) s))))"
  by pat_completeness auto
termination
  by (relation "measure (\<lambda>(search, s). length s)")
    (use strstr_drop_less in auto)

declare replace_all.simps [simp del] count_all.simps [simp del]

definition null_markers :: "string \<Rightarrow> string" where
  "null_markers s =
     replace_all ''dcpamNULL'' ''NULL'' (replace_all (SQ # ''dcpamNULL'' @ [SQ]) ''NULL'' s)"

text \<open>The statements on which \<open>strtok\<close> finds one token per \<open>?\<close>: none leading, no two adjacent.\<close>

definition separated :: "string \<Rightarrow> bool" where
  "separated sql \<longleftrightarrow> (sql = [] \<or> hd sql \<noteq> QM) \<and> \<not> contains sql [QM, QM]"

section \<open>Replacement of the NULL marker\<close>

lemma strstr_skip:
  "c \<notin> set x \<Longrightarrow> strstr (x @ r) (c # cs) = map_option (\<lambda>k. length x + k) (strstr r (c # cs))"
  by (cases "strstr r (c # cs)"; induction x) auto

lemma replace_all_skip:
  "c \<notin> set x \<Longrightarrow> replace_all (c # cs) repl (x @ r) = x @ replace_all (c # cs) repl r"
  by (subst (1 2) replace_all.simps) (auto simp: strstr_skip split: option.splits)

lemma count_all_skip: "c \<notin> set x \<Longrightarrow> count_all (c # cs) (x @ r) = count_all (c # cs) r"
  by (subst (1 2) count_all.simps) (auto simp: strstr_skip split: option.splits)

lemma replace_all_length:
  "length repl \<le> length search \<Longrightarrow>
   length (replace_all search repl s) + count_all search s * (length search - length repl) = length s"
proof (induction search repl s rule: replace_all.induct)
  case (1 search repl s)
  show ?case
  proof (cases "search = [] \<or> strstr s search = None")
    case True
    then show ?thesis by (subst replace_all.simps, subst count_all.simps) auto
  next
    case False
    then obtain k where k: "strstr s search = Some k" "search \<noteq> []" by auto
    have "k + length search \<le> length s" using strstr_Some_split [OF k(1)] by simp
    with "1.IH" [OF k(2,1)] "1.prems" k show ?thesis
      by (subst replace_all.simps, subst count_all.simps) simp
  qed
qed

lemma cstring_replace_all:
  "cstring s \<Longrightarrow> cstring repl \<Longrightarrow> cstring (replace_all search repl s)"
proof (induction search repl s rule: replace_all.induct)
  case (1 search repl s)
  then show ?case
    by (subst replace_all.simps) (auto simp: cstring_take cstring_drop split: option.splits)
qed

lemma replace_str_loop_eq:
  assumes "c \<notin> set (tl repl)" "repl \<noteq> []" "length repl \<le> length (c # cs)"
  shows "p \<le> length s \<Longrightarrow> length s \<le> dst_len \<Longrightarrow>
    replace_str_loop (c # cs) repl dst_len s p n =
      Inr (take p s @ replace_all (c # cs) repl (drop p s), n + count_all (c # cs) (drop p s))"
proof (induction "length s - p" arbitrary: s p n rule: less_induct)
  case less
  note sp = less.prems
  show ?case
  proof (cases "strstr (drop p s) (c # cs)")
    case None
    then show ?thesis using sp
      by (subst replace_str_loop.simps, subst replace_all.simps, subst count_all.simps) auto
  next
    case (Some k)
    let ?rest = "drop (p + k + length (c # cs)) s"
    let ?s = "take (p + k) s @ repl @ ?rest"
    have le: "p + k + length (c # cs) \<le> length s"
      using strstr_bound [OF Some] sp unfolding length_drop by linarith
    have len: "length ?s = p + k + length repl + (length s - (p + k + length (c # cs)))"
      using le by simp
    obtain r rs where repl: "repl = r # rs" using assms(2) by (cases repl) auto
    have le': "p + k + 1 \<le> length ?s" "length ?s \<le> dst_len" "length ?s - (p + k + 1) < length s - p"
      using len le sp assms(3) repl by auto
    have tk: "take (p + k + 1) ?s = take (p + k) s @ [r]" "drop (p + k + 1) ?s = rs @ ?rest"
      using le repl by auto
    have rest: "drop (k + length (c # cs)) (drop p s) = ?rest"
      by (simp add: add.commute add.left_commute)
    have "replace_str_loop (c # cs) repl dst_len s p n =
        replace_str_loop (c # cs) repl dst_len ?s (p + k + 1) (n + 1)"
      using sp le' Some by (subst replace_str_loop.simps) (simp add: Let_def)
    also have "\<dots> = Inr (take (p + k) s @ [r] @ replace_all (c # cs) repl (rs @ ?rest),
        n + 1 + count_all (c # cs) (rs @ ?rest))"
      using less.hyps [OF le'(3,1,2), of "n + 1"] unfolding tk by simp
    also have "\<dots> = Inr (take p s @ replace_all (c # cs) repl (drop p s),
        n + count_all (c # cs) (drop p s))"
      using assms(1) repl Some rest
      by (subst (2) replace_all.simps, subst (2) count_all.simps)
        (simp add: replace_all_skip count_all_skip take_add)
    finally show ?thesis .
  qed
qed

lemma internal_replace_eq:
  assumes "c \<notin> set (tl repl)" "repl \<noteq> []" "length repl \<le> length (c # cs)" "cstring repl"
    "length (cstr_of buf) \<le> dst_len" "dst_len < length buf"
  shows "\<exists>buf'. DB_QUERY_internal_replace_str buf (c # cs) repl dst_len =
             Inr (buf', count_all (c # cs) (cstr_of buf)) \<and>
           length buf' = length buf \<and> cstr_of buf' = replace_all (c # cs) repl (cstr_of buf)"
proof -
  let ?s = "cstr_of buf" and ?t = "replace_all (c # cs) repl (cstr_of buf)"
  have loop: "replace_str_loop (c # cs) repl dst_len ?s 0 0 = Inr (?t, count_all (c # cs) ?s)"
    using replace_str_loop_eq [OF assms(1-3), of 0 ?s dst_len 0] assms(5) by simp
  have len: "length ?t + count_all (c # cs) ?s * (length (c # cs) - length repl) = length ?s"
    using replace_all_length assms(3) by blast
  then have lt: "length ?t < length buf" using assms(5,6) by linarith
  have t: "cstring ?t" by (simp add: cstring_replace_all assms(4))
  show ?thesis
  proof (cases "count_all (c # cs) ?s = 0")
    case True
    then have "?t = ?s"
      by (subst replace_all.simps) (subst (asm) count_all.simps, auto split: option.splits)
    with True loop show ?thesis by (simp add: DB_QUERY_internal_replace_str_def)
  next
    case False
    with loop lt t show ?thesis by (simp add: DB_QUERY_internal_replace_str_def)
  qed
qed

lemma null_markers_buffer:
  assumes "length (cstr_of buf) \<le> dst_len" "dst_len < length buf"
  shows "\<exists>b1 b2 n1 n2.
    DB_QUERY_internal_replace_str buf (SQ # ''dcpamNULL'' @ [SQ]) ''NULL'' dst_len = Inr (b1, n1) \<and>
    DB_QUERY_internal_replace_str b1 ''dcpamNULL'' ''NULL'' (dst_len - n1 * 7) = Inr (b2, n2) \<and>
    cstr_of b2 = null_markers (cstr_of buf) \<and> length b2 = length buf \<and>
    length (null_markers (cstr_of buf)) + (dst_len - length (cstr_of buf)) = dst_len - n1 * 7 - n2 * 5"
proof -
  let ?q = "SQ # ''dcpamNULL'' @ [SQ]" and ?s = "cstr_of buf"
  define n1 where "n1 = count_all ?q ?s"
  define s1 where "s1 = replace_all ?q ''NULL'' ?s"
  obtain b1 where b1: "DB_QUERY_internal_replace_str buf ?q ''NULL'' dst_len = Inr (b1, n1)"
    "length b1 = length buf" "cstr_of b1 = s1"
    using internal_replace_eq [of SQ "''NULL''" "''dcpamNULL'' @ [SQ]" buf dst_len] assms
    by (auto simp: n1_def s1_def)
  have l1: "length s1 + n1 * 7 = length ?s"
    using replace_all_length [of "''NULL''" ?q ?s] by (simp add: n1_def s1_def)
  define n2 where "n2 = count_all ''dcpamNULL'' s1"
  have "length s1 \<le> dst_len - n1 * 7" "dst_len - n1 * 7 < length b1" using l1 assms b1 by auto
  then obtain b2 where b2: "DB_QUERY_internal_replace_str b1 ''dcpamNULL'' ''NULL'' (dst_len - n1 * 7) = Inr (b2, n2)"
    "length b2 = length buf" "cstr_of b2 = null_markers ?s"
    using internal_replace_eq [of "CHR ''d''" "''NULL''" "''cpamNULL''" b1 "dst_len - n1 * 7"] b1
    by (auto simp: n2_def s1_def null_markers_def)
  have l2: "length (null_markers ?s) + n2 * 5 = length s1"
    using replace_all_length [of "''NULL''" "''dcpamNULL''" s1]
    by (simp add: n2_def null_markers_def s1_def)
  have "length (null_markers ?s) + (dst_len - length ?s) = dst_len - n1 * 7 - n2 * 5"
    using l1 l2 assms(1) by linarith
  with b1 b2 show ?thesis by blast
qed

section \<open>Writing tokens and values\<close>

fun interleave :: "string list \<Rightarrow> string list \<Rightarrow> string" where
  "interleave [] vals = []"
| "interleave (t # ts) [] = t @ interleave ts []"
| "interleave (t # ts) (v # vs) = t @ v @ interleave ts vs"

lemma interleave_length:
  "length (interleave ts vals) \<le> sum_list (map length ts) + sum_list (map length vals)"
  by (induction ts vals rule: interleave.induct) auto

lemma memcpy_at_append:
  assumes "length t \<le> length r"
  shows "memcpy_at (w @ r) (length w) t = Inr (w @ t @ drop (length t) r)"
  unfolding memcpy_at_def using assms by simp

lemma replace_params_loop_eq:
  "length (interleave ts vals) \<le> length r \<Longrightarrow>
   replace_params_loop (w @ r) (length w) ts vals =
     Inr (w @ interleave ts vals @ drop (length (interleave ts vals)) r,
          length w + length (interleave ts vals))"
proof (induction ts vals arbitrary: w r rule: interleave.induct)
  case (2 t ts)
  let ?r = "drop (length t) r"
  have m: "memcpy_at (w @ r) (length w) t = Inr ((w @ t) @ ?r)"
    using memcpy_at_append [of t r w] "2.prems" by simp
  have "replace_params_loop ((w @ t) @ ?r) (length (w @ t)) ts [] =
      Inr ((w @ t) @ interleave ts [] @ drop (length (interleave ts [])) ?r,
           length (w @ t) + length (interleave ts []))"
    using "2.prems" by (intro "2.IH") simp
  with m show ?case by (simp add: ac_simps)
next
  case (3 t ts v vs)
  let ?r = "drop (length t) r" and ?r' = "drop (length v) (drop (length t) r)"
  have m: "memcpy_at (w @ r) (length w) t = Inr ((w @ t) @ ?r)"
    using memcpy_at_append [of t r w] "3.prems" by simp
  have m': "memcpy_at ((w @ t) @ ?r) (length (w @ t)) v = Inr ((w @ t @ v) @ ?r')"
    using memcpy_at_append [of v ?r "w @ t"] "3.prems" by simp
  have "replace_params_loop ((w @ t @ v) @ ?r') (length (w @ t @ v)) ts vs =
      Inr ((w @ t @ v) @ interleave ts vs @ drop (length (interleave ts vs)) ?r',
           length (w @ t @ v) + length (interleave ts vs))"
    using "3.prems" by (intro "3.IH") simp
  with m m' show ?case by (simp add: ac_simps)
qed simp

lemma zeroed_tail_update: "(x @ replicate k c)[length x := c] = x @ replicate k c"
  by (cases k) (auto simp: list_update_beyond)

lemma zeroed_tail_take:
  assumes "m \<le> n" and that: "length x = m"
  shows "take n (x @ replicate (n + 1 - m) c) = x @ replicate (n - m) c"
proof -
  have "n - m \<le> n + 1 - m" by linarith
  then have "take (n - m) (replicate (n + 1 - m) c) = replicate (n - m) c"
    unfolding take_replicate by (simp only: min_absorb1)
  moreover have "take n x = x" using assms by simp
  ultimately show ?thesis unfolding take_append that by simp
qed

lemma replace_params_eq:
  assumes "length buf = dst_len + 1" "strtok_all QM (cstr_of buf) \<noteq> []"
    "length (interleave (strtok_all QM (cstr_of buf)) vals) \<le> dst_len"
  shows "\<exists>pad n. DB_QUERY_replace_params buf vals dst_len =
           Inr (interleave (strtok_all QM (cstr_of buf)) vals @ pad, n) \<and>
           pad = replicate (dst_len - length (interleave (strtok_all QM (cstr_of buf)) vals)) NUL @
                 drop dst_len buf"
proof -
  let ?x = "interleave (strtok_all QM (cstr_of buf)) vals"
  have "replace_params_loop (replicate (dst_len + 1) NUL) 0 (strtok_all QM (cstr_of buf)) vals =
      Inr (?x @ replicate (dst_len + 1 - length ?x) NUL, length ?x)"
    using replace_params_loop_eq [of "strtok_all QM (cstr_of buf)" vals "replicate (dst_len + 1) NUL" "[]"]
      assms(3) by (simp del: replicate_Suc)
  moreover have "(?x @ replicate (dst_len + 1 - length ?x) NUL)[length ?x := NUL] =
      ?x @ replicate (dst_len + 1 - length ?x) NUL"
    by (rule zeroed_tail_update)
  moreover have "take dst_len (?x @ replicate (dst_len + 1 - length ?x) NUL) =
      ?x @ replicate (dst_len - length ?x) NUL"
    using zeroed_tail_take [OF assms(3) refl] .
  ultimately have "DB_QUERY_replace_params buf vals dst_len =
      Inr ((?x @ replicate (dst_len - length ?x) NUL) @ drop dst_len buf,
           int (length (strtok_all QM (cstr_of buf))) - 1)"
    using assms(2,3) unfolding DB_QUERY_replace_params_def Let_def by (simp del: replicate_Suc)
  then show ?thesis by (intro exI) (auto simp del: replicate_Suc)
qed

section \<open>Tokens against the reference\<close>

lemma bind_params_skip: "QM \<notin> set t \<Longrightarrow> bind_params (t @ r) vals = t @ bind_params r vals"
  by (induction t) auto

lemma separated_split:
  assumes "separated (t @ QM # rest)" "QM \<notin> set t"
  shows "t \<noteq> []" "separated rest"
proof -
  show "t \<noteq> []" using assms by (auto simp: separated_def)
  have "hd rest \<noteq> QM" if "rest \<noteq> []"
  proof
    assume "hd rest = QM"
    with that obtain r where "t @ QM # rest = t @ [QM, QM] @ r" by (cases rest) auto
    then have "contains (t @ QM # rest) [QM, QM]" using contains_mid by metis
    with assms show False by (simp add: separated_def)
  qed
  moreover have "\<not> contains rest [QM, QM]"
  proof
    assume "contains rest [QM, QM]"
    then have "contains ((t @ [QM]) @ rest) [QM, QM]" by (rule contains_append2)
    with assms show False by (simp add: separated_def)
  qed
  ultimately show "separated rest" by (auto simp: separated_def)
qed

lemma interleave_tokens:
  "separated sql \<Longrightarrow> count_list sql QM = length vals \<Longrightarrow>
   interleave (strtok_all QM sql) vals = bind_params sql vals"
proof (induction vals arbitrary: sql)
  case Nil
  then have "QM \<notin> set sql" by (simp add: count_list_0_iff)
  then show ?case using strtok_all_token(2) [of sql QM] bind_params_skip [of sql "[]" "[]"]
    by (cases "sql = []") auto
next
  case (Cons v vs)
  then have "QM \<in> set sql" by (metis count_notin length_0_conv list.distinct(1))
  then obtain t rest where sql: "sql = t @ QM # rest" "QM \<notin> set t"
    by (meson split_list_first)
  note sp = separated_split [OF Cons.prems(1) [unfolded sql] sql(2)]
  have "count_list rest QM = length vs" using Cons.prems(2) sql by simp
  with Cons.IH [OF sp(2)] sp(1) sql show ?case
    by (simp add: strtok_all_token bind_params_skip)
qed

lemma bind_params_length:
  "count_list sql QM = length vals \<Longrightarrow>
   length (bind_params sql vals) + length vals = length sql + sum_list (map length vals)"
proof (induction sql vals rule: bind_params.induct)
  case (2 c cs vals)
  show ?case
  proof (cases "c = QM")
    case False
    with "2.IH"(3) "2.prems" show ?thesis by simp
  next
    case True
    with "2.prems" obtain v vs where v: "vals = v # vs" by (cases vals) auto
    with "2.IH"(2) [OF True v] "2.prems" True show ?thesis by simp
  qed
qed simp

lemma cstring_bind_params:
  "cstring sql \<Longrightarrow> \<forall>v \<in> set vals. cstring v \<Longrightarrow> cstring (bind_params sql vals)"
  by (induction sql vals rule: bind_params.induct) (auto split: list.splits)

lemma contains_QM: "contains sql [QM] \<longleftrightarrow> 0 < count_list sql QM"
  using count_list_0_iff [of sql QM] by (auto simp: contains_char)

lemma separated_tokens: "separated sql \<Longrightarrow> sql \<noteq> [] \<Longrightarrow> strtok_all QM sql \<noteq> []"
  by (cases sql) (auto simp: separated_def strtok_all.simps)

text \<open>The template copy: never a fault, the last byte stays NUL.\<close>

lemma template_copy:
  assumes "cstring sql"
  shows "\<exists>buf. strlcpy (replicate (n + 1) NUL) sql n = Some (buf, length sql) \<and>
           length buf = n + 1 \<and> cstr_of buf = take n sql \<and> drop n buf = [NUL]"
proof (cases "n = 0")
  case True
  then show ?thesis by (simp add: strlcpy_def cstr_of_def)
next
  case False
  let ?m = "min n (length sql)"
  let ?b = "take n sql @ NUL # drop (Suc ?m) (replicate (n + 1) NUL)"
  have "strlcpy (replicate (n + 1) NUL) sql n = Some (?b, length sql)"
    using False by (intro strlcpy_eq) auto
  moreover have "length ?b = n + 1" by simp
  moreover have "cstr_of ?b = take n sql" using assms by (simp add: cstring_take del: drop_replicate)
  moreover have "drop n ?b = [NUL]"
  proof -
    have "?b = take n sql @ replicate (n + 1 - ?m) NUL"
      using Suc_diff_le [of ?m n] by (simp add: min_def)
    moreover have "drop n (take n sql @ replicate (n + 1 - ?m) NUL) =
        replicate (n + 1 - ?m - (n - ?m)) NUL"
      by (simp add: min.commute)
    moreover have "n + 1 - ?m - (n - ?m) = 1" by simp
    ultimately show ?thesis by simp
  qed
  ultimately show ?thesis by blast
qed

lemma interleave_fits:
  assumes "D = length sql + sum_list (map length vals) - count_list sql QM"
    "count_list sql QM \<le> length vals"
  shows "length (interleave (strtok_all QM (take D sql)) vals) \<le> D"
proof -
  let ?t = "take D sql" and ?v = "sum_list (map length vals)"
  have le: "length (interleave (strtok_all QM ?t) vals) \<le> sum_list (map length (strtok_all QM ?t)) + ?v"
    by (rule interleave_length)
  have tok: "sum_list (map length (strtok_all QM ?t)) + count_list ?t QM = length ?t"
    by (rule strtok_all_length)
  have "count_list sql QM = count_list ?t QM + count_list (drop D sql) QM"
    by (metis append_take_drop_id count_list_append)
  moreover have "count_list (drop D sql) QM \<le> length sql - D"
    by (metis count_le_length length_drop)
  moreover have "count_list sql QM \<le> length sql" by (rule count_le_length)
  ultimately show ?thesis using le tok assms(1) by simp linarith
qed

text \<open>One lemma for every call that reaches the formatting: no fault, and what the buffer holds.\<close>

lemma DB_QUERY_format_result:
  fixes sql vals
  defines "D \<equiv> length sql + sum_list (map length vals) - count_list sql QM"
  defines "x \<equiv> interleave (strtok_all QM (take D sql)) vals"
  assumes "cstring sql" "contains sql [QM]" "count_list sql QM \<le> length vals"
  shows "\<exists>buf len. DB_QUERY_format (Some sql) None l vals = Inr (True, Some buf, len) \<and>
           length buf = D + 1 \<and>
           (strtok_all QM (take D sql) \<noteq> [] \<longrightarrow>
              cstr_of buf = null_markers (cstr_of x) \<and>
              len = length (null_markers (cstr_of x)) + (D - length (cstr_of x)))"
proof -
  obtain b0 where b0: "strlcpy (replicate (D + 1) NUL) sql D = Some (b0, length sql)"
    "length b0 = D + 1" "cstr_of b0 = take D sql" "drop D b0 = [NUL]"
    using template_copy [OF assms(3), of D] by blast
  have fits: "length x \<le> D" unfolding x_def D_def using interleave_fits assms(5) by blast
  have "\<exists>b1 n. DB_QUERY_replace_params b0 vals D = Inr (b1, n) \<and> length b1 = D + 1 \<and>
      length (cstr_of b1) \<le> D \<and> (strtok_all QM (take D sql) \<noteq> [] \<longrightarrow> cstr_of b1 = cstr_of x)"
  proof (cases "strtok_all QM (take D sql) = []")
    case True
    then show ?thesis using b0 by (simp add: DB_QUERY_replace_params_def Let_def)
  next
    case False
    let ?b = "x @ replicate (D - length x) NUL @ [NUL]"
    have "\<exists>n. DB_QUERY_replace_params b0 vals D = Inr (?b, n)"
      using replace_params_eq [of b0 D vals] b0 False fits by (auto simp: x_def)
    moreover have "length ?b = D + 1" using fits by simp
    moreover have cs: "cstr_of ?b = cstr_of x"
    proof (cases "NUL \<in> set x")
      case True
      then show ?thesis by (simp add: cstr_of_def takeWhile_append1)
    next
      case False
      then have "cstr_of (x @ NUL # replicate (D - length x) NUL) = x" "cstr_of x = x"
        by (simp_all add: cstring_def)
      then show ?thesis by (simp add: replicate_append_same)
    qed
    moreover have "length (cstr_of ?b) \<le> D"
      unfolding cs using fits length_takeWhile_le [of "\<lambda>c. c \<noteq> NUL" x]
      unfolding cstr_of_def by linarith
    ultimately show ?thesis by blast
  qed
  then obtain b1 n where b1: "DB_QUERY_replace_params b0 vals D = Inr (b1, n)" "length b1 = D + 1"
    "length (cstr_of b1) \<le> D" "strtok_all QM (take D sql) \<noteq> [] \<longrightarrow> cstr_of b1 = cstr_of x"
    by blast
  then have "D < length b1" by simp
  from null_markers_buffer [OF b1(3) this] obtain b2 b3 n1 n2 where b2:
    "DB_QUERY_internal_replace_str b1 (SQ # ''dcpamNULL'' @ [SQ]) ''NULL'' D = Inr (b2, n1)"
    "DB_QUERY_internal_replace_str b2 ''dcpamNULL'' ''NULL'' (D - n1 * 7) = Inr (b3, n2)"
    "cstr_of b3 = null_markers (cstr_of b1)" "length b3 = length b1"
    "length (null_markers (cstr_of b1)) + (D - length (cstr_of b1)) = D - n1 * 7 - n2 * 5"
    by blast
  have "DB_QUERY_format (Some sql) None l vals = Inr (True, Some b3, D - n1 * 7 - n2 * 5)"
    unfolding DB_QUERY_format_def Let_def
    using assms(4,5) b0(1) b1(1) b2(1,2) by (simp add: D_def del: replicate_Suc)
  with b1 b2 show ?thesis by auto
qed

lemma no_truncation:
  assumes "count_list sql QM \<le> length vals" "\<forall>v \<in> set vals. v \<noteq> []"
  shows "length sql \<le> length sql + sum_list (map length vals) - count_list sql QM"
proof -
  have "length vals \<le> sum_list (map length vals)"
    using assms(2) by (induction vals) (auto simp: neq_Nil_conv)
  with assms(1) show ?thesis by linarith
qed

text \<open>
  C3: \<open>DB_QUERY_format\<close> implements the reference: for a statement whose \<open>?\<close> are neither leading
  nor adjacent, with one nonempty, NUL-free value for each, the buffer holds the statement with every
  \<open>?\<close> replaced by its value in order and then every \<open>dcpamNULL\<close>, quoted or not, replaced by \<open>NULL\<close>;
  the length returned is the length of that text.
\<close>

theorem DB_QUERY_format_binds:
  assumes "cstring sql" "separated sql" "contains sql [QM]" "count_list sql QM = length vals"
    "\<forall>v \<in> set vals. cstring v \<and> v \<noteq> []"
  shows "\<exists>buf. DB_QUERY_format (Some sql) None l vals =
             Inr (True, Some buf, length (null_markers (bind_params sql vals))) \<and>
           cstr_of buf = null_markers (bind_params sql vals)"
proof -
  let ?D = "length sql + sum_list (map length vals) - count_list sql QM"
  have all: "take ?D sql = sql" using no_truncation [of sql vals] assms by simp
  have x: "interleave (strtok_all QM sql) vals = bind_params sql vals"
    using interleave_tokens assms by blast
  have "sql \<noteq> []" using assms(3) by (auto simp: contains_char)
  then have tok: "strtok_all QM sql \<noteq> []" using separated_tokens assms(2) by blast
  have cs: "cstr_of (bind_params sql vals) = bind_params sql vals"
    using cstring_bind_params assms by (intro cstr_of_all) blast
  have "?D - length (bind_params sql vals) = 0" using bind_params_length assms(4) by fastforce
  with DB_QUERY_format_result [of sql vals l] all x tok cs assms show ?thesis by auto
qed

theorem DB_QUERY_format_binds_witness:
  "\<exists>buf. DB_QUERY_format (Some ''INSERT INTO t VALUES(?, ?)'') None 0 [''1'', ''dcpamNULL''] =
           Inr (True, Some buf, length (null_markers ''INSERT INTO t VALUES(1, dcpamNULL)'')) \<and>
         cstr_of buf = null_markers ''INSERT INTO t VALUES(1, dcpamNULL)''"
  using DB_QUERY_format_binds [of "''INSERT INTO t VALUES(?, ?)''" "[''1'', ''dcpamNULL'']" 0]
  by (simp add: separated_def contains_def)

text \<open>
  C14: \<open>DB_QUERY_format\<close> is memory safe on every input: whatever the statement (NULL included), the
  number of values, their lengths and bytes, no write leaves a buffer it allocated. This includes the
  calls in which empty values make the template copy truncate the statement.
\<close>

theorem DB_QUERY_format_memory_safe:
  assumes "pred_option cstring src"
  shows "DB_QUERY_format src dst l vals \<noteq> Inl e"
proof (cases src)
  case None
  then show ?thesis by (simp add: DB_QUERY_format_def)
next
  case (Some sql)
  show ?thesis
  proof (cases "contains sql [QM] \<and> dst = None \<and> count_list sql QM \<le> length vals")
    case True
    moreover have "cstring sql" using assms Some by simp
    ultimately obtain buf len where "DB_QUERY_format (Some sql) None l vals = Inr (True, Some buf, len)"
      using DB_QUERY_format_result [of sql vals l] by blast
    with True Some show ?thesis by simp
  next
    case False
    then consider "\<not> contains sql [QM]" | "contains sql [QM]" "dst \<noteq> None"
      | "contains sql [QM]" "dst = None" "length vals < count_list sql QM" by fastforce
    then show ?thesis by cases (simp_all add: DB_QUERY_format_def Some Let_def)
  qed
qed

theorem DB_QUERY_format_memory_safe_witness:
  "DB_QUERY_format (Some ''a?b?'') None 0 [[], []] \<noteq> Inl Out_of_bounds"
  using DB_QUERY_format_memory_safe [of "Some ''a?b?''" None 0 "[[], []]"] by simp

lemma interleave_extra:
  "separated sql \<Longrightarrow> sql \<noteq> [] \<Longrightarrow> last sql \<noteq> QM \<Longrightarrow> count_list sql QM = length vals \<Longrightarrow>
   interleave (strtok_all QM sql) (vals @ [v]) = bind_params sql vals @ v"
proof (induction vals arbitrary: sql)
  case Nil
  then have "QM \<notin> set sql" by (simp add: count_list_0_iff)
  then show ?case using strtok_all_token(2) [of sql QM] bind_params_skip [of sql "[]" "[]"] Nil
    by auto
next
  case (Cons u us)
  then have "QM \<in> set sql" by (metis count_notin length_0_conv list.distinct(1))
  then obtain t rest where sql: "sql = t @ QM # rest" "QM \<notin> set t"
    by (meson split_list_first)
  note sp = separated_split [OF Cons.prems(1) [unfolded sql] sql(2)]
  have "count_list rest QM = length us" "rest \<noteq> []" "last rest \<noteq> QM"
    using Cons.prems(3,4) sql by (auto split: if_splits)
  with Cons.IH [OF sp(2)] sp(1) sql show ?case
    by (simp add: strtok_all_token bind_params_skip)
qed

text \<open>
  One value too many is not refused: the extra value ends up after the end of the statement.
\<close>

theorem DB_QUERY_format_extra_value:
  assumes "cstring sql" "separated sql" "contains sql [QM]" "last sql \<noteq> QM"
    "count_list sql QM = length vals" "\<forall>u \<in> set (vals @ [v]). cstring u \<and> u \<noteq> []"
  shows "\<exists>buf len. DB_QUERY_format (Some sql) None l (vals @ [v]) = Inr (True, Some buf, len) \<and>
           cstr_of buf = null_markers (bind_params sql vals @ v)"
proof -
  let ?vs = "vals @ [v]"
  let ?D = "length sql + sum_list (map length ?vs) - count_list sql QM"
  have all: "take ?D sql = sql" using no_truncation [of sql ?vs] assms by simp
  have ne: "sql \<noteq> []" using assms(3) by (auto simp: contains_char)
  have x: "interleave (strtok_all QM sql) ?vs = bind_params sql vals @ v"
    using interleave_extra assms ne by blast
  have tok: "strtok_all QM sql \<noteq> []" using separated_tokens assms(2) ne by blast
  have "cstring (bind_params sql vals @ v)" using cstring_bind_params assms by simp
  then have cs: "cstr_of (bind_params sql vals @ v) = bind_params sql vals @ v" by (rule cstr_of_all)
  have "count_list sql QM \<le> length ?vs" using assms(5) by simp
  from DB_QUERY_format_result [OF assms(1,3) this, of l] show ?thesis
    unfolding all x cs using tok by blast
qed

theorem DB_QUERY_format_extra_value_witness:
  "\<exists>buf len. DB_QUERY_format (Some ''SELECT * FROM t WHERE a = ? AND b'') None 0 [''1'', ''2''] =
           Inr (True, Some buf, len) \<and>
         cstr_of buf = null_markers ''SELECT * FROM t WHERE a = 1 AND b2''"
  using DB_QUERY_format_extra_value [of "''SELECT * FROM t WHERE a = ? AND b''" "[''1'']" "''2''" 0]
  by (simp add: separated_def contains_def)

text \<open>
  A \<open>?\<close> at the start of a statement yields no token of its own, so its value is written after
  the text that follows it instead of before.
\<close>

theorem DB_QUERY_format_leading_mark:
  assumes "cstring t" "t \<noteq> []" "QM \<notin> set t" "cstring v" "v \<noteq> []"
  shows "\<exists>buf len. DB_QUERY_format (Some (QM # t)) None l [v] = Inr (True, Some buf, len) \<and>
           cstr_of buf = null_markers (t @ v)"
proof -
  let ?sql = "QM # t"
  let ?D = "length ?sql + sum_list (map length [v]) - count_list ?sql QM"
  have c: "count_list ?sql QM = 1" using assms(3) by (simp add: count_list_0_iff)
  have all: "take ?D ?sql = ?sql" using no_truncation [of ?sql "[v]"] c assms(5) by simp
  have tok: "strtok_all QM ?sql = [t]" using assms(2,3) by (simp add: strtok_all_token)
  have x: "interleave (strtok_all QM ?sql) [v] = t @ v" by (simp only: tok) simp
  have cs: "cstr_of (t @ v) = t @ v" using assms by (intro cstr_of_all) simp
  have "cstring ?sql" "contains ?sql [QM]" "count_list ?sql QM \<le> length [v]"
    using assms c by (simp_all add: contains_char)
  from DB_QUERY_format_result [OF this, of l] show ?thesis
    unfolding all x cs using tok not_Cons_self2 [of t "[]"] by fastforce
qed

theorem DB_QUERY_format_leading_mark_witness:
  "\<exists>buf len. DB_QUERY_format (Some ''? = a'') None 0 [''7''] = Inr (True, Some buf, len) \<and>
         cstr_of buf = null_markers '' = a7''"
  using DB_QUERY_format_leading_mark [of "'' = a''" "''7''" 0] by simp

text \<open>
  The classifier looks for \<open>SELECT\<close> anywhere first: no statement containing that word is ever
  reported as another type, whatever it does.
\<close>

theorem DB_QUERY_get_type_select_wins:
  "DB_QUERY_get_type (pre @ ''SELECT'' @ post) = DQT_SELECT"
  by (simp add: DB_QUERY_get_type_def contains_mid del: append_Cons)

end
