(* ===== verification/Db_Drivers.thy ===== *)
theory Db_Drivers
  imports Db_Query
begin

text \<open>
  \<open>src/db/postgresql.c\<close>, \<open>src/db/mysql.c\<close> and \<open>src/db/mariadb.c\<close> over their client libraries. A library
  is a record of functions on an arbitrary world \<open>'w\<close> (the servers and everything else outside the
  program); the connection it hands out is a number. A row callback is a function of the record on
  the world. The mutex of each driver is added around its execution in \<open>Db_Stack\<close>; log lines are left out.
\<close>

definition MAX_COLUMN_NAME_LEN :: nat where "MAX_COLUMN_NAME_LEN = 256"
definition MAX_COLUMNS :: nat where "MAX_COLUMNS = 64"

section \<open>Client libraries\<close>

record result_set =
  rs_names :: "string list"
  rs_tuples :: "string list list"

text \<open>
  \<open>Rows\<close> with no tuple is a command's success in PostgreSQL; \<open>No_result_set\<close> is the NULL of
  \<open>mysql_store_result\<close>.
\<close>

datatype reply = Query_failed | No_result_set | Rows result_set

record 'w client_library =
  lib_connect :: "string list \<Rightarrow> 'w \<Rightarrow> bool \<times> nat \<times> 'w"
  lib_query :: "nat \<Rightarrow> string \<Rightarrow> 'w \<Rightarrow> reply \<times> 'w"
  lib_close :: "nat \<Rightarrow> 'w \<Rightarrow> 'w"

text \<open>
  The union \<open>DB_CONN\<close> as one record: a driver uses the fields of its own structure. \<open>PG_CONNECTION\<close>,
  \<open>MYSQL_CONNECTION\<close>, \<open>MARIADB_CONNECTION\<close> and \<open>SQLITE_CONNECTION\<close> have the first three; \<open>cn_connection\<close> is
  the \<open>svchp\<close> and \<open>cn_env\<close> the \<open>envhp\<close> of Oracle.
\<close>

record DB_CONNECTION =
  cn_connection :: "nat option"
  cn_id :: "string option"
  cn_active :: bool
  cn_env :: "nat option"
  cn_server :: "nat option"
  cn_session :: "nat option"
  cn_uri :: "nat option"
  cn_database :: "nat option"
  cn_dbname :: "string option"

definition opened_connection :: "nat option \<Rightarrow> string option \<Rightarrow> bool \<Rightarrow> DB_CONNECTION" where
  "opened_connection h name active =
     \<lparr>cn_connection = h, cn_id = name, cn_active = active, cn_env = None, cn_server = None, cn_session = None,
      cn_uri = None, cn_database = None, cn_dbname = None\<rparr>"

lemma opened_connection_sel [simp]:
  "cn_connection (opened_connection h name active) = h" "cn_id (opened_connection h name active) = name"
  "cn_active (opened_connection h name active) = active"
  by (simp_all add: opened_connection_def)

type_synonym 'w qec = "DB_RECORD \<Rightarrow> 'w \<Rightarrow> 'w outcome"

section \<open>Records from result rows\<close>

text \<open>A value of length 0, NULL or empty, becomes the NULL pointer with size 0.\<close>

definition mk_field :: "string \<Rightarrow> string \<Rightarrow> DB_FIELD" where
  "mk_field name val =
     \<lparr>f_label = take MAX_COLUMN_NAME_LEN name,
      f_value = (if 0 < length val then Some val else None), f_size = length val\<rparr>"

definition mk_record :: "string list \<Rightarrow> string list \<Rightarrow> DB_RECORD" where
  "mk_record names tuple = \<lparr>r_fields = map2 mk_field names tuple\<rparr>"

definition mk_records :: "result_set \<Rightarrow> DB_RECORD list" where
  "mk_records rs = map (mk_record (rs_names rs)) (rs_tuples rs)"

text \<open>
  The label buffer has 256 bytes and \<open>strlcpy\<close> is given that as a length: a name of 256 characters or
  more writes past it.
\<close>

definition names_fit :: "string list \<Rightarrow> bool" where
  "names_fit names \<longleftrightarrow> (\<forall>n \<in> set names. length n < MAX_COLUMN_NAME_LEN)"

fun run_callback :: "'w qec \<Rightarrow> DB_RECORD list \<Rightarrow> 'w \<Rightarrow> 'w outcome" where
  "run_callback cb [] w = Inr w"
| "run_callback cb (r # rs) w = obind (cb r w) (run_callback cb rs)"

definition run_rows :: "'w qec option \<Rightarrow> result_set \<Rightarrow> 'w \<Rightarrow> 'w outcome" where
  "run_rows cb rs w = (case cb of Some f \<Rightarrow> run_callback f (mk_records rs) w | None \<Rightarrow> Inr w)"

section \<open>PostgreSQL\<close>

definition PG_disconnect :: "'w client_library \<Rightarrow> DB_CONNECTION option \<Rightarrow> 'w \<Rightarrow> DB_CONNECTION option \<times> 'w" where
  "PG_disconnect lib db_connection w =
     (case db_connection of
        None \<Rightarrow> (None, w)
      | Some c \<Rightarrow>
          (Some (c\<lparr>cn_connection := None, cn_id := None, cn_active := False\<rparr>),
           case cn_connection c of None \<Rightarrow> w | Some h \<Rightarrow> lib_close lib h w))"

text \<open>The handle is kept, and \<open>id\<close> released, when the server refuses the connection.\<close>

definition PG_connect ::
  "'w client_library \<Rightarrow> DB_CONNECTION \<Rightarrow> string \<Rightarrow> int \<Rightarrow> string \<Rightarrow> string \<Rightarrow> string \<Rightarrow>
   string option \<Rightarrow> string \<Rightarrow> 'w \<Rightarrow> bool \<times> DB_CONNECTION \<times> 'w" where
  "PG_connect lib db_connection host port dbname user password connection_string name w =
     (let conn_str =
        (case connection_string of
           Some fmt \<Rightarrow> snprintf_s 1024 fmt [dbname, host, show_int port, user, password]
         | None \<Rightarrow> snprintf_s 1024 ''dbname=%s host=%s port=%d user=%s password=%s''
                     [dbname, host, show_int port, user, password]);
        id_str = snprintf_s 1024 ''%s@%s[db=%s] (%s)'' [user, host, dbname, name];
        (ok, h, w) = lib_connect lib [conn_str] w
      in if ok
         then (True, db_connection\<lparr>cn_connection := Some h, cn_id := Some id_str, cn_active := True\<rparr>, w)
         else (False, db_connection\<lparr>cn_connection := Some h, cn_id := None, cn_active := False\<rparr>, w))"

text \<open>
  \<open>PG_exec\<close> as every caller uses it, without server-side parameters. The statement is sent as a C
  string; \<open>sql_length\<close> bytes of it are stored in the result. Callbacks run before the result is filled.
\<close>

definition PG_exec ::
  "'w client_library \<Rightarrow> DB_CONNECTION \<Rightarrow> char list \<Rightarrow> nat \<Rightarrow> DB_QUERY option \<Rightarrow> 'w qec option \<Rightarrow> 'w \<Rightarrow>
   (bool \<times> DB_QUERY option \<times> 'w) outcome" where
  "PG_exec lib db_connection sql sql_length dst_result query_exec_callback w =
     (let dst = map_option (\<lambda>q. q\<lparr>q_row_count := 0, q_field_count := 0, q_sql := Some (take sql_length sql)\<rparr>)
                  dst_result;
          (rep, w) = (case cn_connection db_connection of
                        Some h \<Rightarrow> lib_query lib h (cstr_of sql) w
                      | None \<Rightarrow> (Query_failed, w))
      in case rep of
           Rows rs \<Rightarrow>
             (let row_count = length (rs_tuples rs);
                  dst = map_option (\<lambda>q. q\<lparr>q_row_count := row_count\<rparr>) dst in
              if 0 < row_count
              then if names_fit (rs_names rs) \<or> (query_exec_callback = None \<and> dst = None)
                then obind (run_rows query_exec_callback rs w) (\<lambda>w. Inr (True,
                  map_option (\<lambda>q. q\<lparr>q_field_count := length (rs_names rs), q_records := mk_records rs\<rparr>) dst, w))
                else Inl Out_of_bounds
              else Inr (True, dst, w))
         | _ \<Rightarrow> Inr (False, dst, w))"

section \<open>MySQL and MariaDB\<close>

definition MYSQL_disconnect :: "'w client_library \<Rightarrow> DB_CONNECTION \<Rightarrow> 'w \<Rightarrow> DB_CONNECTION \<times> 'w" where
  "MYSQL_disconnect lib db_connection w =
     (db_connection\<lparr>cn_connection := None, cn_id := None\<rparr>,
      case cn_connection db_connection of None \<Rightarrow> w | Some h \<Rightarrow> lib_close lib h w)"

text \<open>The \<open>port\<close> and \<open>connection_string\<close> arguments are not used: \<open>mysql_real_connect\<close> gets port 0.\<close>

definition MYSQL_connect ::
  "'w client_library \<Rightarrow> DB_CONNECTION \<Rightarrow> string \<Rightarrow> int \<Rightarrow> string \<Rightarrow> string \<Rightarrow> string \<Rightarrow>
   string option \<Rightarrow> string \<Rightarrow> 'w \<Rightarrow> bool \<times> DB_CONNECTION \<times> 'w" where
  "MYSQL_connect lib db_connection host port dbname user password connection_string name w =
     (let id_str = snprintf_s 1024 ''%s@%s[db=%s] (%s)'' [user, host, dbname, name];
          (ok, h, w) = lib_connect lib [host, user, password, dbname, show_int 0] w
      in if ok
         then (True, db_connection\<lparr>cn_connection := Some h, cn_id := Some id_str, cn_active := True\<rparr>, w)
         else (False, db_connection\<lparr>cn_connection := Some h, cn_id := None, cn_active := False\<rparr>, w))"

text \<open>
  The whole \<open>sql_length\<close> bytes are sent. With a callback the column names go to an array of 64
  pointers. A second pass over the rows, when both a callback and a result are given, finds the
  cursor at the end and reads through NULL. A connection that was never opened is a success.
\<close>

definition MYSQL_exec ::
  "'w client_library \<Rightarrow> DB_CONNECTION \<Rightarrow> char list \<Rightarrow> nat \<Rightarrow> DB_QUERY option \<Rightarrow> 'w qec option \<Rightarrow> 'w \<Rightarrow>
   (bool \<times> DB_QUERY option \<times> 'w) outcome" where
  "MYSQL_exec lib db_connection sql sql_length dst_result query_exec_callback w =
     (let dst = map_option (\<lambda>q. q\<lparr>q_row_count := 0, q_field_count := 0, q_sql := Some (take sql_length sql)\<rparr>)
                  dst_result
      in case cn_connection db_connection of
           None \<Rightarrow> Inr (True, dst, w)
         | Some h \<Rightarrow>
             (case lib_query lib h (take sql_length sql) w of
                (Query_failed, w) \<Rightarrow> Inr (False, dst, w)
              | (No_result_set, w) \<Rightarrow> Inr (True, dst, w)
              | (Rows rs, w) \<Rightarrow>
                  (let row_count = length (rs_tuples rs);
                       field_count = length (rs_names rs);
                       dst = map_option (\<lambda>q. q\<lparr>q_field_count := field_count\<rparr>) dst in
                   if row_count = 0 then Inr (True, dst, w)
                   else if query_exec_callback \<noteq> None \<and> MAX_COLUMNS < field_count then Inl Out_of_bounds
                   else if query_exec_callback \<noteq> None \<and> dst \<noteq> None then Inl Null_pointer
                   else if query_exec_callback = None \<and> dst = None then Inr (True, dst, w)
                   else if \<not> names_fit (rs_names rs) then Inl Out_of_bounds
                   else obind (run_rows query_exec_callback rs w) (\<lambda>w. Inr (True,
                     map_option (\<lambda>q. q\<lparr>q_row_count := row_count, q_records := mk_records rs\<rparr>) dst, w)))))"

text \<open>\<open>mariadb.c\<close> is \<open>mysql.c\<close> with the names changed.\<close>

definition MARIADB_disconnect :: "'w client_library \<Rightarrow> DB_CONNECTION \<Rightarrow> 'w \<Rightarrow> DB_CONNECTION \<times> 'w" where
  "MARIADB_disconnect = MYSQL_disconnect"

definition MARIADB_connect ::
  "'w client_library \<Rightarrow> DB_CONNECTION \<Rightarrow> string \<Rightarrow> int \<Rightarrow> string \<Rightarrow> string \<Rightarrow> string \<Rightarrow>
   string option \<Rightarrow> string \<Rightarrow> 'w \<Rightarrow> bool \<times> DB_CONNECTION \<times> 'w" where
  "MARIADB_connect = MYSQL_connect"

definition MARIADB_exec ::
  "'w client_library \<Rightarrow> DB_CONNECTION \<Rightarrow> char list \<Rightarrow> nat \<Rightarrow> DB_QUERY option \<Rightarrow> 'w qec option \<Rightarrow> 'w \<Rightarrow>
   (bool \<times> DB_QUERY option \<times> 'w) outcome" where
  "MARIADB_exec = MYSQL_exec"

section \<open>The contract of a driver\<close>

text \<open>
  What the rest of the program relies on: a statement that is answered with rows gives one record for each row, in
  the result or to the callback, which is called on them in the order of the rows.
\<close>

locale row_driver =
  fixes exec :: "'w client_library \<Rightarrow> DB_CONNECTION \<Rightarrow> char list \<Rightarrow> nat \<Rightarrow> DB_QUERY option \<Rightarrow> 'w qec option \<Rightarrow> 'w \<Rightarrow>
      (bool \<times> DB_QUERY option \<times> 'w) outcome"
  assumes result_rows:
    "cstring sql \<Longrightarrow> cn_connection c = Some h \<Longrightarrow> lib_query lib h sql w = (Rows rs, v) \<Longrightarrow> rs_tuples rs \<noteq> [] \<Longrightarrow>
     names_fit (rs_names rs) \<Longrightarrow>
     exec lib c (sql @ [NUL]) (length sql) (Some q) None w =
       Inr (True, Some (q\<lparr>q_row_count := length (rs_tuples rs), q_field_count := length (rs_names rs),
                          q_records := mk_records rs, q_sql := Some sql\<rparr>), v)"
  and callback_rows:
    "cstring sql \<Longrightarrow> cn_connection c = Some h \<Longrightarrow> lib_query lib h sql w = (Rows rs, v) \<Longrightarrow> names_fit (rs_names rs) \<Longrightarrow>
     length (rs_names rs) \<le> MAX_COLUMNS \<Longrightarrow>
     exec lib c (sql @ [NUL]) (length sql) None (Some cb) w =
       obind (run_callback cb (mk_records rs) v) (\<lambda>v. Inr (True, None, v))"

lemma mk_records_length [simp]: "length (mk_records rs) = length (rs_tuples rs)"
  by (simp add: mk_records_def)

lemma mk_records_Nil [simp]: "mk_records rs = [] \<longleftrightarrow> rs_tuples rs = []"
  by (simp add: mk_records_def)

interpretation pg: row_driver PG_exec
  by unfold_locales (auto simp: PG_exec_def run_rows_def mk_records_def Let_def)

interpretation my: row_driver MYSQL_exec
  by unfold_locales (auto simp: MYSQL_exec_def run_rows_def mk_records_def Let_def)

interpretation maria: row_driver MARIADB_exec
  unfolding MARIADB_exec_def by (rule my.row_driver_axioms)

text \<open>The value of a cell as the program hands it on: an empty one is a null pointer.\<close>

definition cell_field :: "string \<Rightarrow> string \<Rightarrow> DB_FIELD" where
  "cell_field name cell = \<lparr>f_label = name, f_value = (if cell = [] then None else Some cell), f_size = length cell\<rparr>"

text \<open>The records of a reply, cell by cell.\<close>

definition row_records :: "result_set \<Rightarrow> DB_RECORD list \<Rightarrow> bool" where
  "row_records rs recs \<longleftrightarrow>
     length recs = length (rs_tuples rs) \<and>
     (\<forall>i < length recs. length (r_fields (recs ! i)) = length (rs_names rs) \<and>
        (\<forall>j < length (rs_names rs). r_fields (recs ! i) ! j = cell_field (rs_names rs ! j) (rs_tuples rs ! i ! j)))"

lemma mk_records_rows:
  assumes "names_fit (rs_names rs)" "\<forall>t \<in> set (rs_tuples rs). length t = length (rs_names rs)"
  shows "row_records rs (mk_records rs)"
proof -
  have "length (rs_names rs ! j) \<le> MAX_COLUMN_NAME_LEN" if "j < length (rs_names rs)" for j
    using assms(1) that nth_mem [OF that] by (auto simp: names_fit_def intro: less_imp_le)
  with assms(2) show ?thesis
    by (auto simp: row_records_def mk_records_def mk_record_def mk_field_def cell_field_def)
qed

text \<open>
  C27: the drivers deliver the rows: a statement answered with rows, as many values in each as there are columns,
  gives through PostgreSQL, MySQL and MariaDB exactly one record for each row, in order, with a field for each
  column that has its name, its value (an empty one as a null pointer) and its length; these records are the result,
  or what a callback is called on, one after the other. The names of the columns have less than 256 characters, and
  there are at most 64 columns.
\<close>

theorem drivers_deliver_rows:
  assumes "exec \<in> {PG_exec, MYSQL_exec, MARIADB_exec}" "cstring sql" "cn_connection c = Some h"
    "lib_query lib h sql w = (Rows rs, v)" "rs_tuples rs \<noteq> []"
    "\<forall>t \<in> set (rs_tuples rs). length t = length (rs_names rs)" "names_fit (rs_names rs)" "length (rs_names rs) \<le> MAX_COLUMNS"
  shows "\<exists>recs. row_records rs recs \<and>
    exec lib c (sql @ [NUL]) (length sql) (Some q) None w =
      Inr (True, Some (q\<lparr>q_row_count := length recs, q_field_count := length (rs_names rs), q_records := recs,
                         q_sql := Some sql\<rparr>), v) \<and>
    (\<forall>cb. exec lib c (sql @ [NUL]) (length sql) None (Some cb) w =
             obind (run_callback cb recs v) (\<lambda>v. Inr (True, None, v)))"
  using assms(1) mk_records_rows [OF assms(7,6)] pg.result_rows [OF assms(2-5,7)] pg.callback_rows [OF assms(2-4,7,8)]
    my.result_rows [OF assms(2-5,7)] my.callback_rows [OF assms(2-4,7,8)]
    maria.result_rows [OF assms(2-5,7)] maria.callback_rows [OF assms(2-4,7,8)]
  by (intro exI [of _ "mk_records rs"]) auto

definition demo_library :: "reply \<Rightarrow> string list client_library" where
  "demo_library rep = \<lparr>lib_connect = (\<lambda>args w. (True, 7, w)), lib_query = (\<lambda>h sql w. (rep, w @ [sql])),
                       lib_close = (\<lambda>h w. w)\<rparr>"

theorem drivers_deliver_rows_witness:
  "\<exists>recs. row_records \<lparr>rs_names = [''id'', ''v''], rs_tuples = [[''1'', ''x''], [''2'', []]]\<rparr> recs \<and>
     MYSQL_exec (demo_library (Rows \<lparr>rs_names = [''id'', ''v''], rs_tuples = [[''1'', ''x''], [''2'', []]]\<rparr>))
       (opened_connection (Some 7) None True) (''SELECT'' @ [NUL]) (length ''SELECT'') None (Some (\<lambda>r w. Inr (w @ [''row'']))) [] =
     obind (run_callback (\<lambda>r w. Inr (w @ [''row''])) recs [''SELECT'']) (\<lambda>v. Inr (True, None, v))"
proof -
  let ?rs = "\<lparr>rs_names = [''id'', ''v''], rs_tuples = [[''1'', ''x''], [''2'', []]]\<rparr>"
  have "lib_query (demo_library (Rows ?rs)) 7 ''SELECT'' [] = (Rows ?rs, [''SELECT''])" by (simp add: demo_library_def)
  from drivers_deliver_rows [OF _ _ _ this, of MYSQL_exec "opened_connection (Some 7) None True"] show ?thesis
    by (simp add: names_fit_def MAX_COLUMNS_def MAX_COLUMN_NAME_LEN_def cstring_def) blast
qed

end
