(* ===== verification/Db_Stepping.thy ===== *)
theory Db_Stepping
  imports Db_Drivers
begin

text \<open>
  \<open>src/db/sqlite.c\<close> and \<open>src/db/odbc.c\<close>, the drivers that step through a prepared statement row by row. Here
  the mutex of the driver matters and is part of the state: \<open>True\<close> beside the world means that it is
  held. A call that waits for a held mutex, or steps forever, never returns: \<open>None\<close>. A row callback runs
  with the mutex released, since it may call the driver again.
\<close>

type_synonym 'w guarded = "bool \<times> 'w"

type_synonym 'w guarded_exec =
  "char list \<Rightarrow> nat \<Rightarrow> DB_QUERY option \<Rightarrow> 'w guarded qec option \<Rightarrow> 'w guarded \<Rightarrow>
   (bool \<times> DB_QUERY option \<times> 'w guarded) outcome option"

text \<open>What both store in the result before the statement is prepared, and when the rows are complete.\<close>

definition start_result :: "char list \<Rightarrow> nat \<Rightarrow> DB_QUERY option \<Rightarrow> DB_QUERY option" where
  "start_result sql n dst =
     map_option (\<lambda>q. q\<lparr>q_row_count := 0, q_field_count := 0, q_sql := Some (take n sql)\<rparr>) dst"

definition store_rows :: "DB_RECORD list \<Rightarrow> DB_QUERY \<Rightarrow> DB_QUERY" where
  "store_rows recs q = (if recs = [] then q else q\<lparr>q_records := recs\<rparr>)"

definition close_result :: "DB_RECORD list \<Rightarrow> nat \<Rightarrow> DB_QUERY option \<Rightarrow> DB_QUERY option" where
  "close_result recs width dst =
     map_option (\<lambda>q. (store_rows recs q)\<lparr>q_row_count := length recs, q_field_count := width\<rparr>) dst"

section \<open>SQLite\<close>

text \<open>A row comes with the names of its columns. A step that fails leaves no row to read.\<close>

datatype sqlite_step = Step_done | Step_row "(string \<times> string) list" | Step_error

record 'w sqlite_library =
  sq_open :: "string \<Rightarrow> 'w \<Rightarrow> bool \<times> nat \<times> 'w"
  sq_close :: "nat \<Rightarrow> 'w \<Rightarrow> 'w"
  sq_prepare :: "nat \<Rightarrow> string \<Rightarrow> 'w \<Rightarrow> nat option \<times> 'w"
  sq_step :: "nat \<Rightarrow> 'w \<Rightarrow> sqlite_step \<times> 'w"
  sq_finalize :: "nat \<Rightarrow> 'w \<Rightarrow> 'w"

definition SQLITE_disconnect :: "'w sqlite_library \<Rightarrow> DB_CONNECTION option \<Rightarrow> 'w \<Rightarrow> DB_CONNECTION option \<times> 'w" where
  "SQLITE_disconnect lib db_connection w =
     (case db_connection of
        None \<Rightarrow> (None, w)
      | Some c \<Rightarrow>
          (Some (c\<lparr>cn_connection := None, cn_id := None, cn_active := False\<rparr>),
           case cn_connection c of None \<Rightarrow> w | Some h \<Rightarrow> sq_close lib h w))"

text \<open>A failed \<open>sqlite3_open\<close> is undone and then reported as a success all the same.\<close>

definition SQLITE_connect ::
  "'w sqlite_library \<Rightarrow> DB_CONNECTION \<Rightarrow> string \<Rightarrow> string \<Rightarrow> 'w \<Rightarrow> bool \<times> DB_CONNECTION \<times> 'w" where
  "SQLITE_connect lib db_connection filename name w =
     (let id_str = snprintf_s 1024 ''[db=%s] (%s)'' [filename, name];
          (ok, h, w) = sq_open lib filename w
      in if ok then (True, db_connection\<lparr>cn_connection := Some h, cn_id := Some id_str, cn_active := True\<rparr>, w)
         else (True, db_connection\<lparr>cn_connection := Some h, cn_id := None, cn_active := True\<rparr>, sq_close lib h w))"

definition sqlite_field :: "string \<times> string \<Rightarrow> DB_FIELD" where
  "sqlite_field c = \<lparr>f_label = take MAX_COLUMN_NAME_LEN (fst c), f_value = Some (snd c), f_size = length (snd c)\<rparr>"

text \<open>
  The record of a callback: the loop counts \<open>j\<close> and writes field \<open>i\<close>, which stays 0. The other fields are
  what \<open>malloc\<close> returned, \<open>mem\<close>.
\<close>

definition sqlite_callback_record :: "(nat \<Rightarrow> DB_FIELD) \<Rightarrow> (string \<times> string) list \<Rightarrow> DB_RECORD" where
  "sqlite_callback_record mem row =
     \<lparr>r_fields = (case row of [] \<Rightarrow> [] | c # cs \<Rightarrow> sqlite_field c # map mem [1..<length row])\<rparr>"

text \<open>
  The loop ends at \<open>SQLITE_DONE\<close> only. After an error it reads columns of no row; with nothing to read
  it steps again.
\<close>

partial_function (option) sqlite_rows ::
  "'w sqlite_library \<Rightarrow> (nat \<Rightarrow> DB_FIELD) \<Rightarrow> nat \<Rightarrow> bool \<Rightarrow> 'w guarded qec option \<Rightarrow> DB_RECORD list \<Rightarrow> nat \<Rightarrow> 'w guarded \<Rightarrow>
   (DB_RECORD list \<times> nat \<times> 'w guarded) outcome option" where
  "sqlite_rows lib mem stmt wanted cb recs width s =
     (case sq_step lib stmt (snd s) of
        (Step_done, w) \<Rightarrow> Some (Inr (recs, width, fst s, w))
      | (Step_error, w) \<Rightarrow>
          if cb = None \<and> \<not> wanted then sqlite_rows lib mem stmt wanted cb recs width (fst s, w)
          else Some (Inl Uninitialised)
      | (Step_row row, w) \<Rightarrow>
          if (cb \<noteq> None \<or> wanted) \<and> \<not> names_fit (map fst row) then Some (Inl Out_of_bounds)
          else
            (case (case cb of None \<Rightarrow> Inr (fst s, w) | Some f \<Rightarrow> f (sqlite_callback_record mem row) (False, w)) of
               Inl e \<Rightarrow> Some (Inl e)
             | Inr s \<Rightarrow>
                 sqlite_rows lib mem stmt wanted cb
                   (if wanted then recs @ [\<lparr>r_fields = map sqlite_field row\<rparr>] else recs) (length row) s))"

text \<open>A statement that cannot be prepared returns with the mutex held.\<close>

definition SQLITE_exec :: "'w sqlite_library \<Rightarrow> (nat \<Rightarrow> DB_FIELD) \<Rightarrow> DB_CONNECTION \<Rightarrow> 'w guarded_exec" where
  "SQLITE_exec lib mem db_connection sql sql_length dst_result cb s =
     (if fst s then None
      else
        (let dst = start_result sql sql_length dst_result; w = snd s in
         case cn_connection db_connection of
           None \<Rightarrow> Some (Inr (True, dst, False, w))
         | Some h \<Rightarrow>
             (case sq_prepare lib h (cstr_of (take sql_length sql)) w of
                (None, w) \<Rightarrow> Some (Inr (False, dst, True, w))
              | (Some stmt, w) \<Rightarrow>
                  if DB_QUERY_get_type (cstr_of sql) = DQT_SELECT
                  then map_option (\<lambda>r. obind r (\<lambda>(recs, width, _, w).
                         Inr (True, close_result recs width dst, False, sq_finalize lib stmt w)))
                         (sqlite_rows lib mem stmt (dst \<noteq> None) cb [] 0 (True, w))
                  else
                    (case sq_step lib stmt w of
                       (step, w) \<Rightarrow> Some (Inr (step = Step_done, dst, False, sq_finalize lib stmt w))))))"

section \<open>ODBC\<close>

text \<open>A described column: its name, whether its type is \<open>SQL_TYPE_TIMESTAMP\<close>, and its size.\<close>

record odbc_column =
  oc_name :: string
  oc_timestamp :: bool
  oc_size :: nat

datatype odbc_fetch = Fetch_no_data | Fetch_error | Fetch_row "string option list"

record 'w odbc_library =
  od_alloc_env :: "'w \<Rightarrow> nat option \<times> 'w"
  od_set_version :: "nat \<Rightarrow> 'w \<Rightarrow> bool \<times> 'w"
  od_alloc_dbc :: "nat \<Rightarrow> 'w \<Rightarrow> nat option \<times> 'w"
  od_driver_connect :: "nat \<Rightarrow> string \<Rightarrow> 'w \<Rightarrow> bool \<times> 'w"
  od_disconnect :: "nat \<Rightarrow> 'w \<Rightarrow> 'w"
  od_free :: "nat \<Rightarrow> 'w \<Rightarrow> 'w"
  od_alloc_stmt :: "nat \<Rightarrow> 'w \<Rightarrow> nat option \<times> 'w"
  od_prepare :: "nat \<Rightarrow> string \<Rightarrow> 'w \<Rightarrow> bool \<times> 'w"
  od_num_cols :: "nat \<Rightarrow> 'w \<Rightarrow> nat option \<times> 'w"
  od_describe :: "nat \<Rightarrow> nat \<Rightarrow> 'w \<Rightarrow> odbc_column option \<times> 'w"
  od_bind :: "nat \<Rightarrow> nat \<Rightarrow> nat \<Rightarrow> 'w \<Rightarrow> bool \<times> 'w"
  od_execute :: "nat \<Rightarrow> 'w \<Rightarrow> bool \<times> 'w"
  od_fetch :: "nat \<Rightarrow> 'w \<Rightarrow> odbc_fetch \<times> 'w"

definition ODBC_disconnect :: "'w odbc_library \<Rightarrow> DB_CONNECTION \<Rightarrow> 'w \<Rightarrow> DB_CONNECTION \<times> 'w" where
  "ODBC_disconnect lib c w =
     (let w = (case cn_connection c of None \<Rightarrow> w | Some h \<Rightarrow> od_free lib h (od_disconnect lib h w));
          w = (case cn_env c of None \<Rightarrow> w | Some e \<Rightarrow> od_free lib e w)
      in (c\<lparr>cn_connection := None, cn_id := None\<rparr>, w))"

definition ODBC_connect ::
  "'w odbc_library \<Rightarrow> DB_CONNECTION \<Rightarrow> string option \<Rightarrow> string \<Rightarrow> 'w \<Rightarrow> bool \<times> DB_CONNECTION \<times> 'w" where
  "ODBC_connect lib c connection_string name w =
     (case od_alloc_env lib w of
        (None, w) \<Rightarrow> (False, c, w)
      | (Some e, w) \<Rightarrow>
          (let c = c\<lparr>cn_env := Some e\<rparr> in
           case od_set_version lib e w of
             (False, w) \<Rightarrow> (False, c, w)
           | (True, w) \<Rightarrow>
               (case od_alloc_dbc lib e w of
                  (None, w) \<Rightarrow> (False, c, w)
                | (Some h, w) \<Rightarrow>
                    (let c = c\<lparr>cn_connection := Some h\<rparr> in
                     case connection_string of
                       None \<Rightarrow> (False, c, w)
                     | Some text \<Rightarrow>
                         (let c = c\<lparr>cn_id := Some (snprintf_s 1024 ''%s (%s)'' [text, name])\<rparr> in
                          case od_driver_connect lib h text w of
                            (False, w) \<Rightarrow> (False, c, w)
                          | (True, w) \<Rightarrow> (True, c\<lparr>cn_active := True\<rparr>, w))))))"

text \<open>
  One column after the other is described and bound. The name is cut to its buffer by the library.
\<close>

fun odbc_columns :: "'w odbc_library \<Rightarrow> nat \<Rightarrow> nat list \<Rightarrow> 'w \<Rightarrow> odbc_column list option \<times> 'w" where
  "odbc_columns lib stmt [] w = (Some [], w)"
| "odbc_columns lib stmt (i # is) w =
     (case od_describe lib stmt (i + 1) w of
        (None, w) \<Rightarrow> (None, w)
      | (Some c, w) \<Rightarrow>
          (case od_bind lib stmt (i + 1) (oc_size c) w of
             (False, w) \<Rightarrow> (None, w)
           | (True, w) \<Rightarrow>
               (case odbc_columns lib stmt is w of
                  (None, w) \<Rightarrow> (None, w)
                | (Some cs, w) \<Rightarrow> (Some (c\<lparr>oc_name := take (MAX_COLUMN_NAME_LEN - 1) (oc_name c)\<rparr> # cs), w))))"

text \<open>
  The length given when a column is bound is its size, which for the library includes the terminator: of
  a value that fills its column all but the last character arrive, while the length that is reported is
  the whole one. The copy reads that many bytes, and one more, of a buffer with one byte more than the
  size. The text of a time stamp is trimmed, and its length counted as one less.
\<close>

definition odbc_field :: "odbc_column \<Rightarrow> string option \<Rightarrow> DB_FIELD outcome" where
  "odbc_field col val =
     (case val of
        None \<Rightarrow> Inr \<lparr>f_label = oc_name col, f_value = None, f_size = 0\<rparr>
      | Some v \<Rightarrow>
          (let stored = take (oc_size col - 1) v in
           if oc_size col < length v then Inl Out_of_bounds
           else if oc_timestamp col
           then (if v = [] then Inl Out_of_bounds
                 else obind (rtrim stored (CHR '' ''))
                   (\<lambda>t. Inr \<lparr>f_label = oc_name col, f_value = Some t, f_size = length v - 1\<rparr>))
           else Inr \<lparr>f_label = oc_name col, f_value = Some stored, f_size = length v\<rparr>))"

fun odbc_fields :: "odbc_column list \<Rightarrow> string option list \<Rightarrow> DB_FIELD list outcome" where
  "odbc_fields (c # cs) (v # vs) = obind (odbc_field c v) (\<lambda>f. obind (odbc_fields cs vs) (\<lambda>fs. Inr (f # fs)))"
| "odbc_fields cs vs = Inr []"

text \<open>A fetch that fails ends the call at once: the statement is not released, the mutex as it is.\<close>

partial_function (option) odbc_rows ::
  "'w odbc_library \<Rightarrow> nat \<Rightarrow> odbc_column list \<Rightarrow> bool \<Rightarrow> 'w guarded qec option \<Rightarrow> DB_RECORD list \<Rightarrow> 'w guarded \<Rightarrow>
   (bool \<times> DB_RECORD list \<times> 'w guarded) outcome option" where
  "odbc_rows lib stmt cols wanted cb recs s =
     (case od_fetch lib stmt (snd s) of
        (Fetch_no_data, w) \<Rightarrow> Some (Inr (True, recs, fst s, w))
      | (Fetch_error, w) \<Rightarrow> Some (Inr (False, recs, fst s, w))
      | (Fetch_row vals, w) \<Rightarrow>
          if cb = None \<and> \<not> wanted then odbc_rows lib stmt cols wanted cb recs (fst s, w)
          else
            (case odbc_fields cols vals of
               Inl e \<Rightarrow> Some (Inl e)
             | Inr fs \<Rightarrow>
                 (case (case cb of None \<Rightarrow> Inr (fst s, w) | Some f \<Rightarrow> f \<lparr>r_fields = fs\<rparr> (False, w)) of
                    Inl e \<Rightarrow> Some (Inl e)
                  | Inr s \<Rightarrow> odbc_rows lib stmt cols wanted cb (if wanted then recs @ [\<lparr>r_fields = fs\<rparr>] else recs) s)))"

text \<open>The columns of a query: \<open>Inl True\<close> is a failure that has released the mutex, \<open>Inl False\<close> one that has not.\<close>

definition odbc_bind_columns ::
  "'w odbc_library \<Rightarrow> nat \<Rightarrow> 'w \<Rightarrow> ((bool + odbc_column list) \<times> 'w) outcome" where
  "odbc_bind_columns lib stmt w =
     (case od_num_cols lib stmt w of
        (None, w) \<Rightarrow> Inr (Inl True, od_free lib stmt w)
      | (Some n, w) \<Rightarrow>
          (case odbc_columns lib stmt [0..<min n MAX_COLUMNS] w of
             (None, w) \<Rightarrow> Inr (Inl False, w)
           | (Some cols, w) \<Rightarrow> if MAX_COLUMNS < n then Inl Out_of_bounds else Inr (Inr cols, w)))"

definition odbc_run ::
  "'w odbc_library \<Rightarrow> nat \<Rightarrow> odbc_column list \<Rightarrow> DB_QUERY option \<Rightarrow> 'w guarded qec option \<Rightarrow> 'w \<Rightarrow>
   (bool \<times> DB_QUERY option \<times> 'w guarded) outcome option" where
  "odbc_run lib stmt cols dst cb w =
     (case od_execute lib stmt w of
        (False, w) \<Rightarrow> Some (Inr (False, dst, False, od_free lib stmt w))
      | (True, w) \<Rightarrow>
          if cols = [] then Some (Inr (True, dst, False, od_free lib stmt w))
          else
            map_option (\<lambda>r. obind r (\<lambda>(ok, recs, m, w).
                if ok then Inr (True, close_result recs (length cols) dst, False, od_free lib stmt w)
                else Inr (False, map_option (store_rows recs) dst, m, w)))
              (odbc_rows lib stmt cols (dst \<noteq> None) cb [] (True, w)))"

definition ODBC_exec :: "'w odbc_library \<Rightarrow> DB_CONNECTION \<Rightarrow> 'w guarded_exec" where
  "ODBC_exec lib db_connection sql sql_length dst_result cb s =
     (if \<not> cn_active db_connection \<or> cn_id db_connection = None then Some (Inr (False, dst_result, s))
      else if fst s then None
      else
        (let dst = start_result sql sql_length dst_result; w = snd s in
         case cn_connection db_connection of
           None \<Rightarrow> Some (Inr (True, dst, False, w))
         | Some h \<Rightarrow>
             (case od_alloc_stmt lib h w of
                (None, w) \<Rightarrow> Some (Inr (False, dst, True, w))
              | (Some stmt, w) \<Rightarrow>
                  (case od_prepare lib stmt (take sql_length sql) w of
                     (False, w) \<Rightarrow> Some (Inr (False, dst, True, w))
                   | (True, w) \<Rightarrow>
                       if DB_QUERY_get_type (cstr_of sql) \<noteq> DQT_SELECT then odbc_run lib stmt [] dst cb w
                       else
                         (case odbc_bind_columns lib stmt w of
                            Inl e \<Rightarrow> Some (Inl e)
                          | Inr (Inl released, w) \<Rightarrow> Some (Inr (False, dst, \<not> released, w))
                          | Inr (Inr cols, w) \<Rightarrow> odbc_run lib stmt cols dst cb w)))))"

section \<open>The mutex between calls\<close>

text \<open>
  What a driver with a mutex promises its callers: a call on a held mutex waits, and a call that succeeds
  has released it. A statement that returns with the mutex held is then the last one of the program that
  returns.
\<close>

fun exec_all :: "'w guarded_exec \<Rightarrow> string list \<Rightarrow> 'w guarded \<Rightarrow> (bool list \<times> 'w guarded) outcome option" where
  "exec_all exec [] s = Some (Inr ([], s))"
| "exec_all exec (sql # sqls) s =
     (case exec sql (length sql) None None s of
        None \<Rightarrow> None
      | Some (Inl e) \<Rightarrow> Some (Inl e)
      | Some (Inr (ok, _, s)) \<Rightarrow>
          map_option (\<lambda>r. obind r (\<lambda>(oks, s). Inr (ok # oks, s))) (exec_all exec sqls s))"

locale guarded_driver =
  fixes exec :: "'w guarded_exec" and active :: bool
  assumes waits: "active \<Longrightarrow> exec sql n dst cb (True, w) = None"
    and releases: "active \<Longrightarrow> exec sql n dst cb (False, w) = Some (Inr (True, dst', m, w')) \<Longrightarrow> \<not> m"
begin

lemma success_releases:
  assumes active
  shows "exec_all exec sqls (m, w) = Some (Inr (oks, m', w')) \<Longrightarrow> sqls \<noteq> [] \<Longrightarrow> last oks \<Longrightarrow> \<not> m'"
proof (induction sqls arbitrary: m w oks)
  case (Cons sql sqls)
  from Cons.prems(1) obtain ok d m1 w1 rest where
    e: "exec sql (length sql) None None (m, w) = Some (Inr (ok, d, m1, w1))"
    and r: "exec_all exec sqls (m1, w1) = Some (Inr (rest, m', w'))" "oks = ok # rest"
    by (auto split: option.splits sum.splits)
  from e have m: "\<not> m" using waits [OF assms] by (cases m) auto
  show ?case
  proof (cases sqls)
    case Nil
    with r e m Cons.prems(3) show ?thesis by (auto dest: releases [OF assms])
  next
    case (Cons a b)
    from r(1) Cons have "rest \<noteq> []" by (auto split: option.splits sum.splits)
    with Cons.IH [OF r(1)] Cons Cons.prems(3) r(2) show ?thesis by simp
  qed
qed simp

lemma held_blocks: "active \<Longrightarrow> exec sql n dst cb s = Some (Inr (ok, dst', True, w')) \<Longrightarrow> sqls \<noteq> [] \<Longrightarrow> exec_all exec sqls (True, w') = None"
  by (cases sqls) (simp_all add: waits)

end

interpretation sqlite: guarded_driver "SQLITE_exec lib mem c" True for lib mem c
proof unfold_locales
  show "SQLITE_exec lib mem c sql n dst cb (True, w) = None" for sql n dst cb w
    by (simp add: SQLITE_exec_def)
  show "SQLITE_exec lib mem c sql n dst cb (False, w) = Some (Inr (True, dst', m, w')) \<Longrightarrow> \<not> m" for sql n dst cb w dst' m w'
    by (auto simp: SQLITE_exec_def Let_def split: option.splits prod.splits if_splits)
qed

text \<open>An inactive ODBC connection returns before the mutex.\<close>

definition odbc_active :: "DB_CONNECTION \<Rightarrow> bool" where
  "odbc_active c \<longleftrightarrow> cn_active c \<and> cn_id c \<noteq> None"

lemma odbc_run_releases: "odbc_run lib stmt cols dst cb w = Some (Inr (True, dst', m, w')) \<Longrightarrow> \<not> m"
  by (auto simp: odbc_run_def split: option.splits prod.splits if_splits bool.splits)

interpretation odbc: guarded_driver "ODBC_exec lib c" "odbc_active c" for lib c
proof unfold_locales
  assume active: "odbc_active c"
  show "ODBC_exec lib c sql n dst cb (True, w) = None" for sql n dst cb w
    using active by (simp add: ODBC_exec_def odbc_active_def)
  show "ODBC_exec lib c sql n dst cb (False, w) = Some (Inr (True, dst', m, w')) \<Longrightarrow> \<not> m" for sql n dst cb w dst' m w'
    using active
    by (auto simp: ODBC_exec_def odbc_active_def Let_def split: option.splits prod.splits if_splits bool.splits sum.splits
        dest: odbc_run_releases)
qed

text \<open>
  A bad statement stops SQLite: a statement that cannot be prepared is reported as failed with the mutex
  of the driver still held, so that no sequence of further statements, on any connection, ever returns.
\<close>

theorem failed_prepare_blocks_sqlite:
  assumes "cn_connection c = Some h" "sq_prepare lib h (cstr_of (take n sql)) w = (None, w')" "sqls \<noteq> []"
  shows "SQLITE_exec lib mem c sql n dst cb (False, w) = Some (Inr (False, start_result sql n dst, True, w')) \<and>
         exec_all (SQLITE_exec lib mem d) sqls (True, w') = None"
proof
  show "SQLITE_exec lib mem c sql n dst cb (False, w) = Some (Inr (False, start_result sql n dst, True, w'))"
    using assms(1,2) by (simp add: SQLITE_exec_def Let_def)
  show "exec_all (SQLITE_exec lib mem d) sqls (True, w') = None"
    using assms(3) by (cases sqls) (simp_all add: sqlite.waits)
qed

text \<open>The same for ODBC, and for every active connection.\<close>

theorem failed_prepare_blocks_odbc:
  assumes "odbc_active c" "cn_connection c = Some h" "od_alloc_stmt lib h w = (Some stmt, w1)"
    "od_prepare lib stmt (take n sql) w1 = (False, w')" "odbc_active d" "sqls \<noteq> []"
  shows "ODBC_exec lib c sql n dst cb (False, w) = Some (Inr (False, start_result sql n dst, True, w')) \<and>
         exec_all (ODBC_exec lib d) sqls (True, w') = None"
proof
  show "ODBC_exec lib c sql n dst cb (False, w) = Some (Inr (False, start_result sql n dst, True, w'))"
    using assms(1-4) by (simp add: ODBC_exec_def Let_def odbc_active_def)
  show "exec_all (ODBC_exec lib d) sqls (True, w') = None"
    using assms(5,6) by (cases sqls) (simp_all add: odbc.waits)
qed

section \<open>The rows of a query\<close>

fun sqlite_delivers :: "'w sqlite_library \<Rightarrow> nat \<Rightarrow> (string \<times> string) list list \<Rightarrow> 'w \<Rightarrow> 'w \<Rightarrow> bool" where
  "sqlite_delivers lib stmt [] w w' \<longleftrightarrow> sq_step lib stmt w = (Step_done, w')"
| "sqlite_delivers lib stmt (r # rs) w w' \<longleftrightarrow>
     (\<exists>v. sq_step lib stmt w = (Step_row r, v) \<and> sqlite_delivers lib stmt rs v w')"

definition sqlite_record :: "(string \<times> string) list \<Rightarrow> DB_RECORD" where
  "sqlite_record row = \<lparr>r_fields = map sqlite_field row\<rparr>"

lemma sqlite_rows_all:
  assumes "\<forall>r \<in> set rows. names_fit (map fst r)"
  shows "sqlite_delivers lib stmt rows w w' \<Longrightarrow>
    sqlite_rows lib mem stmt True None recs width (m, w) =
      Some (Inr (recs @ map sqlite_record rows, (if rows = [] then width else length (last rows)), m, w'))"
  using assms
proof (induction rows arbitrary: w recs width)
  case Nil
  then show ?case by (subst sqlite_rows.simps) simp
next
  case (Cons r rows)
  then obtain v where v: "sq_step lib stmt w = (Step_row r, v)" "sqlite_delivers lib stmt rows v w'" by auto
  from Cons.IH [OF v(2)] Cons.prems(2) v(1) show ?case
    by (subst sqlite_rows.simps) (simp add: sqlite_record_def)
qed

text \<open>
  SQLite returns every row: a query whose rows are delivered to the end is answered with one record per
  row, in order, with the name, the value and the length of every column, and the mutex is released.
\<close>

theorem sqlite_returns_every_row:
  assumes "cn_connection c = Some h" "sq_prepare lib h (cstr_of (take n sql)) w = (Some stmt, v)"
    "DB_QUERY_get_type (cstr_of sql) = DQT_SELECT" "sqlite_delivers lib stmt rows v w'"
    "\<forall>r \<in> set rows. names_fit (map fst r)"
  shows "SQLITE_exec lib mem c sql n (Some q) None (False, w) =
    Some (Inr (True, close_result (map sqlite_record rows) (if rows = [] then 0 else length (last rows))
                 (start_result sql n (Some q)), False, sq_finalize lib stmt w'))"
proof -
  have "start_result sql n (Some q) \<noteq> None" by (simp add: start_result_def)
  with assms(1-3) sqlite_rows_all [OF assms(5,4), of mem "[]" 0 True] show ?thesis
    by (simp add: SQLITE_exec_def Let_def)
qed

text \<open>A step that keeps failing, with nothing to store, is repeated forever.\<close>

theorem sqlite_error_never_ends:
  assumes "\<And>w. fst (sq_step lib stmt w) = Step_error"
  shows "sqlite_rows lib mem stmt False None recs width s = None"
proof (rule ccontr)
  assume "sqlite_rows lib mem stmt False None recs width s \<noteq> None"
  then obtain y where y: "sqlite_rows lib mem stmt False None recs width s = Some y" by blast
  have "lib = lib \<longrightarrow> stmt = stmt \<longrightarrow> \<not> False \<longrightarrow> (None :: 'a guarded qec option) = None \<longrightarrow> False"
  proof (rule sqlite_rows.raw_induct [where P = "\<lambda>l mem' st wanted cb rc wd s' y'.
      l = lib \<longrightarrow> st = stmt \<longrightarrow> \<not> wanted \<longrightarrow> cb = None \<longrightarrow> False", OF _ y], goal_cases)
    case (1 rows l mem' st wanted cb rc wd s' y')
    obtain u where u: "sq_step lib stmt (snd s') = (Step_error, u)"
      using assms [of "snd s'"] by (cases "sq_step lib stmt (snd s')") auto
    show ?case
    proof (intro impI)
      assume here: "l = lib" "st = stmt" "\<not> wanted" "cb = None"
      with 1(2) u have "rows l mem' st wanted cb rc wd (fst s', u) = Some y'" by simp
      from 1(1) [OF this] here show False by blast
    qed
  qed
  then show False by simp
qed

text \<open>
  What a callback sees of a row of SQLite: the first column. The other fields of the record are the
  memory that \<open>malloc\<close> returned, and a callback that fails on them ends the query with its fault.
\<close>

theorem sqlite_callback_sees_one_column:
  assumes "cn_connection c = Some h" "sq_prepare lib h (cstr_of (take n sql)) w = (Some stmt, v)"
    "DB_QUERY_get_type (cstr_of sql) = DQT_SELECT" "sq_step lib stmt v = (Step_row (col # cols), u)"
    "names_fit (map fst (col # cols))"
    "\<And>rec m. r_fields rec = sqlite_field col # map mem [1..<length (col # cols)] \<Longrightarrow> cb rec (m, u) = Inl e"
  shows "SQLITE_exec lib mem c sql n dst (Some cb) (False, w) = Some (Inl e)"
proof -
  have "cb (sqlite_callback_record mem (col # cols)) (False, u) = Inl e"
    by (rule assms(6)) (simp add: sqlite_callback_record_def)
  with assms(4,5) have "sqlite_rows lib mem stmt x (Some cb) [] 0 (True, v) = Some (Inl e)" for x
    by (subst sqlite_rows.simps) simp
  with assms(1-3) show ?thesis by (simp add: SQLITE_exec_def Let_def)
qed

fun odbc_delivers :: "'w odbc_library \<Rightarrow> nat \<Rightarrow> string option list list \<Rightarrow> 'w \<Rightarrow> 'w \<Rightarrow> bool" where
  "odbc_delivers lib stmt [] w w' \<longleftrightarrow> od_fetch lib stmt w = (Fetch_no_data, w')"
| "odbc_delivers lib stmt (r # rs) w w' \<longleftrightarrow>
     (\<exists>v. od_fetch lib stmt w = (Fetch_row r, v) \<and> odbc_delivers lib stmt rs v w')"

text \<open>
  What is stored of a value that is at most as long as its column is wide: a null as it is; of a value of the full
  width the last character is missing; of a time stamp also the blanks at its end, and its length is counted as one less.
\<close>

definition stored_text :: "odbc_column \<Rightarrow> string \<Rightarrow> string" where
  "stored_text col v = (if length v = oc_size col then butlast v else v)"

definition trimmed :: "string \<Rightarrow> string" where
  "trimmed t = rev (dropWhile (\<lambda>c. c = CHR '' '') (rev t))"

definition stored_value :: "odbc_column \<Rightarrow> string option \<Rightarrow> DB_FIELD" where
  "stored_value col val =
     (case val of
        None \<Rightarrow> \<lparr>f_label = oc_name col, f_value = None, f_size = 0\<rparr>
      | Some v \<Rightarrow>
          if oc_timestamp col
          then \<lparr>f_label = oc_name col, f_value = Some (trimmed (stored_text col v)), f_size = length v - 1\<rparr>
          else \<lparr>f_label = oc_name col, f_value = Some (stored_text col v), f_size = length v\<rparr>)"

text \<open>No value is longer than its column, and of a time stamp something other than blanks is stored.\<close>

definition value_fits :: "odbc_column \<Rightarrow> string option \<Rightarrow> bool" where
  "value_fits col val \<longleftrightarrow>
     (\<forall>v. val = Some v \<longrightarrow> length v \<le> oc_size col \<and> (oc_timestamp col \<longrightarrow> (\<exists>c \<in> set (stored_text col v). c \<noteq> CHR '' '')))"

lemma odbc_field_stored:
  assumes "value_fits col val"
  shows "odbc_field col val = Inr (stored_value col val)"
proof (cases val)
  case None
  then show ?thesis by (simp add: odbc_field_def stored_value_def)
next
  case (Some v)
  with assms have fit: "length v \<le> oc_size col" "oc_timestamp col \<longrightarrow> (\<exists>c \<in> set (stored_text col v). c \<noteq> CHR '' '')"
    by (auto simp: value_fits_def)
  then have st: "take (oc_size col - 1) v = stored_text col v" by (auto simp: stored_text_def butlast_conv_take)
  show ?thesis
  proof (cases "oc_timestamp col")
    case True
    with fit(2) have some: "\<exists>c \<in> set (stored_text col v). c \<noteq> CHR '' ''" by blast
    then have "v \<noteq> []" by (auto simp: stored_text_def split: if_splits)
    moreover have "rtrim (stored_text col v) (CHR '' '') = Inr (trimmed (stored_text col v))"
      using some by (simp add: rtrim_spec trimmed_def)
    ultimately show ?thesis
      using Some True fit(1) unfolding odbc_field_def stored_value_def by (simp only: option.case st Let_def) simp
  qed (use Some fit(1) in \<open>simp only: odbc_field_def stored_value_def option.case st Let_def; simp\<close>)
qed

lemma odbc_fields_stored:
  "list_all2 value_fits cols vals \<Longrightarrow> odbc_fields cols vals = Inr (map2 stored_value cols vals)"
  by (induction rule: list_all2_induct) (simp_all add: odbc_field_stored)

definition odbc_record :: "odbc_column list \<Rightarrow> string option list \<Rightarrow> DB_RECORD" where
  "odbc_record cols vals = \<lparr>r_fields = map2 stored_value cols vals\<rparr>"

lemma odbc_rows_all:
  assumes "\<forall>r \<in> set rows. list_all2 value_fits cols r"
  shows "odbc_delivers lib stmt rows w w' \<Longrightarrow>
    odbc_rows lib stmt cols True None recs (m, w) = Some (Inr (True, recs @ map (odbc_record cols) rows, m, w'))"
  using assms
proof (induction rows arbitrary: w recs)
  case Nil
  then show ?case by (subst odbc_rows.simps) simp
next
  case (Cons r rows)
  then obtain v where v: "od_fetch lib stmt w = (Fetch_row r, v)" "odbc_delivers lib stmt rows v w'" by auto
  from Cons.IH [OF v(2)] Cons.prems(2) v(1) show ?case
    by (subst odbc_rows.simps) (simp add: odbc_record_def odbc_fields_stored)
qed

text \<open>
  C29: What ODBC returns of a row: every row of a query becomes a record with the names of the columns and
  the values; but of a value that is as long as its column is wide the last character is lost, while the
  record keeps the length of the whole, and a time stamp also loses the blanks at its end and has its length counted
  as one less. This is so as long as no value is longer than its column and no time stamp is empty or blank (the first
  are read behind their buffer, the others before it).
\<close>

theorem odbc_rows_lose_full_width:
  assumes "odbc_active c" "cn_connection c = Some h" "od_alloc_stmt lib h w = (Some stmt, w1)"
    "od_prepare lib stmt (take n sql) w1 = (True, w2)" "DB_QUERY_get_type (cstr_of sql) = DQT_SELECT"
    "odbc_bind_columns lib stmt w2 = Inr (Inr cols, w3)" "cols \<noteq> []" "od_execute lib stmt w3 = (True, w4)"
    "odbc_delivers lib stmt rows w4 w'" "\<forall>r \<in> set rows. list_all2 value_fits cols r"
  shows "ODBC_exec lib c sql n (Some q) None (False, w) =
    Some (Inr (True, close_result (map (odbc_record cols) rows) (length cols) (start_result sql n (Some q)),
               False, od_free lib stmt w'))"
proof -
  have d: "start_result sql n (Some q) \<noteq> None" by (simp add: start_result_def)
  have "odbc_run lib stmt cols (start_result sql n (Some q)) None w3 =
    Some (Inr (True, close_result (map (odbc_record cols) rows) (length cols) (start_result sql n (Some q)),
               False, od_free lib stmt w'))"
    using assms(7,8) d odbc_rows_all [OF assms(10,9), of "[]" True] by (simp add: odbc_run_def)
  with assms(1-6) show ?thesis by (simp add: ODBC_exec_def Let_def odbc_active_def)
qed

section \<open>Concrete libraries\<close>

definition demo_sqlite :: "sqlite_step list sqlite_library" where
  "demo_sqlite =
     \<lparr>sq_open = (\<lambda>f w. (True, 1, w)), sq_close = (\<lambda>h w. w),
      sq_prepare = (\<lambda>h s w. (if contains s ''SELEC '' then None else Some 1, w)),
      sq_step = (\<lambda>st w. case w of [] \<Rightarrow> (Step_done, []) | x # xs \<Rightarrow> (x, xs)), sq_finalize = (\<lambda>st w. w)\<rparr>"

definition demo_handle :: DB_CONNECTION where
  "demo_handle = opened_connection (Some 1) (Some ''id'') True"

definition unset_field :: DB_FIELD where
  "unset_field = \<lparr>f_label = [], f_value = None, f_size = 0\<rparr>"

definition blank_query :: DB_QUERY where
  "blank_query = \<lparr>q_row_count = 0, q_field_count = 0, q_records = [], q_sql = None\<rparr>"

definition two_columns :: "(string \<times> string) list" where
  "two_columns = [(''a'', ''1''), (''b'', ''2'')]"

lemma two_columns_fit: "names_fit (map fst two_columns)"
  by (simp add: two_columns_def names_fit_def MAX_COLUMN_NAME_LEN_def)

theorem failed_prepare_blocks_sqlite_witness:
  "exec_all (SQLITE_exec demo_sqlite (\<lambda>_. unset_field) demo_handle) [''SELECT 1''] (True, []) = None"
proof -
  have "sq_prepare demo_sqlite 1 (cstr_of (take 8 ''SELEC 1x'')) [] = (None, [])" by code_simp
  from failed_prepare_blocks_sqlite [OF _ this, of demo_handle "[''SELECT 1'']"] show ?thesis
    by (simp add: demo_handle_def)
qed

theorem sqlite_returns_every_row_witness:
  "SQLITE_exec demo_sqlite (\<lambda>_. unset_field) demo_handle ''SELECT'' 6 (Some blank_query) None
     (False, [Step_row two_columns, Step_row two_columns]) =
   Some (Inr (True, close_result (map sqlite_record [two_columns, two_columns]) 2 (start_result ''SELECT'' 6 (Some blank_query)),
              False, []))"
proof -
  have "sq_prepare demo_sqlite 1 (cstr_of (take 6 ''SELECT'')) w = (Some 1, w)" for w
    by (simp add: demo_sqlite_def cstr_of_def contains_def)
  moreover have "DB_QUERY_get_type (cstr_of ''SELECT'') = DQT_SELECT" by code_simp
  moreover have "sqlite_delivers demo_sqlite 1 [two_columns, two_columns] [Step_row two_columns, Step_row two_columns] []"
    by (simp add: demo_sqlite_def)
  ultimately show ?thesis
    using sqlite_returns_every_row [of demo_handle 1 demo_sqlite 6 "''SELECT''" "[Step_row two_columns, Step_row two_columns]" 1
        "[Step_row two_columns, Step_row two_columns]" "[two_columns, two_columns]" "[]" "\<lambda>_. unset_field" blank_query]
      two_columns_fit
    by (simp add: demo_handle_def) (simp add: two_columns_def demo_sqlite_def numeral_2_eq_2)
qed

theorem sqlite_error_never_ends_witness:
  "sqlite_rows (demo_sqlite\<lparr>sq_step := \<lambda>st w. (Step_error, w)\<rparr>) (\<lambda>_. unset_field) 1 False None [] 0 (True, []) = None"
  by (rule sqlite_error_never_ends) simp

theorem sqlite_callback_sees_one_column_witness:
  "SQLITE_exec demo_sqlite (\<lambda>_. unset_field) demo_handle ''SELECT'' 6 None
     (Some (\<lambda>r s. if f_value (r_fields r ! 1) = None then Inl Null_pointer else Inr s)) (False, [Step_row two_columns]) =
   Some (Inl Null_pointer)"
proof -
  have p: "sq_prepare demo_sqlite 1 (cstr_of (take 6 ''SELECT'')) [Step_row two_columns] = (Some 1, [Step_row two_columns])"
    by (simp add: demo_sqlite_def cstr_of_def contains_def)
  have t: "DB_QUERY_get_type (cstr_of ''SELECT'') = DQT_SELECT" by code_simp
  have s: "sq_step demo_sqlite 1 [Step_row two_columns] = (Step_row ((''a'', ''1'') # [(''b'', ''2'')]), [])"
    by (simp add: demo_sqlite_def two_columns_def)
  show ?thesis
    by (rule sqlite_callback_sees_one_column [OF _ p t s])
      (use two_columns_fit in \<open>simp_all add: demo_handle_def two_columns_def unset_field_def\<close>)
qed

definition demo_column :: odbc_column where
  "demo_column = \<lparr>oc_name = ''code'', oc_timestamp = False, oc_size = 3\<rparr>"

definition demo_stamp :: odbc_column where
  "demo_stamp = \<lparr>oc_name = ''at'', oc_timestamp = True, oc_size = 6\<rparr>"

definition demo_odbc :: "odbc_fetch list odbc_library" where
  "demo_odbc =
     \<lparr>od_alloc_env = (\<lambda>w. (Some 1, w)), od_set_version = (\<lambda>e w. (True, w)), od_alloc_dbc = (\<lambda>e w. (Some 2, w)),
      od_driver_connect = (\<lambda>h s w. (True, w)), od_disconnect = (\<lambda>h w. w), od_free = (\<lambda>h w. w),
      od_alloc_stmt = (\<lambda>h w. (Some 3, w)), od_prepare = (\<lambda>st s w. (s = ''SELECT'', w)), od_num_cols = (\<lambda>st w. (Some 2, w)),
      od_describe = (\<lambda>st i w. (Some (if i = 1 then demo_column else demo_stamp), w)), od_bind = (\<lambda>st i n w. (True, w)), od_execute = (\<lambda>st w. (True, w)),
      od_fetch = (\<lambda>st w. case w of [] \<Rightarrow> (Fetch_no_data, []) | x # xs \<Rightarrow> (x, xs))\<rparr>"

definition demo_odbc_handle :: DB_CONNECTION where
  "demo_odbc_handle = (opened_connection (Some 2) (Some ''id'') True)\<lparr>cn_env := Some 1\<rparr>"

theorem failed_prepare_blocks_odbc_witness:
  "exec_all (ODBC_exec demo_odbc demo_odbc_handle) [''SELECT''] (True, []) = None"
  using failed_prepare_blocks_odbc [of demo_odbc_handle 2 demo_odbc "[]" 3 "[]" 1 "''X''" "[]" demo_odbc_handle "[''SELECT'']"]
  by (simp add: demo_odbc_def demo_odbc_handle_def odbc_active_def)

theorem odbc_rows_lose_full_width_witness:
  "ODBC_exec demo_odbc demo_odbc_handle ''SELECT'' 6 (Some blank_query) None
     (False, [Fetch_row [Some ''abc'', Some ''9:30 ''], Fetch_row [Some ''ab'', None]]) =
   Some (Inr (True, close_result
     [\<lparr>r_fields = [\<lparr>f_label = ''code'', f_value = Some ''ab'', f_size = 3\<rparr>, \<lparr>f_label = ''at'', f_value = Some ''9:30'', f_size = 4\<rparr>]\<rparr>,
      \<lparr>r_fields = [\<lparr>f_label = ''code'', f_value = Some ''ab'', f_size = 2\<rparr>, \<lparr>f_label = ''at'', f_value = None, f_size = 0\<rparr>]\<rparr>] 2
     (start_result ''SELECT'' 6 (Some blank_query)), False, []))"
proof -
  let ?rows = "[[Some ''abc'', Some ''9:30 ''], [Some ''ab'', None]]"
  let ?w = "map Fetch_row ?rows"
  have "DB_QUERY_get_type (cstr_of ''SELECT'') = DQT_SELECT" by code_simp
  moreover have "odbc_bind_columns demo_odbc 3 ?w = Inr (Inr [demo_column, demo_stamp], ?w)"
    by (simp add: odbc_bind_columns_def demo_odbc_def demo_column_def demo_stamp_def MAX_COLUMNS_def MAX_COLUMN_NAME_LEN_def
        upt_rec)
  moreover have "odbc_delivers demo_odbc 3 ?rows ?w []" by (simp add: demo_odbc_def)
  moreover have "\<forall>r \<in> set ?rows. list_all2 value_fits [demo_column, demo_stamp] r"
    by (simp add: value_fits_def demo_column_def demo_stamp_def stored_text_def)
  ultimately show ?thesis
    using odbc_rows_lose_full_width [of demo_odbc_handle 2 demo_odbc ?w 3 ?w 6 "''SELECT''" ?w "[demo_column, demo_stamp]" ?w ?w
        ?rows "[]" blank_query]
    by (simp add: demo_odbc_handle_def odbc_active_def)
      (simp add: demo_odbc_def odbc_record_def stored_value_def stored_text_def trimmed_def demo_column_def demo_stamp_def
        eval_nat_numeral)
qed

end
