(* ===== verification/Db_Cursors.thy ===== *)
theory Db_Cursors
  imports Db_Stepping
begin

text \<open>
  \<open>src/db/oracle.c\<close>, \<open>src/db/mongodb.c\<close> and \<open>src/db/ldap.c\<close>, each over its client library and with its
  mutex, as in \<open>Db_Stepping\<close>. What is written only to the log is left out.
\<close>

section \<open>Oracle\<close>

text \<open>The types of the handles, as they are named when a handle is allocated or released.\<close>

datatype oci_handle = H_env | H_error | H_server | H_service | H_session | H_statement

text \<open>The attributes of a column other than its name.\<close>

datatype oci_attr = A_data_type | A_char_used | A_char_size | A_data_size

text \<open>
  A row is the list of the texts in the buffers of the columns. \<open>Oci_error\<close> is every status other than
  success and the end of the data: a NULL among the values gives it, since no indicator is bound.
\<close>

datatype oci_fetch = Oci_row "string list" | Oci_no_data | Oci_error

record 'w oracle_library =
  or_env_create :: "'w \<Rightarrow> nat option \<times> 'w"
  or_alloc :: "oci_handle \<Rightarrow> nat option \<Rightarrow> 'w \<Rightarrow> nat \<times> 'w"
  or_free :: "oci_handle \<Rightarrow> nat \<Rightarrow> 'w \<Rightarrow> 'w"
  or_attach :: "nat \<Rightarrow> string \<Rightarrow> 'w \<Rightarrow> bool \<times> 'w"
  or_set_server :: "nat \<Rightarrow> nat \<Rightarrow> 'w \<Rightarrow> 'w"
  or_set_login :: "nat \<Rightarrow> string \<Rightarrow> string \<Rightarrow> 'w \<Rightarrow> 'w"
  or_session_begin :: "nat \<Rightarrow> nat \<Rightarrow> 'w \<Rightarrow> bool \<times> 'w"
  or_set_session :: "nat \<Rightarrow> nat \<Rightarrow> 'w \<Rightarrow> 'w"
  or_session_end :: "nat \<Rightarrow> nat \<Rightarrow> 'w \<Rightarrow> 'w"
  or_detach :: "nat option \<Rightarrow> 'w \<Rightarrow> 'w"
  or_prepare :: "nat \<Rightarrow> string \<Rightarrow> 'w \<Rightarrow> bool \<times> 'w"
  or_is_select :: "nat \<Rightarrow> 'w \<Rightarrow> bool option \<times> 'w"
  or_execute :: "nat \<Rightarrow> nat \<Rightarrow> nat \<Rightarrow> 'w \<Rightarrow> bool \<times> 'w"
  or_param :: "nat \<Rightarrow> nat \<Rightarrow> 'w \<Rightarrow> bool \<times> 'w"
  or_attr :: "nat \<Rightarrow> nat \<Rightarrow> oci_attr \<Rightarrow> 'w \<Rightarrow> nat option \<times> 'w"
  or_name :: "nat \<Rightarrow> nat \<Rightarrow> 'w \<Rightarrow> string option \<times> 'w"
  or_define :: "nat \<Rightarrow> nat \<Rightarrow> nat \<Rightarrow> 'w \<Rightarrow> 'w"
  or_fetch :: "nat \<Rightarrow> 'w \<Rightarrow> oci_fetch \<times> 'w"

text \<open>
  The error handle is taken from the structure before the pointer to it is tested. The session is released as
  an environment and the server as a service context.
\<close>

definition release :: "('h \<Rightarrow> 'w \<Rightarrow> 'w) \<Rightarrow> 'h option \<Rightarrow> 'w \<Rightarrow> 'w" where
  "release free h w = (case h of None \<Rightarrow> w | Some x \<Rightarrow> free x w)"

definition ORACLE_disconnect ::
  "'w oracle_library \<Rightarrow> DB_CONNECTION option \<Rightarrow> 'w \<Rightarrow> (DB_CONNECTION \<times> 'w) outcome" where
  "ORACLE_disconnect lib db_connection w =
     (case db_connection of
        None \<Rightarrow> Inl Null_pointer
      | Some c \<Rightarrow>
          (let (errhp, w) = or_alloc lib H_error (cn_env c) w;
               w = (case (cn_connection c, cn_session c) of
                      (Some svchp, Some authp) \<Rightarrow> or_detach lib (cn_server c) (or_session_end lib svchp authp w)
                    | _ \<Rightarrow> w);
               w = release (or_free lib H_env) (cn_session c) w;
               w = release (or_free lib H_env) (cn_env c) w;
               w = release (or_free lib H_service) (cn_connection c) w;
               w = release (or_free lib H_service) (cn_server c) w
           in Inr (c\<lparr>cn_session := None, cn_env := None, cn_connection := None, cn_server := None,
                     cn_id := None, cn_active := False\<rparr>, w)))"

text \<open>
  Without an environment the function returns with \<open>id\<close> still allocated. The host alone names the server
  when no connection string is given: the port and the name of the database are not used.
\<close>

definition ORACLE_connect ::
  "'w oracle_library \<Rightarrow> DB_CONNECTION \<Rightarrow> string \<Rightarrow> int \<Rightarrow> string \<Rightarrow> string \<Rightarrow> string \<Rightarrow>
   string option \<Rightarrow> string \<Rightarrow> 'w \<Rightarrow> bool \<times> DB_CONNECTION \<times> 'w" where
  "ORACLE_connect lib db_connection host port dbname user password connection_string name w =
     (let c = db_connection\<lparr>cn_session := None,
                            cn_id := Some (snprintf_s 1024 ''%s@%s[db=%s] (%s)'' [user, host, dbname, name])\<rparr>
      in case or_env_create lib w of
           (None, w) \<Rightarrow> (False, c, w)
         | (Some envhp, w) \<Rightarrow>
             (let (errhp, w) = or_alloc lib H_error (Some envhp) w;
                  (srvhp, w) = or_alloc lib H_server (Some envhp) w;
                  (svchp, w) = or_alloc lib H_service (Some envhp) w;
                  c = c\<lparr>cn_env := Some envhp, cn_server := Some srvhp, cn_connection := Some svchp\<rparr>
              in case or_attach lib srvhp (case connection_string of Some s \<Rightarrow> s | None \<Rightarrow> host) w of
                   (False, w) \<Rightarrow> (False, c\<lparr>cn_active := False, cn_id := None\<rparr>, w)
                 | (True, w) \<Rightarrow>
                     (let w = or_set_server lib svchp srvhp w;
                          (authp, w) = or_alloc lib H_session (Some envhp) w;
                          w = or_set_login lib authp user password w;
                          c = c\<lparr>cn_session := Some authp\<rparr>
                      in case or_session_begin lib svchp authp w of
                           (False, w) \<Rightarrow> (False, c\<lparr>cn_active := False, cn_id := None\<rparr>, w)
                         | (True, w) \<Rightarrow> (True, c\<lparr>cn_active := True\<rparr>, or_set_session lib svchp authp w))))"

text \<open>
  The attributes of one column: its name, as the C string in a buffer of its own, and the bytes of the buffer
  for its values. \<open>None\<close> is an attribute that could not be read.
\<close>

definition oracle_width :: "'w oracle_library \<Rightarrow> nat \<Rightarrow> nat \<Rightarrow> 'w \<Rightarrow> nat option \<times> 'w" where
  "oracle_width lib stmthp counter w =
     (case or_attr lib stmthp counter A_char_used w of
        (None, w) \<Rightarrow> (None, w)
      | (Some char_semantics, w) \<Rightarrow>
          (case or_attr lib stmthp counter (if char_semantics \<noteq> 0 then A_char_size else A_data_size) w of
             (None, w) \<Rightarrow> (None, w)
           | (Some col_width, w) \<Rightarrow> (Some (col_width * 6 + 1), w)))"

text \<open>
  The columns are described until there is no further one. The arrays have 64 entries, and nothing compares
  the counter with that.
\<close>

function oracle_columns :: "'w oracle_library \<Rightarrow> nat \<Rightarrow> nat \<Rightarrow> 'w \<Rightarrow> (string list option \<times> 'w) outcome" where
  "oracle_columns lib stmthp counter w =
     (case or_param lib stmthp counter w of
        (False, w) \<Rightarrow> Inr (Some [], w)
      | (True, w) \<Rightarrow>
          (case or_attr lib stmthp counter A_data_type w of
             (None, w) \<Rightarrow> Inr (None, w)
           | (Some dtype, w) \<Rightarrow>
               (case or_name lib stmthp counter w of
                  (None, w) \<Rightarrow> Inr (None, w)
                | (Some col_name, w) \<Rightarrow>
                    if MAX_COLUMNS < counter then Inl Out_of_bounds
                    else
                      (case oracle_width lib stmthp counter w of
                         (None, w) \<Rightarrow> Inr (None, w)
                       | (Some width, w) \<Rightarrow>
                           obind (oracle_columns lib stmthp (counter + 1) (or_define lib stmthp counter width w))
                             (\<lambda>(cols, w). Inr (map_option (\<lambda>cs. cstr_of col_name # cs) cols, w))))))"
  by pat_completeness auto
termination by (relation "measure (\<lambda>(lib, stmthp, counter, w). Suc MAX_COLUMNS - counter)") auto

declare oracle_columns.simps [simp del]

text \<open>A fetch that fails ends the loop like the end of the data.\<close>

partial_function (option) oracle_rows ::
  "'w oracle_library \<Rightarrow> nat \<Rightarrow> string list \<Rightarrow> bool \<Rightarrow> 'w guarded qec option \<Rightarrow> DB_RECORD list \<Rightarrow> 'w guarded \<Rightarrow>
   (DB_RECORD list \<times> 'w guarded) outcome option" where
  "oracle_rows lib stmthp names wanted cb recs s =
     (case or_fetch lib stmthp (snd s) of
        (Oci_row vals, w) \<Rightarrow>
          if cb = None \<and> \<not> wanted then oracle_rows lib stmthp names wanted cb recs (fst s, w)
          else if \<not> names_fit names then Some (Inl Out_of_bounds)
          else
            (case (case cb of None \<Rightarrow> Inr (fst s, w) | Some f \<Rightarrow> f (mk_record names vals) (False, w)) of
               Inl e \<Rightarrow> Some (Inl e)
             | Inr s \<Rightarrow> oracle_rows lib stmthp names wanted cb (if wanted then recs @ [mk_record names vals] else recs) s)
      | (_, w) \<Rightarrow> Some (Inr (recs, fst s, w)))"

definition oracle_active :: "DB_CONNECTION \<Rightarrow> bool" where
  "oracle_active c \<longleftrightarrow> cn_active c \<and> cn_id c \<noteq> None \<and> cn_connection c \<noteq> None"

text \<open>
  Every error after the mutex has been taken releases the statement and the mutex. Whether a statement is a
  query is asked of the library. The error handle is never released.
\<close>

definition ORACLE_exec :: "'w oracle_library \<Rightarrow> DB_CONNECTION \<Rightarrow> 'w guarded_exec" where
  "ORACLE_exec lib db_connection sql sql_length dst_result cb s =
     (if \<not> oracle_active db_connection then Some (Inr (False, dst_result, s))
      else if fst s then None
      else
        (let dst = start_result sql sql_length dst_result;
             (errhp, w) = or_alloc lib H_error (cn_env db_connection) (snd s);
             (stmthp, w) = or_alloc lib H_statement (cn_env db_connection) w;
             failed = (\<lambda>w. Some (Inr (False, dst, False, or_free lib H_statement stmthp w)))
         in case or_prepare lib stmthp (take sql_length sql) w of
              (False, w) \<Rightarrow> failed w
            | (True, w) \<Rightarrow>
                (case or_is_select lib stmthp w of
                   (None, w) \<Rightarrow> failed w
                 | (Some select, w) \<Rightarrow>
                     (case or_execute lib (the (cn_connection db_connection)) stmthp (if select then 0 else 1) w of
                        (False, w) \<Rightarrow> failed w
                      | (True, w) \<Rightarrow>
                          if \<not> select then Some (Inr (True, dst, False, or_free lib H_statement stmthp w))
                          else
                            (case oracle_columns lib stmthp 1 w of
                               Inl e \<Rightarrow> Some (Inl e)
                             | Inr (None, w) \<Rightarrow> failed w
                             | Inr (Some names, w) \<Rightarrow>
                                 map_option (\<lambda>r. obind r (\<lambda>(recs, _, w).
                                     Inr (True, close_result recs (length names) dst, False, or_free lib H_statement stmthp w)))
                                   (oracle_rows lib stmthp names (dst \<noteq> None) cb [] (True, w)))))))"

section \<open>MongoDB\<close>

text \<open>A value of a reply. Only what the driver looks at is told apart.\<close>

datatype bson = B_document "(string \<times> bson) list" | B_array "bson list" | B_scalar string

record 'w mongo_library =
  mg_uri :: "string option \<Rightarrow> 'w \<Rightarrow> nat option \<times> 'w"
  mg_client :: "nat \<Rightarrow> 'w \<Rightarrow> nat option \<times> 'w"
  mg_database :: "nat \<Rightarrow> string \<Rightarrow> 'w \<Rightarrow> nat \<times> 'w"
  mg_appname :: "nat \<Rightarrow> string \<Rightarrow> 'w \<Rightarrow> 'w"
  mg_destroy_database :: "nat \<Rightarrow> 'w \<Rightarrow> 'w"
  mg_destroy_uri :: "nat \<Rightarrow> 'w \<Rightarrow> 'w"
  mg_destroy_client :: "nat \<Rightarrow> 'w \<Rightarrow> 'w"
  mg_parse :: "string \<Rightarrow> bson option"
  mg_command :: "nat \<Rightarrow> bson \<Rightarrow> 'w \<Rightarrow> nat option \<times> 'w"
  mg_next :: "nat \<Rightarrow> 'w \<Rightarrow> (string \<times> bson) list option \<times> 'w"
  mg_error :: "nat \<Rightarrow> 'w \<Rightarrow> bool"
  mg_destroy_cursor :: "nat \<Rightarrow> 'w \<Rightarrow> 'w"
  mg_json :: "(string \<times> bson) list \<Rightarrow> string"

text \<open>The pointers to the database, the address and the client are kept when what they point to is released.\<close>

definition MONGODB_disconnect :: "'w mongo_library \<Rightarrow> DB_CONNECTION option \<Rightarrow> 'w \<Rightarrow> DB_CONNECTION option \<times> 'w" where
  "MONGODB_disconnect lib db_connection w =
     (case db_connection of
        None \<Rightarrow> (None, w)
      | Some c \<Rightarrow>
          (let w = release (mg_destroy_database lib) (cn_database c) w;
               w = (if cn_connection c = None then w else release (mg_destroy_uri lib) (cn_uri c) w);
               w = release (mg_destroy_client lib) (cn_connection c) w
           in (Some (c\<lparr>cn_id := None, cn_active := False\<rparr>), w)))"

text \<open>
  The text formatted from the connection string is not used: the string itself is the address. An
  address that is refused leaves \<open>id\<close> allocated.
\<close>

definition MONGODB_connect ::
  "'w mongo_library \<Rightarrow> DB_CONNECTION \<Rightarrow> string \<Rightarrow> int \<Rightarrow> string \<Rightarrow> string \<Rightarrow> string \<Rightarrow>
   string option \<Rightarrow> string \<Rightarrow> 'w \<Rightarrow> bool \<times> DB_CONNECTION \<times> 'w" where
  "MONGODB_connect lib db_connection host port dbname user password connection_string name w =
     (let c = db_connection\<lparr>cn_id := Some (snprintf_s 1024 ''%s@%s[db=%s] (%s)'' [user, host, dbname, name])\<rparr>
      in case mg_uri lib connection_string w of
           (None, w) \<Rightarrow> (False, c\<lparr>cn_uri := None\<rparr>, w)
         | (Some uri, w) \<Rightarrow>
             (case mg_client lib uri w of
                (None, w) \<Rightarrow> (False, c\<lparr>cn_uri := Some uri, cn_connection := None, cn_active := False, cn_id := None\<rparr>, w)
              | (Some client, w) \<Rightarrow>
                  (let (database, w) = mg_database lib client dbname w
                   in (True, c\<lparr>cn_uri := Some uri, cn_connection := Some client, cn_database := Some database, cn_active := True\<rparr>,
                       mg_appname lib client ''DCPAM'' w))))"

text \<open>
  The documents of one reply: those in the arrays \<open>firstBatch\<close> and \<open>nextBatch\<close> of its \<open>cursor\<close>, without
  the empty ones. The data of a batch that is no array is a null pointer.
\<close>

definition is_batch :: "string \<Rightarrow> bool" where
  "is_batch key \<longleftrightarrow> key = ''firstBatch'' \<or> key = ''nextBatch''"

definition array_documents :: "bson list \<Rightarrow> (string \<times> bson) list list" where
  "array_documents items = concat (map (\<lambda>b. case b of B_document (f # fs) \<Rightarrow> [f # fs] | _ \<Rightarrow> []) items)"

fun batch_documents :: "(string \<times> bson) list \<Rightarrow> (string \<times> bson) list list outcome" where
  "batch_documents [] = Inr []"
| "batch_documents ((key, b) # kvs) =
     (if is_batch key
      then (case b of
              B_array items \<Rightarrow> obind (batch_documents kvs) (\<lambda>ds. Inr (array_documents items @ ds))
            | _ \<Rightarrow> Inl Null_pointer)
      else batch_documents kvs)"

definition reply_documents :: "(string \<times> bson) list \<Rightarrow> (string \<times> bson) list list outcome" where
  "reply_documents reply =
     (case map_of reply ''cursor'' of Some (B_document kvs) \<Rightarrow> batch_documents kvs | _ \<Rightarrow> Inr [])"

text \<open>A document is stored as one column that holds its JSON text.\<close>

definition mongo_record :: "'w mongo_library \<Rightarrow> (string \<times> bson) list \<Rightarrow> DB_RECORD" where
  "mongo_record lib doc = \<lparr>r_fields = [mk_field ''_bson'' (mg_json lib doc)]\<rparr>"

text \<open>The callback runs on every document with the mutex released before each.\<close>

fun released_callback :: "'w guarded qec \<Rightarrow> DB_RECORD list \<Rightarrow> 'w guarded \<Rightarrow> 'w guarded outcome" where
  "released_callback cb [] s = Inr s"
| "released_callback cb (r # rs) s = obind (cb r (False, snd s)) (released_callback cb rs)"

partial_function (option) mongo_replies ::
  "'w mongo_library \<Rightarrow> nat \<Rightarrow> 'w guarded qec option \<Rightarrow> DB_RECORD list \<Rightarrow> 'w guarded \<Rightarrow>
   (DB_RECORD list \<times> 'w guarded) outcome option" where
  "mongo_replies lib cursor cb recs s =
     (case mg_next lib cursor (snd s) of
        (None, w) \<Rightarrow> Some (Inr (recs, fst s, w))
      | (Some reply, w) \<Rightarrow>
          (case reply_documents reply of
             Inl e \<Rightarrow> Some (Inl e)
           | Inr docs \<Rightarrow>
               (let rs = map (mongo_record lib) docs in
                case (case cb of None \<Rightarrow> Inr (fst s, w) | Some f \<Rightarrow> released_callback f rs (fst s, w)) of
                  Inl e \<Rightarrow> Some (Inl e)
                | Inr s \<Rightarrow> mongo_replies lib cursor cb (recs @ rs) s)))"

text \<open>
  An error of the cursor is reported with the mutex as it is. The error is asked of the cursor also when
  there is none.
\<close>

definition MONGODB_exec :: "'w mongo_library \<Rightarrow> DB_CONNECTION \<Rightarrow> 'w guarded_exec" where
  "MONGODB_exec lib db_connection sql sql_length dst_result cb s =
     (if fst s then None
      else
        (let dst = start_result sql sql_length dst_result; w = snd s in
         case (cn_connection db_connection, cn_database db_connection) of
           (Some client, Some database) \<Rightarrow>
             (case mg_parse lib (cstr_of sql) of
                None \<Rightarrow> Some (Inr (False, dst, False, w))
              | Some command \<Rightarrow>
                  (case mg_command lib database command w of
                     (None, w) \<Rightarrow> Some (Inl Null_pointer)
                   | (Some cursor, w) \<Rightarrow>
                       map_option (\<lambda>r. obind r (\<lambda>(recs, m, w).
                           Inr (\<not> mg_error lib cursor w, close_result recs 1 dst, mg_error lib cursor w \<and> m,
                                mg_destroy_cursor lib cursor w)))
                         (mongo_replies lib cursor cb [] (True, w))))
         | _ \<Rightarrow> Some (Inr (False, dst, False, w))))"

section \<open>LDAP\<close>

text \<open>An entry is a list of attributes, each with its values.\<close>

type_synonym ldap_entry = "(string \<times> string list) list"

record 'w ldap_library =
  ld_init :: "string \<Rightarrow> int \<Rightarrow> 'w \<Rightarrow> nat option \<times> 'w"
  ld_set_version :: "nat \<Rightarrow> nat \<Rightarrow> 'w \<Rightarrow> 'w"
  ld_bind :: "nat \<Rightarrow> string \<Rightarrow> string \<Rightarrow> 'w \<Rightarrow> bool \<times> 'w"
  ld_unbind :: "nat \<Rightarrow> 'w \<Rightarrow> 'w"
  ld_search :: "nat \<Rightarrow> string option \<Rightarrow> string \<Rightarrow> 'w \<Rightarrow> ldap_entry list option \<times> 'w"
  ld_print :: "string \<Rightarrow> 'w \<Rightarrow> 'w"

text \<open>The flag \<open>active\<close> is not reset.\<close>

definition LDAP_disconnect :: "'w ldap_library \<Rightarrow> DB_CONNECTION \<Rightarrow> 'w \<Rightarrow> DB_CONNECTION \<times> 'w" where
  "LDAP_disconnect lib c w =
     (c\<lparr>cn_connection := None, cn_dbname := None, cn_id := None\<rparr>, release (ld_unbind lib) (cn_connection c) w)"

text \<open>Connecting takes the mutex too. A connection that cannot be bound is kept.\<close>

definition LDAP_connect ::
  "'w ldap_library \<Rightarrow> DB_CONNECTION \<Rightarrow> string \<Rightarrow> int \<Rightarrow> string \<Rightarrow> string \<Rightarrow> string \<Rightarrow>
   string option \<Rightarrow> string \<Rightarrow> 'w guarded \<Rightarrow> (bool \<times> DB_CONNECTION \<times> 'w guarded) option" where
  "LDAP_connect lib db_connection host port dbname user password connection_string name s =
     (if fst s then None
      else
        (let c = db_connection\<lparr>cn_id := Some (snprintf_s 1024 ''%s@%s[db=%s] (%s)'' [user, host, dbname, name])\<rparr>
         in case ld_init lib host port (snd s) of
              (None, w) \<Rightarrow> Some (False, c\<lparr>cn_connection := None, cn_id := None\<rparr>, False, w)
            | (Some h, w) \<Rightarrow>
                (case ld_bind lib h user password (ld_set_version lib h 3 w) of
                   (False, w) \<Rightarrow> Some (False, c\<lparr>cn_connection := Some h, cn_id := None\<rparr>, False, w)
                 | (True, w) \<Rightarrow>
                     Some (True, c\<lparr>cn_connection := Some h, cn_dbname := Some dbname, cn_active := True\<rparr>, False, w))))"

text \<open>What is printed for the entries that were found: a line for every value of every attribute.\<close>

definition ldap_lines :: "ldap_entry \<Rightarrow> string" where
  "ldap_lines entry = concat (map (\<lambda>(attr, vals). concat (map (\<lambda>v. attr @ '': '' @ v @ [NL]) vals)) entry)"

text \<open>Nothing of what was found reaches the result or the callback.\<close>

definition LDAP_exec :: "'w ldap_library \<Rightarrow> DB_CONNECTION \<Rightarrow> 'w guarded_exec" where
  "LDAP_exec lib db_connection sql sql_length dst_result cb s =
     (if fst s then None
      else
        (let dst = start_result sql sql_length dst_result; w = snd s in
         case cn_connection db_connection of
           None \<Rightarrow> Some (Inr (True, dst, False, w))
         | Some h \<Rightarrow>
             (case ld_search lib h (cn_dbname db_connection) (cstr_of sql) w of
                (None, w) \<Rightarrow> Some (Inr (False, dst, False, w))
              | (Some entries, w) \<Rightarrow>
                  Some (Inr (True, dst, False, ld_print lib (concat (map ldap_lines entries)) w)))))"


section \<open>The mutex between calls\<close>

text \<open>
  A driver that releases its mutex at every return, and that an inactive connection leaves at once: whatever
  the statements do, they never block each other.
\<close>

locale releasing_driver = guarded_driver exec active
  for exec :: "'w guarded_exec" and active :: bool +
  assumes always_releases: "active \<Longrightarrow> exec sql n dst cb (False, w) = Some (Inr (ok, dst', m, w')) \<Longrightarrow> \<not> m"
    and passes: "\<not> active \<Longrightarrow> exec sql n dst cb s = Some (Inr (False, dst, s))"
begin

lemma exec_free:
  assumes "exec sql n dst cb (False, w) = Some (Inr (ok, dst', m, w'))"
  shows "\<not> m"
proof (cases active)
  case True
  from always_releases [OF this assms] show ?thesis .
next
  case False
  from passes [OF this] assms show ?thesis by simp
qed

lemma exec_all_free: "exec_all exec sqls (False, w) = Some (Inr (oks, m, w')) \<Longrightarrow> \<not> m"
proof (induction sqls arbitrary: w oks)
  case (Cons sql sqls)
  then obtain ok d m1 w1 rest where
    e: "exec sql (length sql) None None (False, w) = Some (Inr (ok, d, m1, w1))"
    and r: "exec_all exec sqls (m1, w1) = Some (Inr (rest, m, w'))"
    by (auto split: option.splits sum.splits)
  from exec_free [OF e] r Cons.IH show ?case by simp
qed simp

text \<open>When every single statement ends, so does every sequence of them.\<close>

lemma exec_all_returns:
  assumes "\<And>sql n w. exec sql n None None (False, w) \<noteq> None"
  shows "exec_all exec sqls (False, w) \<noteq> None"
proof (induction sqls arbitrary: w)
  case (Cons sql sqls)
  obtain r where r: "exec sql (length sql) None None (False, w) = Some r" using assms by blast
  show ?case
  proof (cases r)
    case (Inr x)
    then obtain ok d m w1 where x: "r = Inr (ok, d, m, w1)" by (cases x) auto
    with r exec_free have "\<not> m" by blast
    with r x Cons.IH [of w1] show ?thesis by simp
  qed (use r in simp)
qed simp

end

lemma oracle_exec_releases:
  "oracle_active c \<Longrightarrow> ORACLE_exec lib c sql n dst cb (False, w) = Some (Inr (ok, dst', m, w')) \<Longrightarrow> \<not> m"
  by (auto simp: ORACLE_exec_def Let_def split: option.splits prod.splits if_splits bool.splits sum.splits)

interpretation oci: releasing_driver "ORACLE_exec lib c" "oracle_active c" for lib c
proof unfold_locales
  show "oracle_active c \<Longrightarrow> ORACLE_exec lib c sql n dst cb (True, w) = None" for sql n dst cb w
    by (simp add: ORACLE_exec_def)
  show "oracle_active c \<Longrightarrow> ORACLE_exec lib c sql n dst cb (False, w) = Some (Inr (True, dst', m, w')) \<Longrightarrow> \<not> m"
    for sql n dst cb w dst' m w'
    by (rule oracle_exec_releases)
  show "oracle_active c \<Longrightarrow> ORACLE_exec lib c sql n dst cb (False, w) = Some (Inr (ok, dst', m, w')) \<Longrightarrow> \<not> m"
    for sql n dst cb w ok dst' m w'
    by (rule oracle_exec_releases)
  show "\<not> oracle_active c \<Longrightarrow> ORACLE_exec lib c sql n dst cb s = Some (Inr (False, dst, s))" for sql n dst cb s
    by (simp add: ORACLE_exec_def)
qed

lemma ldap_exec_releases: "LDAP_exec lib c sql n dst cb (False, w) = Some (Inr (ok, dst', m, w')) \<Longrightarrow> \<not> m"
  by (auto simp: LDAP_exec_def Let_def split: option.splits prod.splits)

interpretation ldap: releasing_driver "LDAP_exec lib c" True for lib c
  by unfold_locales (auto simp: LDAP_exec_def [of _ _ _ _ _ _ "(True, _)"] dest: ldap_exec_releases)

interpretation mongo: guarded_driver "MONGODB_exec lib c" True for lib c
proof unfold_locales
  show "MONGODB_exec lib c sql n dst cb (True, w) = None" for sql n dst cb w
    by (simp add: MONGODB_exec_def)
  show "MONGODB_exec lib c sql n dst cb (False, w) = Some (Inr (True, dst', m, w')) \<Longrightarrow> \<not> m" for sql n dst cb w dst' m w'
    by (auto simp: MONGODB_exec_def Let_def split: option.splits prod.splits)
qed

text \<open>
  LDAP always answers: every sequence of searches returns, with the mutex of the driver released.
\<close>

lemma ldap_always_returns: "LDAP_exec lib c sql n dst cb (False, w) \<noteq> None"
  by (auto simp: LDAP_exec_def Let_def split: option.splits prod.splits)

section \<open>The rows of Oracle\<close>

fun oracle_delivers :: "'w oracle_library \<Rightarrow> nat \<Rightarrow> string list list \<Rightarrow> 'w \<Rightarrow> 'w \<Rightarrow> bool" where
  "oracle_delivers lib stmt [] w w' \<longleftrightarrow> or_fetch lib stmt w = (Oci_no_data, w') \<or> or_fetch lib stmt w = (Oci_error, w')"
| "oracle_delivers lib stmt (r # rs) w w' \<longleftrightarrow>
     (\<exists>v. or_fetch lib stmt w = (Oci_row r, v) \<and> oracle_delivers lib stmt rs v w')"

lemma oracle_rows_all:
  assumes "rows = [] \<or> names_fit names"
  shows "oracle_delivers lib stmt rows w w' \<Longrightarrow>
    oracle_rows lib stmt names True None recs (m, w) = Some (Inr (recs @ map (mk_record names) rows, m, w'))"
  using assms
proof (induction rows arbitrary: w recs)
  case Nil
  then show ?case by (subst oracle_rows.simps) auto
next
  case (Cons r rows)
  then obtain v where v: "or_fetch lib stmt w = (Oci_row r, v)" "oracle_delivers lib stmt rows v w'" by auto
  from Cons.IH [OF v(2)] Cons.prems(2) v(1) show ?case by (subst oracle_rows.simps) simp
qed

text \<open>
  C30: Oracle returns every row that was fetched before the end of the data or an error: one record per row, in
  order, the same records that PostgreSQL and MySQL make of these names and values. A fetch that fails is
  not told from the end of the data: the statement has succeeded, and the mutex is free.
\<close>

theorem oracle_returns_fetched_rows:
  assumes "oracle_active c" "cn_connection c = Some svchp"
    "or_alloc lib H_error (cn_env c) w = (errhp, w1)" "or_alloc lib H_statement (cn_env c) w1 = (stmt, w2)"
    "or_prepare lib stmt (take n sql) w2 = (True, w3)" "or_is_select lib stmt w3 = (Some True, w4)"
    "or_execute lib svchp stmt 0 w4 = (True, w5)" "oracle_columns lib stmt 1 w5 = Inr (Some names, w6)"
    "oracle_delivers lib stmt rows w6 w'" "rows = [] \<or> names_fit names"
  shows "ORACLE_exec lib c sql n (Some q) None (False, w) =
    Some (Inr (True, close_result (mk_records \<lparr>rs_names = names, rs_tuples = rows\<rparr>) (length names) (start_result sql n (Some q)),
               False, or_free lib H_statement stmt w'))"
proof -
  have "start_result sql n (Some q) \<noteq> None" by (simp add: start_result_def)
  with assms(1-8) oracle_rows_all [OF assms(10,9), of "[]" True] show ?thesis
    by (simp add: ORACLE_exec_def Let_def mk_records_def)
qed

text \<open>The columns that are described are at most 64.\<close>

lemma oracle_columns_bound: "counter \<le> Suc MAX_COLUMNS \<Longrightarrow>
  oracle_columns lib stmt counter w = Inr (Some names, w') \<Longrightarrow> length names + counter \<le> Suc MAX_COLUMNS"
proof (induction lib stmt counter w arbitrary: names w' rule: oracle_columns.induct)
  case (1 lib stmt counter w)
  from 1(3) show ?case
    by (subst (asm) oracle_columns.simps)
      (use 1(1,2) in \<open>force split: prod.splits bool.splits option.splits if_splits\<close>)
qed

text \<open>With more, the array of the column names is written behind its end.\<close>

lemma oracle_width_Some:
  assumes "\<And>a w. fst (or_attr lib stmt k a w) \<noteq> None"
  shows "\<exists>width w'. oracle_width lib stmt k w = (Some width, w')"
proof -
  have "\<exists>n v. or_attr lib stmt k a u = (Some n, v)" for a u
    using assms [of a u] by (cases "or_attr lib stmt k a u") auto
  then show ?thesis
    by (auto simp: oracle_width_def split: prod.split option.split) (metis option.distinct(1) prod.inject option.inject)+
qed

lemma oracle_columns_overrun:
  assumes "\<And>k w. k \<le> Suc MAX_COLUMNS \<Longrightarrow> fst (or_param lib stmt k w)" "\<And>k a w. fst (or_attr lib stmt k a w) \<noteq> None"
    "\<And>k w. fst (or_name lib stmt k w) \<noteq> None"
  shows "counter \<le> Suc MAX_COLUMNS \<Longrightarrow> oracle_columns lib stmt counter w = Inl Out_of_bounds"
proof (induction "Suc MAX_COLUMNS - counter" arbitrary: counter w)
  case 0
  then have c: "counter = Suc MAX_COLUMNS" by simp
  obtain u where u: "or_param lib stmt counter w = (True, u)" using assms(1) [OF 0(2), of w] by (cases "or_param lib stmt counter w") auto
  obtain d v where v: "or_attr lib stmt counter A_data_type u = (Some d, v)"
    using assms(2) [of counter A_data_type u] by (cases "or_attr lib stmt counter A_data_type u") auto
  obtain nm x where "or_name lib stmt counter v = (Some nm, x)"
    using assms(3) [of counter v] by (cases "or_name lib stmt counter v") auto
  with u v c show ?case by (subst oracle_columns.simps) simp
next
  case (Suc k)
  obtain u where u: "or_param lib stmt counter w = (True, u)" using assms(1) [OF Suc(3), of w] by (cases "or_param lib stmt counter w") auto
  obtain d v where v: "or_attr lib stmt counter A_data_type u = (Some d, v)"
    using assms(2) [of counter A_data_type u] by (cases "or_attr lib stmt counter A_data_type u") auto
  obtain nm x where x: "or_name lib stmt counter v = (Some nm, x)"
    using assms(3) [of counter v] by (cases "or_name lib stmt counter v") auto
  obtain width y where y: "oracle_width lib stmt counter x = (Some width, y)"
    using oracle_width_Some [OF assms(2)] by blast
  have "oracle_columns lib stmt (counter + 1) (or_define lib stmt counter width y) = Inl Out_of_bounds"
    by (rule Suc(1)) (use Suc(2,3) in auto)
  with u v x y show ?case by (subst oracle_columns.simps) simp
qed

section \<open>The documents of MongoDB\<close>

fun mongo_delivers :: "'w mongo_library \<Rightarrow> nat \<Rightarrow> (string \<times> bson) list list \<Rightarrow> 'w \<Rightarrow> 'w \<Rightarrow> bool" where
  "mongo_delivers lib cursor [] w w' \<longleftrightarrow> mg_next lib cursor w = (None, w')"
| "mongo_delivers lib cursor (r # rs) w w' \<longleftrightarrow>
     (\<exists>v. mg_next lib cursor w = (Some r, v) \<and> mongo_delivers lib cursor rs v w')"

fun all_documents :: "(string \<times> bson) list list \<Rightarrow> (string \<times> bson) list list outcome" where
  "all_documents [] = Inr []"
| "all_documents (r # rs) = obind (reply_documents r) (\<lambda>ds. obind (all_documents rs) (\<lambda>es. Inr (ds @ es)))"

lemma mongo_replies_all:
  "mongo_delivers lib cursor replies w w' \<Longrightarrow> all_documents replies = Inr docs \<Longrightarrow>
   mongo_replies lib cursor None recs (m, w) = Some (Inr (recs @ map (mongo_record lib) docs, m, w'))"
proof (induction replies arbitrary: w recs docs)
  case Nil
  then show ?case by (subst mongo_replies.simps) simp
next
  case (Cons r rs)
  then obtain v ds es where v: "mg_next lib cursor w = (Some r, v)" "mongo_delivers lib cursor rs v w'"
    and d: "reply_documents r = Inr ds" "all_documents rs = Inr es" "docs = ds @ es" by auto
  from Cons.IH [OF v(2) d(2)] v(1) d(1,3) show ?case by (subst mongo_replies.simps) simp
qed

lemma mongo_result:
  assumes "cn_connection c = Some client" "cn_database c = Some database" "mg_parse lib (cstr_of sql) = Some command"
    "mg_command lib database command w = (Some cursor, v)" "mongo_delivers lib cursor replies v w'"
    "all_documents replies = Inr docs"
  shows "MONGODB_exec lib c sql n (Some q) None (False, w) =
    Some (Inr (\<not> mg_error lib cursor w', close_result (map (mongo_record lib) docs) 1 (start_result sql n (Some q)),
               mg_error lib cursor w', mg_destroy_cursor lib cursor w'))"
  using assms(1-4) mongo_replies_all [OF assms(5,6), of "[]" True]
  by (simp add: MONGODB_exec_def Let_def)

text \<open>
  A reply as a server writes it: a \<open>cursor\<close> with one batch of documents, the first one or a next one, among
  other entries of the cursor and of the reply.
\<close>

type_synonym entries = "(string \<times> bson) list"

record batch_reply =
  br_before :: entries
  br_inner_before :: entries
  br_first :: bool
  br_documents :: "entries list"
  br_inner_after :: entries
  br_after :: entries

definition written_reply :: "batch_reply \<Rightarrow> entries" where
  "written_reply r =
     br_before r @
     [(''cursor'', B_document (br_inner_before r @
        [(if br_first r then ''firstBatch'' else ''nextBatch'', B_array (map B_document (br_documents r)))] @
        br_inner_after r))] @
     br_after r"

definition one_batch :: "batch_reply \<Rightarrow> bool" where
  "one_batch r \<longleftrightarrow>
     ''cursor'' \<notin> fst ` set (br_before r) \<and>
     (\<forall>k \<in> fst ` set (br_inner_before r @ br_inner_after r). k \<noteq> ''firstBatch'' \<and> k \<noteq> ''nextBatch'')"

lemma batch_documents_other:
  "\<forall>k \<in> fst ` set kvs. k \<noteq> ''firstBatch'' \<and> k \<noteq> ''nextBatch'' \<Longrightarrow> batch_documents (kvs @ rest) = batch_documents rest"
  by (induction kvs) (auto simp: is_batch_def)

lemma array_documents_map: "array_documents (map B_document ds) = filter (\<lambda>d. d \<noteq> []) ds"
  by (induction ds) (auto simp: array_documents_def split: list.splits)

lemma reply_documents_written:
  assumes "one_batch r"
  shows "reply_documents (written_reply r) = Inr (filter (\<lambda>d. d \<noteq> []) (br_documents r))"
proof -
  let ?key = "if br_first r then ''firstBatch'' else ''nextBatch''"
  have b: "batch_documents (br_inner_before r @ (?key, B_array xs) # br_inner_after r) = Inr (array_documents xs)" for xs
    using assms batch_documents_other [of "br_inner_before r" "(?key, B_array xs) # br_inner_after r"]
      batch_documents_other [of "br_inner_after r" "[]"]
    by (simp add: one_batch_def is_batch_def)
  have "map_of (br_before r) ''cursor'' = None" using assms by (simp add: one_batch_def map_of_eq_None_iff)
  then have "map_of (br_before r @ (''cursor'', d) # br_after r) ''cursor'' = Some d" for d
    by (simp add: map_add_def)
  then show ?thesis by (simp add: reply_documents_def written_reply_def b array_documents_map del: batch_documents.simps)
qed

lemma all_documents_written:
  "\<forall>r \<in> set rs. one_batch r \<Longrightarrow>
   all_documents (map written_reply rs) = Inr (filter (\<lambda>d. d \<noteq> []) (concat (map br_documents rs)))"
  by (induction rs) (simp_all add: reply_documents_written)

text \<open>
  C31: MongoDB returns its documents: when each reply has a \<open>cursor\<close> with one batch of documents, \<open>firstBatch\<close> or
  \<open>nextBatch\<close>, among other entries, the result of a command without a callback is one record for every document of the
  batches of all replies, in order, with its JSON text, the length of that text and the label \<open>_bson\<close> as the only field;
  empty documents are left out. When the cursor then reports an error the statement has failed, and the mutex of the
  driver stays locked.
\<close>

theorem mongo_returns_documents:
  assumes "cn_connection c = Some client" "cn_database c = Some database" "mg_parse lib (cstr_of sql) = Some command"
    "mg_command lib database command w = (Some cursor, v)" "mongo_delivers lib cursor (map written_reply rs) v w'"
    "\<forall>r \<in> set rs. one_batch r"
  shows "MONGODB_exec lib c sql n (Some q) None (False, w) =
    Some (Inr (\<not> mg_error lib cursor w',
               close_result
                 (map (\<lambda>d. \<lparr>r_fields = [\<lparr>f_label = ''_bson'', f_value = (if mg_json lib d = [] then None else Some (mg_json lib d)),
                                        f_size = length (mg_json lib d)\<rparr>]\<rparr>)
                    (filter (\<lambda>d. d \<noteq> []) (concat (map br_documents rs)))) 1 (start_result sql n (Some q)),
               mg_error lib cursor w', mg_destroy_cursor lib cursor w'))"
proof -
  have "mongo_record lib = (\<lambda>d. \<lparr>r_fields = [\<lparr>f_label = ''_bson'',
      f_value = (if mg_json lib d = [] then None else Some (mg_json lib d)), f_size = length (mg_json lib d)\<rparr>]\<rparr>)"
    by (auto simp: mongo_record_def mk_field_def MAX_COLUMN_NAME_LEN_def)
  with mongo_result [OF assms(1-5) all_documents_written [OF assms(6)]] show ?thesis by simp
qed

text \<open>A failed cursor stops the driver: no later statement on any connection returns.\<close>

theorem cursor_error_blocks_mongo:
  assumes "cn_connection c = Some client" "cn_database c = Some database" "mg_parse lib (cstr_of sql) = Some command"
    "mg_command lib database command w = (Some cursor, v)" "mongo_delivers lib cursor replies v w'"
    "all_documents replies = Inr docs" "mg_error lib cursor w'" "sqls \<noteq> []"
  shows "\<exists>w2. MONGODB_exec lib c sql n (Some q) None (False, w) =
      Some (Inr (False, close_result (map (mongo_record lib) docs) 1 (start_result sql n (Some q)), True, w2)) \<and>
    exec_all (MONGODB_exec lib d) sqls (True, w2) = None"
proof -
  have "exec_all (MONGODB_exec lib d) sqls (True, w2) = None" for w2
    using assms(8) by (cases sqls) (simp_all add: mongo.waits)
  with mongo_result [OF assms(1-6)] assms(7) show ?thesis by simp
qed

section \<open>The searches of LDAP\<close>

text \<open>
  The LDAP driver returns nothing: whatever the directory answers, the result has no record, the callback is
  not called, and a search that succeeds only prints what it found.
\<close>

theorem ldap_returns_nothing:
  assumes "cn_connection c = Some h" "ld_search lib h (cn_dbname c) (cstr_of sql) w = (Some entries, w')"
  shows "LDAP_exec lib c sql n dst cb (False, w) =
    Some (Inr (True, start_result sql n dst, False, ld_print lib (concat (map ldap_lines entries)) w'))"
  using assms by (simp add: LDAP_exec_def Let_def)

section \<open>Concrete libraries\<close>

text \<open>An Oracle server whose world is the list of what it fetches next: two columns of four characters.\<close>

definition demo_oracle :: "oci_fetch list oracle_library" where
  "demo_oracle =
     \<lparr>or_env_create = (\<lambda>w. (Some 1, w)), or_alloc = (\<lambda>k e w. (2, w)), or_free = (\<lambda>k h w. w),
      or_attach = (\<lambda>h s w. (True, w)), or_set_server = (\<lambda>h k w. w), or_set_login = (\<lambda>h u p w. w),
      or_session_begin = (\<lambda>h k w. (True, w)), or_set_session = (\<lambda>h k w. w), or_session_end = (\<lambda>h k w. w),
      or_detach = (\<lambda>h w. w), or_prepare = (\<lambda>st s w. (True, w)), or_is_select = (\<lambda>st w. (Some True, w)),
      or_execute = (\<lambda>h st n w. (True, w)), or_param = (\<lambda>st k w. (k \<le> 2, w)), or_attr = (\<lambda>st k a w. (Some 4, w)),
      or_name = (\<lambda>st k w. (Some (if k = 1 then ''A'' else ''B''), w)), or_define = (\<lambda>st k n w. w),
      or_fetch = (\<lambda>st w. case w of [] \<Rightarrow> (Oci_no_data, []) | x # xs \<Rightarrow> (x, xs))\<rparr>"

definition demo_oracle_handle :: DB_CONNECTION where
  "demo_oracle_handle = (opened_connection (Some 2) (Some ''id'') True)\<lparr>cn_env := Some 1\<rparr>"

lemma demo_oracle_columns: "oracle_columns demo_oracle 2 1 w = Inr (Some [''A'', ''B''], w)"
  by (simp add: oracle_columns.simps oracle_width_def demo_oracle_def MAX_COLUMNS_def cstr_of_def)

theorem oracle_returns_fetched_rows_witness:
  "ORACLE_exec demo_oracle demo_oracle_handle ''SELECT'' 6 (Some blank_query) None
     (False, [Oci_row [''1'', ''x''], Oci_row [''2'', ''''], Oci_error, Oci_row [''3'', ''y'']]) =
   Some (Inr (True, close_result (mk_records \<lparr>rs_names = [''A'', ''B''], rs_tuples = [[''1'', ''x''], [''2'', '''']]\<rparr>) 2
                (start_result ''SELECT'' 6 (Some blank_query)), False, [Oci_row [''3'', ''y'']]))"
proof -
  let ?w = "[Oci_row [''1'', ''x''], Oci_row [''2'', ''''], Oci_error, Oci_row [''3'', ''y'']]"
  let ?rows = "[[''1'', ''x''], [''2'', '''']]"
  have "oracle_delivers demo_oracle 2 ?rows ?w [Oci_row [''3'', ''y'']]" by (simp add: demo_oracle_def)
  moreover have "?rows = [] \<or> names_fit [''A'', ''B'']" by (simp add: names_fit_def MAX_COLUMN_NAME_LEN_def)
  ultimately show ?thesis
    using oracle_returns_fetched_rows [where lib = demo_oracle and c = demo_oracle_handle and svchp = 2 and w = ?w and stmt = 2
        and ?w2.0 = ?w and ?w3.0 = ?w and ?w4.0 = ?w and ?w5.0 = ?w and ?w6.0 = ?w and ?w1.0 = ?w and errhp = 2 and n = 6
        and sql = "''SELECT''" and names = "[''A'', ''B'']" and rows = ?rows and q = blank_query, OF _ _ _ _ _ _ _ demo_oracle_columns]
    by (simp add: demo_oracle_handle_def oracle_active_def demo_oracle_def numeral_2_eq_2)
qed

text \<open>A MongoDB server whose world is the list of its replies; its cursors fail.\<close>

definition demo_mongo :: "bool \<Rightarrow> (string \<times> bson) list list mongo_library" where
  "demo_mongo bad =
     \<lparr>mg_uri = (\<lambda>s w. (Some 1, w)), mg_client = (\<lambda>u w. (Some 2, w)), mg_database = (\<lambda>c n w. (3, w)), mg_appname = (\<lambda>c n w. w),
      mg_destroy_database = (\<lambda>h w. w), mg_destroy_uri = (\<lambda>h w. w), mg_destroy_client = (\<lambda>h w. w),
      mg_parse = (\<lambda>s. Some (B_scalar s)), mg_command = (\<lambda>d b w. (Some 4, w)),
      mg_next = (\<lambda>c w. case w of [] \<Rightarrow> (None, []) | r # rs \<Rightarrow> (Some r, rs)), mg_error = (\<lambda>c w. bad),
      mg_destroy_cursor = (\<lambda>c w. w), mg_json = (\<lambda>d. ''{}'' @ concat (map fst d))\<rparr>"

definition demo_mongo_handle :: DB_CONNECTION where
  "demo_mongo_handle = (opened_connection (Some 2) (Some ''id'') True)\<lparr>cn_uri := Some 1, cn_database := Some 3\<rparr>"

definition demo_reply :: "(string \<times> bson) list" where
  "demo_reply =
     [(''cursor'', B_document [(''firstBatch'', B_array [B_document [(''a'', B_scalar ''1'')], B_document [], B_scalar ''x'']),
                              (''id'', B_scalar ''0'')])]"

lemma demo_reply_documents: "all_documents [demo_reply, []] = Inr [[(''a'', B_scalar ''1'')]]"
  by (simp add: demo_reply_def reply_documents_def array_documents_def is_batch_def)

definition demo_batches :: "batch_reply list" where
  "demo_batches =
     [\<lparr>br_before = [], br_inner_before = [], br_first = True, br_documents = [[(''a'', B_scalar ''1'')], []],
       br_inner_after = [(''id'', B_scalar ''7'')], br_after = [(''ok'', B_scalar ''1'')]\<rparr>,
      \<lparr>br_before = [(''ok'', B_scalar ''1'')], br_inner_before = [(''id'', B_scalar ''0'')], br_first = False,
       br_documents = [[(''b'', B_scalar ''2'')]], br_inner_after = [], br_after = []\<rparr>]"

theorem mongo_returns_documents_witness:
  "MONGODB_exec (demo_mongo False) demo_mongo_handle ''{find}'' 6 (Some blank_query) None (False, map written_reply demo_batches) =
   Some (Inr (True, close_result [\<lparr>r_fields = [\<lparr>f_label = ''_bson'', f_value = Some ''{}a'', f_size = 3\<rparr>]\<rparr>,
                                  \<lparr>r_fields = [\<lparr>f_label = ''_bson'', f_value = Some ''{}b'', f_size = 3\<rparr>]\<rparr>] 1
                (start_result ''{find}'' 6 (Some blank_query)), False, []))"
proof -
  have d: "mongo_delivers (demo_mongo False) 4 (map written_reply demo_batches) (map written_reply demo_batches) []"
    by (simp add: demo_mongo_def demo_batches_def)
  have "\<forall>r \<in> set demo_batches. one_batch r" by (simp add: demo_batches_def one_batch_def)
  from mongo_returns_documents [OF _ _ _ _ d this, of demo_mongo_handle 2 3 "''{find}''" "B_scalar ''{find}''"
      "map written_reply demo_batches" 6 blank_query]
  show ?thesis
    by (simp add: demo_mongo_handle_def demo_mongo_def cstr_of_def numeral_3_eq_3) (simp add: demo_batches_def)
qed

theorem cursor_error_blocks_mongo_witness:
  "\<exists>w2. exec_all (MONGODB_exec (demo_mongo True) demo_mongo_handle) [''{}''] (True, w2) = None"
proof -
  have "mongo_delivers (demo_mongo True) 4 [demo_reply, []] [demo_reply, []] []" by (simp add: demo_mongo_def)
  moreover have "cn_connection demo_mongo_handle = Some 2" "cn_database demo_mongo_handle = Some 3"
    by (simp_all add: demo_mongo_handle_def)
  moreover have "mg_parse (demo_mongo True) (cstr_of ''{find}'') = Some (B_scalar ''{find}'')"
    "mg_command (demo_mongo True) 3 b w = (Some 4, w)" "mg_error (demo_mongo True) 4 w" for b w
    by (simp_all add: demo_mongo_def cstr_of_def)
  ultimately show ?thesis
    using cursor_error_blocks_mongo [OF _ _ _ _ _ demo_reply_documents, of demo_mongo_handle 2 3 "demo_mongo True" "''{find}''"
        "B_scalar ''{find}''" "[demo_reply, []]" 4 "[demo_reply, []]" "[]" "[''{}'']"]
    by blast
qed

definition demo_ldap :: "string ldap_library" where
  "demo_ldap =
     \<lparr>ld_init = (\<lambda>h p w. (Some 5, w)), ld_set_version = (\<lambda>h n w. w), ld_bind = (\<lambda>h u p w. (True, w)), ld_unbind = (\<lambda>h w. w),
      ld_search = (\<lambda>h b f w. (Some [[(''cn'', [''ann'', ''eve''])]], w)), ld_print = (\<lambda>s w. w @ s)\<rparr>"

theorem ldap_returns_nothing_witness:
  "LDAP_exec demo_ldap (opened_connection (Some 5) None True) ''(cn=*)'' 6 (Some blank_query) None (False, []) =
   Some (Inr (True, start_result ''(cn=*)'' 6 (Some blank_query), False, ''cn: ann'' @ [NL] @ ''cn: eve'' @ [NL]))"
  using ldap_returns_nothing [of "opened_connection (Some 5) None True" 5 demo_ldap "''(cn=*)''" "[]" "[[(''cn'', [''ann'', ''eve''])]]" "[]"]
  by (simp add: demo_ldap_def ldap_lines_def)

end
