(* ===== verification/Flat_Parsers.thy ===== *)
theory Flat_Parsers
  imports Db_Drivers
begin

text \<open>
  \<open>src/file/csv.c\<close> and \<open>src/file/json.c\<close>: the readers of flat files. \<open>CSV_FIELD\<close> and \<open>JSON_FIELD\<close> have
  the layout of \<open>DB_FIELD\<close>, so their records are \<open>DB_RECORD\<close>s. The bytes of an opened file are an
  argument; \<open>cJSON_Parse\<close> is an argument too, its result the datatype \<open>json\<close>.
\<close>

section \<open>CSV lines\<close>

definition CSV_TOKEN_SIZE :: nat where "CSV_TOKEN_SIZE = 1024"

text \<open>
  The loop of \<open>_CSV_parse_line\<close>: whether inside quotes, the token so far, the values so far, the rest
  of the line. Every character is first stored in \<open>token[1024]\<close>; a quote that is not followed by
  another is taken out again and flips the flag; of two quotes in a row the second is skipped. A value is the
  token up to its first NUL, and an empty one is a null pointer.
\<close>

definition csv_value :: "string \<Rightarrow> string option" where
  "csv_value token = (if cstr_of token = [] then None else Some (cstr_of token))"

lemma csv_value_cstring [simp]: "cstring token \<Longrightarrow> csv_value token = (if token = [] then None else Some token)"
  by (simp add: csv_value_def)

function csv_loop ::
  "char \<Rightarrow> bool \<Rightarrow> string \<Rightarrow> string option list \<Rightarrow> string \<Rightarrow> string option list outcome" where
  "csv_loop d q tok vals [] = Inr vals"
| "csv_loop d q tok vals (c # cs) =
     (if CSV_TOKEN_SIZE \<le> length tok then Inl Out_of_bounds
      else
        (let next_char = (case cs of [] \<Rightarrow> NUL | n # _ \<Rightarrow> n);
             ends = (\<not> q \<and> (c = d \<or> c = NL));
             tok' = (if ends then [] else tok @ [c]);
             vals' = (if ends then vals @ [csv_value tok] else vals)
         in if c = DQ \<and> next_char \<noteq> DQ
            then if tok' = [] then Inl Out_of_bounds else csv_loop d (\<not> q) (butlast tok') vals' cs
            else if c = DQ then csv_loop d q tok' vals' (tl cs)
            else csv_loop d q tok' vals' cs))"
  by pat_completeness auto
termination
  by (relation "measure (\<lambda>(d, q, tok, vals, s). length s)") auto

text \<open>
  The \<open>do .. while\<close> handles the first character whatever it is, and stops at the next NUL. \<open>fgets\<close> gives no line
  without a character.
\<close>

definition CSV_parse_line :: "string \<Rightarrow> char \<Rightarrow> string option list outcome" where
  "CSV_parse_line line delimiter =
     (case line of
        [] \<Rightarrow> Inl Uninitialised
      | c # rest \<Rightarrow> csv_loop delimiter False [] [] (c # cstr_of rest))"

lemma CSV_parse_line_cstring:
  "cstring line \<Longrightarrow> line \<noteq> [] \<Longrightarrow> CSV_parse_line line d = csv_loop d False [] [] line"
  by (cases line) (simp_all add: CSV_parse_line_def del: csv_loop.simps)

section \<open>CSV files\<close>

text \<open>\<open>fgets\<close> with a buffer of \<open>n\<close> bytes: up to \<open>n - 1\<close> characters, ending after a newline.\<close>

fun fgets_take :: "nat \<Rightarrow> string \<Rightarrow> string \<times> string" where
  "fgets_take 0 s = ([], s)"
| "fgets_take (Suc n) [] = ([], [])"
| "fgets_take (Suc n) (c # cs) =
     (if c = NL then ([c], cs) else (case fgets_take n cs of (l, r) \<Rightarrow> (c # l, r)))"

lemma fgets_take_split: "fgets_take n s = (l, r) \<Longrightarrow> s = l @ r \<and> length l \<le> n \<and> (0 < n \<and> s \<noteq> [] \<longrightarrow> l \<noteq> [])"
  by (induction n s arbitrary: l r rule: fgets_take.induct) (auto split: if_splits prod.splits)

lemma fgets_take_less: "0 < n \<Longrightarrow> s \<noteq> [] \<Longrightarrow> length (snd (fgets_take n s)) < length s"
  using fgets_take_split [of n s "fst (fgets_take n s)" "snd (fgets_take n s)"]
  by (metis length_append length_greater_0_conv less_add_same_cancel2 prod.collapse)

function fgets_lines :: "nat \<Rightarrow> string \<Rightarrow> string list" where
  "fgets_lines n s =
     (if s = [] \<or> n \<le> 1 then []
      else fst (fgets_take (n - 1) s) # fgets_lines n (snd (fgets_take (n - 1) s)))"
  by pat_completeness auto
termination
  by (relation "measure (\<lambda>(n, s). length s)") (use fgets_take_less in auto)

declare fgets_lines.simps [simp del]

text \<open>
  One row against the header: the \<open>i\<close>-th value is read at index \<open>i\<close> of an array that has one slot more
  than the row has values, the last of them never written; an empty header name is a NULL label.
\<close>

fun csv_fields :: "string option list \<Rightarrow> string option list \<Rightarrow> DB_FIELD list outcome" where
  "csv_fields [] vals = Inr []"
| "csv_fields (col # cols) [] = Inl Uninitialised"
| "csv_fields (col # cols) (v # vals) =
     (case col of
        None \<Rightarrow> Inl Null_pointer
      | Some name \<Rightarrow>
          if MAX_COLUMN_NAME_LEN \<le> length name then Inl Out_of_bounds
          else obind (csv_fields cols vals)
            (\<lambda>fs. Inr (\<lparr>f_label = name, f_value = v, f_size = (case v of None \<Rightarrow> 0 | Some x \<Rightarrow> length x)\<rparr> # fs)))"

fun csv_rows :: "char \<Rightarrow> string option list \<Rightarrow> 'w qec \<Rightarrow> string list \<Rightarrow> 'w \<Rightarrow> 'w outcome" where
  "csv_rows d columns cb [] w = Inr w"
| "csv_rows d columns cb (l # ls) w =
     (if columns = [] then csv_rows d columns cb ls w
      else obind (CSV_parse_line l d) (\<lambda>row_values.
           obind (csv_fields columns row_values) (\<lambda>fs.
           obind (cb \<lparr>r_fields = fs\<rparr> w) (csv_rows d columns cb ls))))"

text \<open>
  \<open>content\<close> is what \<open>FILE_open\<close> gives. The column count is only set by the first line, and read after
  the loop even when there was none.
\<close>

definition CSV_FILE_load :: "char \<Rightarrow> string option \<Rightarrow> 'w qec \<Rightarrow> 'w \<Rightarrow> (bool \<times> 'w) outcome" where
  "CSV_FILE_load delimiter content cb w =
     (case content of
        None \<Rightarrow> Inr (False, w)
      | Some bytes \<Rightarrow>
          (case fgets_lines 8192 bytes of
             [] \<Rightarrow> Inl Uninitialised
           | header # rows \<Rightarrow>
               obind (CSV_parse_line header delimiter) (\<lambda>columns.
               obind (csv_rows delimiter columns cb rows w) (\<lambda>w. Inr (True, w)))))"

section \<open>JSON documents\<close>

text \<open>A number is given by its value cast to \<open>int\<close>, the only way the sources read it.\<close>

datatype json =
    JNull
  | JBool bool
  | JNumber int
  | JString string
  | JArray "json list"
  | JObject "(string \<times> json) list"

text \<open>The children of a node with their keys, as \<open>cJSON_ArrayForEach\<close> walks them.\<close>

fun json_children :: "json \<Rightarrow> (string option \<times> json) list" where
  "json_children (JArray xs) = map (\<lambda>x. (None, x)) xs"
| "json_children (JObject kvs) = map (\<lambda>(k, v). (Some k, v)) kvs"
| "json_children _ = []"

definition cJSON_GetArrayItem :: "json \<Rightarrow> nat \<Rightarrow> json option" where
  "cJSON_GetArrayItem j i = (if i < length (json_children j) then Some (snd (json_children j ! i)) else None)"

definition json_value :: "json option \<Rightarrow> string option" where
  "json_value j =
     (case j of
        Some (JString s) \<Rightarrow> Some s
      | Some (JNumber i) \<Rightarrow> Some (show_int i)
      | Some (JBool b) \<Rightarrow> Some (if b then ''true'' else ''false'')
      | _ \<Rightarrow> None)"

definition json_field :: "string \<Rightarrow> json option \<Rightarrow> DB_FIELD" where
  "json_field label j =
     \<lparr>f_label = label, f_value = json_value j,
      f_size = (case json_value j of None \<Rightarrow> 0 | Some s \<Rightarrow> length s)\<rparr>"

text \<open>The labels of the first record; an element without key has no name to copy.\<close>

fun json_labels :: "(string option \<times> json) list \<Rightarrow> string list outcome" where
  "json_labels [] = Inr []"
| "json_labels ((k, _) # cs) =
     (case k of
        None \<Rightarrow> Inl Null_pointer
      | Some name \<Rightarrow>
          if MAX_COLUMN_NAME_LEN \<le> length name then Inl Out_of_bounds
          else obind (json_labels cs) (\<lambda>ls. Inr (name # ls)))"

definition json_record :: "string list \<Rightarrow> json \<Rightarrow> DB_RECORD" where
  "json_record labels data =
     \<lparr>r_fields = map (\<lambda>i. json_field (labels ! i) (cJSON_GetArrayItem data i)) [0..<length labels]\<rparr>"

definition JSON_FILE_load ::
  "(string \<Rightarrow> json option) \<Rightarrow> string option \<Rightarrow> 'w qec \<Rightarrow> 'w \<Rightarrow> (bool \<times> 'w) outcome" where
  "JSON_FILE_load cJSON_Parse file_content cb w =
     (case file_content of
        None \<Rightarrow> Inr (False, w)
      | Some txt \<Rightarrow>
          (case cJSON_Parse txt of
             None \<Rightarrow> Inr (False, w)
           | Some doc \<Rightarrow>
               (case map snd (json_children doc) of
                  [] \<Rightarrow> Inl Uninitialised
                | first # rest \<Rightarrow>
                    obind (json_labels (json_children first)) (\<lambda>labels.
                    obind (run_callback cb (map (json_record labels) (first # rest)) w) (\<lambda>w.
                      Inr (True, w))))))"

section \<open>Quoted fields are read back\<close>

text \<open>The usual writer: quotes doubled, the field in quotes, the last one ended by a newline.\<close>

fun csv_escape :: "string \<Rightarrow> string" where
  "csv_escape [] = []"
| "csv_escape (c # cs) = (if c = DQ then [DQ, DQ] else [c]) @ csv_escape cs"

definition csv_quote :: "string \<Rightarrow> string" where
  "csv_quote f = DQ # csv_escape f @ [DQ]"

fun csv_write :: "char \<Rightarrow> string list \<Rightarrow> string" where
  "csv_write d [] = []"
| "csv_write d [f] = csv_quote f @ [NL]"
| "csv_write d (f # fs) = csv_quote f @ d # csv_write d fs"

definition csv_plain :: "string \<Rightarrow> bool" where
  "csv_plain f \<longleftrightarrow> cstring f \<and> (\<exists>c \<in> set f. c \<noteq> DQ) \<and> length f < CSV_TOKEN_SIZE"

lemma csv_body:
  "t \<noteq> DQ \<Longrightarrow> length tok + length f < CSV_TOKEN_SIZE \<Longrightarrow>
   csv_loop d True tok vals (csv_escape f @ DQ # t # rest) = csv_loop d False (tok @ f) vals (t # rest)"
proof (induction f arbitrary: tok)
  case (Cons c f)
  from Cons.IH [of "tok @ [c]"] Cons.prems show ?case by (auto simp: Let_def)
qed (auto simp: Let_def)

lemma csv_opening:
  "t \<noteq> DQ \<Longrightarrow> d \<noteq> DQ \<Longrightarrow> length tok + length f < CSV_TOKEN_SIZE \<Longrightarrow> \<exists>c \<in> set f. c \<noteq> DQ \<Longrightarrow>
   csv_loop d False tok vals (DQ # csv_escape f @ DQ # t # rest) = csv_loop d False (tok @ f) vals (t # rest)"
proof (induction f arbitrary: tok)
  case (Cons c f)
  show ?case
  proof (cases "c = DQ")
    case True
    with Cons.IH [of "tok @ [DQ]"] Cons.prems show ?thesis by (auto simp: Let_def)
  next
    case False
    have "csv_loop d True tok vals (csv_escape (c # f) @ DQ # t # rest) =
        csv_loop d False (tok @ c # f) vals (t # rest)"
      using csv_body Cons.prems by blast
    with False Cons.prems show ?thesis by (auto simp: Let_def)
  qed
qed simp

lemma csv_quoted_field:
  assumes "t \<noteq> DQ" "d \<noteq> DQ" "t = d \<or> t = NL" "csv_plain f"
  shows "csv_loop d False [] vals (csv_quote f @ t # rest) = csv_loop d False [] (vals @ [Some f]) rest"
proof -
  have "csv_loop d False [] vals (csv_quote f @ t # rest) = csv_loop d False f vals (t # rest)"
    using csv_opening [of t d "[]" f vals rest] assms by (simp add: csv_quote_def csv_plain_def)
  with assms show ?thesis by (auto simp: csv_plain_def Let_def)
qed

lemma csv_write_nonempty: "fs \<noteq> [] \<Longrightarrow> csv_write d fs \<noteq> []"
  by (cases "(d, fs)" rule: csv_write.cases) (auto simp: csv_quote_def)

lemma csv_loop_write:
  "d \<noteq> DQ \<Longrightarrow> \<forall>f \<in> set fs. csv_plain f \<Longrightarrow>
   csv_loop d False [] vals (csv_write d fs) = Inr (vals @ map Some fs)"
proof (induction d fs arbitrary: vals rule: csv_write.induct)
  case (2 d f)
  then show ?case using csv_quoted_field [of NL d f vals "[]"] by simp
next
  case (3 d f g fs)
  then show ?case using csv_quoted_field [of d d f vals "csv_write d (g # fs)"] by simp
qed simp

lemma cstring_csv_escape [simp]: "cstring (csv_escape f) \<longleftrightarrow> cstring f"
  by (induction f) (auto simp: cstring_def)

lemma cstring_csv_write: "d \<noteq> NUL \<Longrightarrow> \<forall>f \<in> set fs. cstring f \<Longrightarrow> cstring (csv_write d fs)"
  by (induction d fs rule: csv_write.induct) (auto simp: csv_quote_def)

text \<open>
  C13: Round trip of the CSV reader: a line in which every field is quoted and every quote inside doubled is read
  back as exactly those fields, whatever delimiters and newlines they contain, when there is a field and each holds at
  least one character that is not a quote (so none is empty), has no NUL and is shorter than 1024 characters, and the
  delimiter is neither a quote nor NUL. A field of quotes only, or an empty one, is not read back.
\<close>

theorem csv_round_trip:
  assumes "d \<noteq> DQ" "d \<noteq> NUL" "fs \<noteq> []" "\<forall>f \<in> set fs. cstring f \<and> (\<exists>c \<in> set f. c \<noteq> DQ) \<and> length f < 1024"
  shows "CSV_parse_line (csv_write d fs) d = Inr (map Some fs)"
proof -
  have "cstring (csv_write d fs)" using assms(2,4) by (intro cstring_csv_write) auto
  with csv_loop_write [of d fs "[]"] csv_write_nonempty [of fs d] assms show ?thesis
    by (simp add: CSV_parse_line_cstring csv_plain_def CSV_TOKEN_SIZE_def)
qed

theorem csv_round_trip_witness:
  "CSV_parse_line (csv_write (CHR '';'') [''a;b'', DQ # ''c'' @ [DQ]]) (CHR '';'') =
   Inr [Some ''a;b'', Some (DQ # ''c'' @ [DQ])]"
  using csv_round_trip [of "CHR '';''" "[''a;b'', DQ # ''c'' @ [DQ]]"] by simp

lemma csv_escape_quotes: "csv_escape (replicate n DQ) = replicate (2 * n) DQ"
  by (induction n) auto

lemma csv_loop_quote_run:
  "d \<noteq> DQ \<Longrightarrow> length tok + n < CSV_TOKEN_SIZE \<Longrightarrow> t \<noteq> DQ \<Longrightarrow>
   csv_loop d False tok vals (replicate (2 * n) DQ @ t # rest) =
     csv_loop d False (tok @ replicate n DQ) vals (t # rest)"
proof (induction n arbitrary: tok)
  case (Suc n)
  have "csv_loop d False tok vals (replicate (2 * Suc n) DQ @ t # rest) =
      csv_loop d False (tok @ [DQ]) vals (replicate (2 * n) DQ @ t # rest)"
    using Suc.prems by (simp add: Let_def)
  with Suc.IH [of "tok @ [DQ]"] Suc.prems show ?case
    by (simp add: replicate_append_same)
qed simp

lemma csv_quote_run_line:
  assumes "d \<noteq> DQ" "d \<noteq> NUL" "n + 1 < CSV_TOKEN_SIZE"
  shows "CSV_parse_line (csv_write d [replicate n DQ]) d = Inr [Some (replicate (n + 1) DQ)]"
proof -
  have run: "csv_quote (replicate n DQ) @ [NL] = replicate (2 * (n + 1)) DQ @ NL # []"
    by (simp add: csv_quote_def csv_escape_quotes replicate_append_same)
  have "csv_loop d False [] [] (replicate (2 * (n + 1)) DQ @ NL # []) =
      csv_loop d False (replicate (n + 1) DQ) [] [NL]"
    using csv_loop_quote_run [of d "[]" "n + 1" NL "[]" "[]"] assms by simp
  also have "\<dots> = Inr [Some (replicate (n + 1) DQ)]"
    using assms(3) by (simp add: Let_def cstring_def)
  moreover have "cstring (replicate (2 * (n + 1)) DQ @ NL # [])" by (simp add: cstring_def)
  ultimately show ?thesis
    unfolding csv_write.simps run by (simp add: CSV_parse_line_cstring)
qed

text \<open>
  The limit of the round trip: a quoted field made of \<open>n\<close> quotes only (so the empty field, with
  \<open>n = 0\<close>) is read as \<open>n + 1\<close> quotes.
\<close>

theorem csv_all_quotes_field:
  assumes "d \<noteq> DQ" "d \<noteq> NUL" "n < 1023"
  shows "CSV_parse_line (csv_write d [replicate n DQ]) d = Inr [Some (replicate (n + 1) DQ)]"
  using csv_quote_run_line [of d n] assms by (simp add: CSV_TOKEN_SIZE_def)

theorem csv_all_quotes_field_witness:
  "CSV_parse_line (csv_write (CHR '';'') [[]]) (CHR '';'') = Inr [Some [DQ]]"
  using csv_all_quotes_field [of "CHR '';''" 0] by simp

end
