(* ===== verification/Db_System.thy ===== *)
theory Db_System
  imports Flat_Parsers
begin

text \<open>
  \<open>src/core/db/system.c\<close>, \<open>src/include/core/db/etl_schema.h\<close> and \<open>system_schema.h\<close>: the configuration
  of the data systems, the dispatch of a statement to a driver (\<open>DB_exec\<close>), and the life cycle of a
  database entry and of a data system. Pointers to text are \<open>string option\<close>. The drivers other
  than PostgreSQL, MySQL and MariaDB are functions of the \<open>drivers\<close> record, which \<open>Db_Stack\<close> fills with all eight.
\<close>

section \<open>Database entries\<close>

datatype DB_DRIVER =
    D_POSTGRESQL | D_MYSQL | D_MARIADB | D_ODBC | D_ORACLE | D_SQLITE | D_MONGODB | D_LDAP

text \<open>The driver field holds any integer: \<open>None\<close> stands for the ones outside the enumeration.\<close>

record DATABASE_SYSTEM_DB =
  db_ip :: "string option"
  db_port :: int
  db_driver :: "DB_DRIVER option"
  db_user :: "string option"
  db_password :: "string option"
  db_connection_string :: "string option"
  db_db :: "string option"
  db_conn :: DB_CONNECTION
  db_name :: "string option"

type_synonym 'w exec_fun =
  "DB_CONNECTION \<Rightarrow> char list \<Rightarrow> nat \<Rightarrow> DB_QUERY option \<Rightarrow> 'w qec option \<Rightarrow> 'w \<Rightarrow>
   (bool \<times> DB_QUERY option \<times> 'w) outcome"

record 'w drivers =
  drv_pg :: "'w client_library"
  drv_mysql :: "'w client_library"
  drv_mariadb :: "'w client_library"
  drv_other_exec :: "DB_DRIVER \<Rightarrow> 'w exec_fun"
  drv_other_connect :: "DB_DRIVER \<Rightarrow> DATABASE_SYSTEM_DB \<Rightarrow> 'w \<Rightarrow> bool \<times> DB_CONNECTION \<times> 'w"
  drv_other_disconnect :: "DB_DRIVER \<Rightarrow> DB_CONNECTION \<Rightarrow> 'w \<Rightarrow> DB_CONNECTION \<times> 'w"

definition driver_exec :: "'w drivers \<Rightarrow> DB_DRIVER option \<Rightarrow> 'w exec_fun" where
  "driver_exec drv d =
     (case d of
        Some D_POSTGRESQL \<Rightarrow> PG_exec (drv_pg drv)
      | Some D_MYSQL \<Rightarrow> MYSQL_exec (drv_mysql drv)
      | Some D_MARIADB \<Rightarrow> MARIADB_exec (drv_mariadb drv)
      | Some other \<Rightarrow> drv_other_exec drv other
      | None \<Rightarrow> (\<lambda>c sql n dst cb w. Inr (False, dst, w)))"

text \<open>
  \<open>DB_exec\<close>: format, then run the bound statement, or the template with the caller's length when there
  is nothing to bind. The template's buffer ends with its NUL; a caller that passes more than the
  length of the text passes a buffer that is zero up to there.
\<close>

definition DB_exec ::
  "'w drivers \<Rightarrow> DATABASE_SYSTEM_DB \<Rightarrow> string option \<Rightarrow> nat \<Rightarrow> DB_QUERY option \<Rightarrow> string list \<Rightarrow>
   'w qec option \<Rightarrow> 'w \<Rightarrow> (bool \<times> DB_QUERY option \<times> 'w) outcome" where
  "DB_exec drv db sql_template sql_length dst_result param_values cb w =
     obind (DB_QUERY_format sql_template None 0 param_values) (\<lambda>(ok, sql_bound, sql_bound_len).
       if \<not> ok then Inr (False, dst_result, w)
       else
         (case sql_bound of
            Some buf \<Rightarrow> driver_exec drv (db_driver db) (db_conn db) buf sql_bound_len dst_result cb w
          | None \<Rightarrow>
              (case sql_template of
                 Some sql \<Rightarrow> driver_exec drv (db_driver db) (db_conn db)
                               (sql @ replicate (sql_length - length sql) NUL @ [NUL]) sql_length dst_result cb w
               | None \<Rightarrow> Inl Null_pointer)))"

text \<open>A connection string that is not given leaves the field of the destination as it was.\<close>

definition DATABASE_SYSTEM_DB_add ::
  "string option \<Rightarrow> int \<Rightarrow> DB_DRIVER option \<Rightarrow> string option \<Rightarrow> string option \<Rightarrow> string option \<Rightarrow>
   string option \<Rightarrow> DATABASE_SYSTEM_DB \<Rightarrow> string option \<Rightarrow> DATABASE_SYSTEM_DB outcome" where
  "DATABASE_SYSTEM_DB_add ip port driver user password db connection_string dst name =
     (if name = None \<or> ip = None \<or> user = None \<or> password = None \<or> db = None then Inl Null_pointer
      else Inr (dst\<lparr>db_name := name, db_ip := ip, db_port := port, db_driver := driver,
                   db_conn := (if driver = None then db_conn dst else (db_conn dst)\<lparr>cn_active := False\<rparr>),
                   db_user := user, db_password := password, db_db := db,
                   db_connection_string :=
                     (case connection_string of None \<Rightarrow> db_connection_string dst | Some s \<Rightarrow> Some s)\<rparr>))"

definition driver_disconnect :: "'w drivers \<Rightarrow> DB_DRIVER \<Rightarrow> DB_CONNECTION \<Rightarrow> 'w \<Rightarrow> DB_CONNECTION \<times> 'w" where
  "driver_disconnect drv d c w =
     (case d of
        D_POSTGRESQL \<Rightarrow> (case PG_disconnect (drv_pg drv) (Some c) w of
                           (Some c', w) \<Rightarrow> (c', w) | (None, w) \<Rightarrow> (c, w))
      | D_MYSQL \<Rightarrow> MYSQL_disconnect (drv_mysql drv) c w
      | D_MARIADB \<Rightarrow> MARIADB_disconnect (drv_mariadb drv) c w
      | other \<Rightarrow> drv_other_disconnect drv other c w)"

definition DATABASE_SYSTEM_DB_close ::
  "'w drivers \<Rightarrow> DATABASE_SYSTEM_DB \<Rightarrow> 'w \<Rightarrow> DATABASE_SYSTEM_DB \<times> 'w" where
  "DATABASE_SYSTEM_DB_close drv db w =
     (case db_driver db of
        Some d \<Rightarrow>
          if cn_active (db_conn db)
          then (case driver_disconnect drv d (db_conn db) w of (c, w) \<Rightarrow> (db\<lparr>db_conn := c\<rparr>, w))
          else (db, w)
      | None \<Rightarrow> (db, w))"

definition DATABASE_SYSTEM_DB_free ::
  "'w drivers \<Rightarrow> DATABASE_SYSTEM_DB \<Rightarrow> 'w \<Rightarrow> DATABASE_SYSTEM_DB \<times> 'w" where
  "DATABASE_SYSTEM_DB_free drv db w =
     (let db = db\<lparr>db_ip := None, db_user := None, db_password := None, db_db := None,
                  db_connection_string := None, db_name := None\<rparr>;
          (db, w) = DATABASE_SYSTEM_DB_close drv db w
      in (db\<lparr>db_driver := None\<rparr>, w))"

definition the_str :: "string option \<Rightarrow> string" where
  "the_str s = (case s of Some x \<Rightarrow> x | None \<Rightarrow> [])"

definition DATABASE_SYSTEM_DB_init ::
  "'w drivers \<Rightarrow> DATABASE_SYSTEM_DB \<Rightarrow> 'w \<Rightarrow> bool \<times> DATABASE_SYSTEM_DB \<times> 'w" where
  "DATABASE_SYSTEM_DB_init drv db w =
     (let run = (\<lambda>conn lib. conn lib (db_conn db) (the_str (db_ip db)) (db_port db) (the_str (db_db db))
                   (the_str (db_user db)) (the_str (db_password db)) (db_connection_string db)
                   (the_str (db_name db)) w)
      in case db_driver db of
           None \<Rightarrow> (False, db, w)
         | Some d \<Rightarrow>
             (case (case d of
                      D_POSTGRESQL \<Rightarrow> run PG_connect (drv_pg drv)
                    | D_MYSQL \<Rightarrow> run MYSQL_connect (drv_mysql drv)
                    | D_MARIADB \<Rightarrow> run MARIADB_connect (drv_mariadb drv)
                    | other \<Rightarrow> drv_other_connect drv other db w) of
                (ok, c, w) \<Rightarrow> (ok, db\<lparr>db_conn := c\<rparr>, w)))"

text \<open>\<open>DATABASE_SYSTEM_DB_get\<close> over the array \<open>P_APP.DB\<close>.\<close>

definition DATABASE_SYSTEM_DB_get :: "DATABASE_SYSTEM_DB list \<Rightarrow> string \<Rightarrow> DATABASE_SYSTEM_DB option" where
  "DATABASE_SYSTEM_DB_get dbs name = List.find (\<lambda>d. db_name d = Some name) dbs"

section \<open>ETL configuration\<close>

datatype DB_SYSTEM_ETL_STEP = ETL_EXTRACT | ETL_TRANSFORM | ETL_LOAD

text \<open>The field takes any number of the configuration; \<open>M_other\<close> stands for those outside the enumeration.\<close>

datatype DB_SYSTEM_MODE = M_ETL | M_ELT | M_other

record DB_SYSTEM_ETL_EXTRACT_QUERY =
  eq_primary_db :: "string option"
  eq_primary_db_sql :: "string option"
  eq_primary_db_result_replace :: "(string \<times> string) list"
  eq_primary_db_sql_len :: nat
  eq_secondary_db :: "string option"
  eq_secondary_db_sql :: "string option"
  eq_secondary_db_result_replace :: "(string \<times> string) list"
  eq_secondary_db_sql_len :: nat

record DB_SYSTEM_ETL_EXTRACT =
  ex_inserted :: DB_SYSTEM_ETL_EXTRACT_QUERY
  ex_deleted :: DB_SYSTEM_ETL_EXTRACT_QUERY
  ex_modified :: DB_SYSTEM_ETL_EXTRACT_QUERY

record DB_SYSTEM_ETL_STAGE_QUERY =
  sq_sql :: "string option"
  sq_sql_len :: nat
  sq_extracted_values :: "string list"

record DB_SYSTEM_ETL_STAGE =
  st_inserted :: "DB_SYSTEM_ETL_STAGE_QUERY list"
  st_deleted :: "DB_SYSTEM_ETL_STAGE_QUERY list"
  st_modified :: "DB_SYSTEM_ETL_STAGE_QUERY list"

record DB_SYSTEM_ETL_TRANSFORM_QUERY =
  tq_module :: string
  tq_staged_data :: string
  tq_source_system_update :: "string option"
  tq_api_key :: "string option"

record DB_SYSTEM_ETL_TRANSFORM =
  tr_inserted :: "DB_SYSTEM_ETL_TRANSFORM_QUERY list"
  tr_deleted :: "DB_SYSTEM_ETL_TRANSFORM_QUERY list"
  tr_modified :: "DB_SYSTEM_ETL_TRANSFORM_QUERY list"

record DB_SYSTEM_ETL_LOAD_QUERY_TARGET =
  lt_output_data_sql :: "string option"
  lt_output_data_sql_len :: nat
  lt_extracted_values :: "string list"

text \<open>The target array and its count are separate: releasing the one leaves the other.\<close>

record DB_SYSTEM_ETL_LOAD_QUERY =
  lq_input_data_sql :: "string option"
  lq_input_data_sql_len :: nat
  lq_target :: "DB_SYSTEM_ETL_LOAD_QUERY_TARGET list"
  lq_target_count :: nat

record DB_SYSTEM_ETL_LOAD =
  ld_inserted :: DB_SYSTEM_ETL_LOAD_QUERY
  ld_deleted :: DB_SYSTEM_ETL_LOAD_QUERY
  ld_modified :: DB_SYSTEM_ETL_LOAD_QUERY

record DB_SYSTEM_ETL =
  etl_pre_actions :: "string list"
  etl_extract :: DB_SYSTEM_ETL_EXTRACT
  etl_stage :: "DB_SYSTEM_ETL_STAGE option"
  etl_transform :: "DB_SYSTEM_ETL_TRANSFORM option"
  etl_load :: DB_SYSTEM_ETL_LOAD
  etl_post_actions :: "string list"

record DATABASE_SYSTEM_QUERY =
  qu_name :: "string option"
  qu_mode :: DB_SYSTEM_MODE
  qu_etl_config :: DB_SYSTEM_ETL

definition extract_query_free :: "DB_SYSTEM_ETL_EXTRACT_QUERY \<Rightarrow> DB_SYSTEM_ETL_EXTRACT_QUERY" where
  "extract_query_free q =
     q\<lparr>eq_primary_db_sql := None, eq_secondary_db_sql := None, eq_primary_db := None,
       eq_primary_db_result_replace := [], eq_secondary_db := None, eq_secondary_db_result_replace := []\<rparr>"

text \<open>
  The targets are walked by \<open>target_count\<close>, which is not reset: a second release dereferences the
  NULL array.
\<close>

definition load_query_free :: "DB_SYSTEM_ETL_LOAD_QUERY \<Rightarrow> DB_SYSTEM_ETL_LOAD_QUERY outcome" where
  "load_query_free q =
     (if lq_target_count q \<le> length (lq_target q)
      then Inr (q\<lparr>lq_input_data_sql := None, lq_target := []\<rparr>)
      else Inl Null_pointer)"

definition SYSTEM_ETL_CONFIG_free :: "DB_SYSTEM_ETL \<Rightarrow> DB_SYSTEM_ETL outcome" where
  "SYSTEM_ETL_CONFIG_free dst =
     obind (load_query_free (ld_inserted (etl_load dst))) (\<lambda>li.
     obind (load_query_free (ld_deleted (etl_load dst))) (\<lambda>ld.
     obind (load_query_free (ld_modified (etl_load dst))) (\<lambda>lm.
       Inr \<lparr>etl_pre_actions = [],
            etl_extract = \<lparr>ex_inserted = extract_query_free (ex_inserted (etl_extract dst)),
                           ex_deleted = extract_query_free (ex_deleted (etl_extract dst)),
                           ex_modified = extract_query_free (ex_modified (etl_extract dst))\<rparr>,
            etl_stage = None, etl_transform = None,
            etl_load = \<lparr>ld_inserted = li, ld_deleted = ld, ld_modified = lm\<rparr>,
            etl_post_actions = []\<rparr>)))"

definition SYSTEM_QUERY_free :: "DATABASE_SYSTEM_QUERY \<Rightarrow> DATABASE_SYSTEM_QUERY outcome" where
  "SYSTEM_QUERY_free dst =
     obind (SYSTEM_ETL_CONFIG_free (qu_etl_config dst))
       (\<lambda>etl. Inr (dst\<lparr>qu_name := None, qu_mode := M_ETL, qu_etl_config := etl\<rparr>))"

text \<open>
  \<open>DATABASE_SYSTEM_QUERY_add\<close> copies the configuration and, when verbose, prints all of it. The
  transformation is dereferenced whether or not there is one, verbose or not; the \<open>i\<close>-th deleted
  target is printed with the statement of the \<open>i\<close>-th inserted one; the values of the \<open>i\<close>-th deleted
  and modified targets are printed as slot \<open>i\<close> of an array of 32.
\<close>

definition MAX_ETL_COLUMNS :: nat where "MAX_ETL_COLUMNS = 32"

definition slot_read_ok :: "DB_SYSTEM_ETL_LOAD_QUERY_TARGET list \<Rightarrow> bool" where
  "slot_read_ok ts \<longleftrightarrow> (\<forall>t \<in> set (drop MAX_ETL_COLUMNS ts). lt_extracted_values t = [])"

definition DATABASE_SYSTEM_QUERY_add ::
  "string option \<Rightarrow> DB_SYSTEM_MODE \<Rightarrow> DB_SYSTEM_ETL \<Rightarrow> bool \<Rightarrow> DATABASE_SYSTEM_QUERY outcome" where
  "DATABASE_SYSTEM_QUERY_add name mode etl verbose =
     (let ins = lq_target (ld_inserted (etl_load etl)); del = lq_target (ld_deleted (etl_load etl));
          md = lq_target (ld_modified (etl_load etl)) in
      if name = None \<or> etl_transform etl = None then Inl Null_pointer
      else if verbose \<and> (length ins < length del \<or> \<not> slot_read_ok del \<or> \<not> slot_read_ok md)
        then Inl Out_of_bounds
      else Inr \<lparr>qu_name = name, qu_mode = mode, qu_etl_config = etl\<rparr>)"

section \<open>Data systems\<close>

datatype FLAT_FILE_TYPE = FFT_CSV | FFT_JSON | FFT_TSV | FFT_PSV | FFT_XML

record HTTP_DATA =
  http_active :: int
  http_headers :: "(string \<times> string) list"
  http_payload :: "string option"
  http_payload_len :: nat
  http_method :: "string option"

text \<open>\<open>ff_csv_delimiter\<close> is the delimiter of \<open>csv_file\<close>, the one the reader is given.\<close>

record DATABASE_SYSTEM_FLAT_FILE =
  ff_preprocessor :: "string option"
  ff_name :: string
  ff_columns :: "string list"
  ff_load_sql :: string
  ff_delimiter :: char
  ff_csv_delimiter :: "char option"
  ff_json :: bool
  ff_type :: FLAT_FILE_TYPE
  ff_http :: HTTP_DATA

record DATABASE_SYSTEM =
  sy_name :: "string option"
  sy_system_db :: DATABASE_SYSTEM_DB
  sy_dcpam_db :: DATABASE_SYSTEM_DB
  sy_staging_db :: "DATABASE_SYSTEM_DB option"
  sy_queries :: "DATABASE_SYSTEM_QUERY list"
  sy_flat_file :: "DATABASE_SYSTEM_FLAT_FILE option"
  sy_failure :: int

definition MAX_DATA_SYSTEMS :: nat where "MAX_DATA_SYSTEMS = 4"
definition MAX_SYSTEM_QUERIES :: nat where "MAX_SYSTEM_QUERIES = 32"

fun add_queries :: "DATABASE_SYSTEM_QUERY list \<Rightarrow> DATABASE_SYSTEM_QUERY list outcome" where
  "add_queries [] = Inr []"
| "add_queries (q # qs) =
     obind (DATABASE_SYSTEM_QUERY_add (qu_name q) (qu_mode q) (qu_etl_config q) True) (\<lambda>q'.
     obind (add_queries qs) (\<lambda>qs'. Inr (q' # qs')))"

definition copy_db :: "DATABASE_SYSTEM_DB \<Rightarrow> DATABASE_SYSTEM_DB \<Rightarrow> DATABASE_SYSTEM_DB outcome" where
  "copy_db src dst =
     DATABASE_SYSTEM_DB_add (db_ip src) (db_port src) (db_driver src) (db_user src) (db_password src)
       (db_db src) (db_connection_string src) dst (db_name src)"

text \<open>\<open>snprintf(dst, n, text)\<close> into a buffer of \<open>n\<close> bytes, the text without directives.\<close>

definition snprintf_copy :: "nat \<Rightarrow> string \<Rightarrow> string" where
  "snprintf_copy n s = snprintf_s n s []"

text \<open>One byte of room holds the terminator only.\<close>

definition snprintf_char :: "nat \<Rightarrow> char \<Rightarrow> char" where
  "snprintf_char n c = hd (snprintf_copy n [c] @ [NUL])"

text \<open>
  The copy of the flat file settings into memory from \<open>malloc\<close>: \<open>old\<close> is what that memory holds, and
  what is not set keeps it.
\<close>

definition is_csv :: "FLAT_FILE_TYPE \<Rightarrow> bool" where
  "is_csv t \<longleftrightarrow> t = FFT_CSV \<or> t = FFT_TSV \<or> t = FFT_PSV"

definition copy_http :: "HTTP_DATA \<Rightarrow> HTTP_DATA \<Rightarrow> HTTP_DATA" where
  "copy_http src old =
     old\<lparr>http_method := (case http_method src of None \<Rightarrow> http_method old
                           | Some m \<Rightarrow> Some (snprintf_copy (length m + 1) m)),
         http_payload := (case http_payload src of None \<Rightarrow> http_payload old
                           | Some p \<Rightarrow> Some (snprintf_copy (http_payload_len src + 1) p)),
         http_payload_len := (case http_payload src of None \<Rightarrow> http_payload_len old
                           | Some p \<Rightarrow> http_payload_len src),
         http_headers := (if http_headers src = [] then http_headers old
                           else map (\<lambda>(n, v). (snprintf_copy (length n + 1) n, snprintf_copy (length v + 1) v))
                                  (http_headers src)),
         http_active := 0\<rparr>"

definition copy_flat_file ::
  "DATABASE_SYSTEM_FLAT_FILE \<Rightarrow> DATABASE_SYSTEM_FLAT_FILE \<Rightarrow> DATABASE_SYSTEM_FLAT_FILE" where
  "copy_flat_file src old =
     old\<lparr>ff_type := ff_type src,
         ff_name := snprintf_copy (length (ff_name src) + 1) (ff_name src),
         ff_preprocessor := (case ff_preprocessor src of None \<Rightarrow> ff_preprocessor old
                               | Some p \<Rightarrow> Some (snprintf_copy (length p + 1) p)),
         ff_columns := map (\<lambda>c. snprintf_copy (length c + 1) c) (ff_columns src),
         ff_load_sql := snprintf_copy (length (ff_load_sql src) + 1) (ff_load_sql src),
         ff_http := copy_http (ff_http src) (ff_http old),
         ff_json := (ff_type src = FFT_JSON \<or> ff_json old),
         ff_delimiter := (if is_csv (ff_type src) then snprintf_char 1 (ff_delimiter src) else ff_delimiter old),
         ff_csv_delimiter := (if is_csv (ff_type src) then Some (snprintf_char 1 (ff_delimiter src))
                               else ff_csv_delimiter old)\<rparr>"

text \<open>
  \<open>DATABASE_SYSTEM_add\<close>: the systems registered so far, the static entry to fill (\<open>slot\<close>), the memory of
  the two allocations. The new list of systems; the caller's source entry is released by the call.
\<close>

definition DATABASE_SYSTEM_add ::
  "string \<Rightarrow> DATABASE_SYSTEM_DB \<Rightarrow> DATABASE_SYSTEM_DB \<Rightarrow> DATABASE_SYSTEM_DB option \<Rightarrow>
   DATABASE_SYSTEM_FLAT_FILE option \<Rightarrow> DATABASE_SYSTEM_QUERY list \<Rightarrow> DATABASE_SYSTEM \<Rightarrow>
   DATABASE_SYSTEM_DB \<Rightarrow> DATABASE_SYSTEM_FLAT_FILE \<Rightarrow> DATABASE_SYSTEM list \<Rightarrow> DATABASE_SYSTEM list outcome" where
  "DATABASE_SYSTEM_add name source_db dcpam_db staging_db flat_file queries slot old_db old_ff systems =
     (if MAX_DATA_SYSTEMS \<le> length systems then Inr systems
      else if MAX_SYSTEM_QUERIES < length queries then Inl Out_of_bounds
      else
        obind (add_queries queries) (\<lambda>qs.
        obind (copy_db source_db (sy_system_db slot)) (\<lambda>sdb.
        obind (copy_db dcpam_db (sy_dcpam_db slot)) (\<lambda>ddb.
        obind (case staging_db of None \<Rightarrow> Inr (sy_staging_db slot)
               | Some st \<Rightarrow> obind (copy_db st old_db) (\<lambda>x. Inr (Some x))) (\<lambda>stg.
          Inr (systems @ [slot\<lparr>sy_failure := 0, sy_name := Some name, sy_queries := qs,
                 sy_system_db := sdb, sy_dcpam_db := ddb, sy_staging_db := stg,
                 sy_flat_file := (case flat_file of None \<Rightarrow> sy_flat_file slot
                                  | Some ff \<Rightarrow> Some (copy_flat_file ff old_ff))\<rparr>]))))))"

fun free_queries :: "DATABASE_SYSTEM_QUERY list \<Rightarrow> DATABASE_SYSTEM_QUERY list outcome" where
  "free_queries [] = Inr []"
| "free_queries (q # qs) =
     obind (SYSTEM_QUERY_free q) (\<lambda>q'. obind (free_queries qs) (\<lambda>qs'. Inr (q' # qs')))"

text \<open>
  \<open>DATABASE_SYSTEM_close\<close>: the pointers to the staging entry and to the flat file settings are freed
  but kept, so they dangle: the result says which remain.
\<close>

definition DATABASE_SYSTEM_close ::
  "'w drivers \<Rightarrow> DATABASE_SYSTEM option \<Rightarrow> 'w \<Rightarrow> (DATABASE_SYSTEM option \<times> 'w) outcome" where
  "DATABASE_SYSTEM_close drv system w =
     (case system of
        None \<Rightarrow> Inr (None, w)
      | Some sy \<Rightarrow>
          obind (free_queries (sy_queries sy)) (\<lambda>qs.
            (let (sdb, w) = DATABASE_SYSTEM_DB_free drv (sy_system_db sy) w;
                 (ddb, w) = DATABASE_SYSTEM_DB_free drv (sy_dcpam_db sy) w;
                 (stg, w) = (case sy_staging_db sy of
                               None \<Rightarrow> (None, w)
                             | Some st \<Rightarrow> (case DATABASE_SYSTEM_DB_free drv st w of (st, w) \<Rightarrow> (Some st, w)))
             in Inr (Some (sy\<lparr>sy_name := None, sy_queries := qs, sy_system_db := sdb, sy_dcpam_db := ddb,
                              sy_staging_db := stg\<rparr>), w))))"

section \<open>What reaches the server\<close>

lemma take_cstr_of: "length (cstr_of buf) = n \<Longrightarrow> take n buf = cstr_of buf"
  unfolding cstr_of_def by (metis takeWhile_eq_take)

text \<open>The format step of a statement that binds, in the form \<open>DB_exec\<close> uses it.\<close>

lemma DB_QUERY_format_bound:
  assumes "cstring sql" "separated sql" "contains sql [QM]" "count_list sql QM = length vals"
    "\<forall>v \<in> set vals. cstring v \<and> v \<noteq> []"
  obtains buf where
    "DB_QUERY_format (Some sql) None l vals = Inr (True, Some buf, length (cstr_of buf))"
    "cstr_of buf = null_markers (bind_params sql vals)"
proof -
  let ?D = "length sql + sum_list (map length vals) - count_list sql QM"
  have all: "take ?D sql = sql" using no_truncation [of sql vals] assms by simp
  have x: "interleave (strtok_all QM sql) vals = bind_params sql vals"
    using interleave_tokens assms by blast
  have "sql \<noteq> []" using assms(3) by (auto simp: contains_char)
  then have tok: "strtok_all QM sql \<noteq> []" using separated_tokens assms(2) by blast
  have cs: "cstr_of (bind_params sql vals) = bind_params sql vals"
    using cstring_bind_params assms by (intro cstr_of_all) blast
  have "?D - length (bind_params sql vals) = 0" using bind_params_length assms(4) by fastforce
  with DB_QUERY_format_result [of sql vals l] all x tok cs assms that show thesis by auto
qed

text \<open>
  C16: What a driver is sent: for a template with a marker for each value, none in front and no two adjacent, and
  non-empty values without NUL, \<open>DB_exec\<close> on an open PostgreSQL, MySQL or MariaDB database runs exactly one statement,
  the bound one, whatever length the caller passed, and reports whether the server refused it: success for rows and for
  an answer without a result set, which MySQL and MariaDB give to a statement that changes data and PostgreSQL never gives.
\<close>

theorem DB_exec_sends_bound:
  assumes "cstring sql" "separated sql" "contains sql [QM]" "count_list sql QM = length vals"
    "\<forall>v \<in> set vals. cstring v \<and> v \<noteq> []" "cn_connection (db_conn db) = Some h"
    "(db_driver db, lib) \<in> {(Some D_POSTGRESQL, drv_pg drv), (Some D_MYSQL, drv_mysql drv),
                             (Some D_MARIADB, drv_mariadb drv)}"
    "lib_query lib h (null_markers (bind_params sql vals)) w = (rep, w')"
  shows "DB_exec drv db (Some sql) n None vals None w =
    Inr (rep \<noteq> Query_failed \<and> (rep = No_result_set \<longrightarrow> db_driver db \<noteq> Some D_POSTGRESQL), None, w')"
proof -
  obtain buf where buf:
    "DB_QUERY_format (Some sql) None 0 vals = Inr (True, Some buf, length (cstr_of buf))"
    "cstr_of buf = null_markers (bind_params sql vals)"
    using DB_QUERY_format_bound [OF assms(1-5), of 0] by blast
  have tk: "take (length (cstr_of buf)) buf = null_markers (bind_params sql vals)"
    using take_cstr_of buf(2) by metis
  have "PG_exec lib (db_conn db) buf (length (cstr_of buf)) None None w =
      Inr (rep \<noteq> Query_failed \<and> rep \<noteq> No_result_set, None, w')"
    using assms(6,8) buf(2) by (cases rep) (auto simp: PG_exec_def run_rows_def Let_def)
  moreover have "MYSQL_exec lib (db_conn db) buf (length (cstr_of buf)) None None w =
      Inr (rep \<noteq> Query_failed, None, w')"
    using assms(6,8) tk by (cases rep) (auto simp: MYSQL_exec_def run_rows_def Let_def)
  ultimately show ?thesis using assms(7) buf(1)
    by (auto simp: DB_exec_def driver_exec_def MARIADB_exec_def)
qed

definition demo_drivers :: "reply \<Rightarrow> string list drivers" where
  "demo_drivers rep =
     \<lparr>drv_pg = demo_library rep, drv_mysql = demo_library rep, drv_mariadb = demo_library rep,
      drv_other_exec = (\<lambda>d c sql n dst cb w. Inr (False, dst, w)),
      drv_other_connect = (\<lambda>d db w. (False, db_conn db, w)),
      drv_other_disconnect = (\<lambda>d c w. (c, w))\<rparr>"

definition demo_db :: "DB_DRIVER \<Rightarrow> DATABASE_SYSTEM_DB" where
  "demo_db d =
     \<lparr>db_ip = Some ''127.0.0.1'', db_port = 5432, db_driver = Some d, db_user = Some ''u'',
      db_password = Some ''p'', db_connection_string = None, db_db = Some ''dw'',
      db_conn = opened_connection (Some 7) None True, db_name = Some ''main''\<rparr>"

theorem DB_exec_sends_bound_witness:
  "DB_exec (demo_drivers No_result_set) (demo_db D_MYSQL) (Some ''INSERT INTO t VALUES(?)'') 3 None [''42''] None [] =
   Inr (True, None, [null_markers ''INSERT INTO t VALUES(42)''])"
  using DB_exec_sends_bound [of "''INSERT INTO t VALUES(?)''" "[''42'']" "demo_db D_MYSQL" 7
      "drv_mysql (demo_drivers No_result_set)" "demo_drivers No_result_set" "[]"
      "No_result_set" "[null_markers ''INSERT INTO t VALUES(42)'']" 3]
  by (simp add: demo_drivers_def demo_db_def demo_library_def separated_def contains_def)

section \<open>Closing a database\<close>

text \<open>
  Closing a MySQL database does not mark it inactive, and statements on the closed entry are
  reported as successful although nothing is sent to any server.
\<close>

theorem closed_mysql_still_succeeds:
  assumes "db_driver db = Some D_MYSQL" "cn_active (db_conn db)"
    "DATABASE_SYSTEM_DB_close drv db w = (db', w')"
  shows "cn_active (db_conn db') \<and> cn_connection (db_conn db') = None \<and>
         (\<not> contains sql [QM] \<longrightarrow>
            DB_exec drv db' (Some sql) n None vals cb v = Inr (True, None, v))"
  using assms
  by (auto simp: DATABASE_SYSTEM_DB_close_def driver_disconnect_def MYSQL_disconnect_def DB_exec_def
      driver_exec_def MYSQL_exec_def DB_QUERY_format_def)

theorem closed_mysql_still_succeeds_witness:
  "DB_exec (demo_drivers Query_failed)
     (fst (DATABASE_SYSTEM_DB_close (demo_drivers Query_failed) (demo_db D_MYSQL) []))
     (Some ''DELETE FROM t'') 13 None [] None [] = Inr (True, None, [])"
  using closed_mysql_still_succeeds [of "demo_db D_MYSQL" "demo_drivers Query_failed" "[]"
      "fst (DATABASE_SYSTEM_DB_close (demo_drivers Query_failed) (demo_db D_MYSQL) [])"
      "snd (DATABASE_SYSTEM_DB_close (demo_drivers Query_failed) (demo_db D_MYSQL) [])"
      "''DELETE FROM t''" 13 "[]" None "[]"]
  by (simp add: demo_db_def contains_def)

section \<open>The delimiter of flat files\<close>

lemma snprintf_char_1 [simp]: "snprintf_char (Suc 0) c = NUL"
  by (simp add: snprintf_char_def snprintf_copy_def snprintf_s_def)

lemma csv_loop_plain:
  "NL \<notin> set s \<Longrightarrow> DQ \<notin> set s \<Longrightarrow> NUL \<notin> set s \<Longrightarrow> length tok + length s < CSV_TOKEN_SIZE \<Longrightarrow>
   csv_loop NUL False tok vals (s @ [NL]) =
     Inr (vals @ [csv_value (tok @ s)])"
proof (induction s arbitrary: tok)
  case (Cons c s)
  from Cons.IH [of "tok @ [c]"] Cons.prems show ?case by (auto simp: Let_def)
qed (auto simp: Let_def)

text \<open>
  The configured delimiter of a CSV, TSV or PSV file never reaches the reader: whatever the
  configuration says, the data system that \<open>DATABASE_SYSTEM_add\<close> registers has the NUL character as
  its delimiter, with which a line without quotes is read as one single value.
\<close>

theorem configured_delimiter_lost:
  assumes "DATABASE_SYSTEM_add name sdb ddb stg (Some ff) qs slot old_db old_ff systems = Inr systems'"
    "length systems < 4" "ff_type ff \<in> {FFT_CSV, FFT_TSV, FFT_PSV}"
    "line \<noteq> []" "set line \<inter> {NL, DQ, NUL} = {}" "length line < 1024"
  shows "\<exists>sy ff' d. systems' = systems @ [sy] \<and> sy_flat_file sy = Some ff' \<and> ff_csv_delimiter ff' = Some d \<and>
           CSV_parse_line (line @ [NL]) d = Inr [Some line]"
proof -
  have "is_csv (ff_type ff)" using assms(3) by (auto simp: is_csv_def)
  with assms(1,2) obtain sy where sy: "systems' = systems @ [sy]"
    "sy_flat_file sy = Some (copy_flat_file ff old_ff)" "ff_csv_delimiter (copy_flat_file ff old_ff) = Some NUL"
    by (auto simp: DATABASE_SYSTEM_add_def MAX_DATA_SYSTEMS_def copy_flat_file_def split: if_splits)
  moreover have "CSV_parse_line (line @ [NL]) NUL = Inr [Some line]"
    using csv_loop_plain [of line "[]" "[]"] assms(4-6) CSV_parse_line_cstring [of "line @ [NL]" NUL]
    by (auto simp: CSV_TOKEN_SIZE_def cstring_def)
  ultimately show ?thesis by blast
qed

definition demo_http :: HTTP_DATA where
  "demo_http = \<lparr>http_active = 0, http_headers = [], http_payload = None, http_payload_len = 0, http_method = None\<rparr>"

definition demo_flat_file :: "char \<Rightarrow> FLAT_FILE_TYPE \<Rightarrow> DATABASE_SYSTEM_FLAT_FILE" where
  "demo_flat_file d t =
     \<lparr>ff_preprocessor = None, ff_name = ''in.csv'', ff_columns = [''b'', ''a''],
      ff_load_sql = ''INSERT INTO t VALUES(?, ?)'', ff_delimiter = d, ff_csv_delimiter = None,
      ff_json = False, ff_type = t, ff_http = demo_http\<rparr>"

definition demo_slot :: DATABASE_SYSTEM where
  "demo_slot =
     \<lparr>sy_name = None, sy_system_db = demo_db D_MYSQL, sy_dcpam_db = demo_db D_MYSQL, sy_staging_db = None,
      sy_queries = [], sy_flat_file = None, sy_failure = 0\<rparr>"

theorem configured_delimiter_lost_witness:
  "\<exists>systems' sy ff' d.
     DATABASE_SYSTEM_add ''sys'' (demo_db D_MYSQL) (demo_db D_MYSQL) None
       (Some (demo_flat_file (CHR '';'') FFT_CSV)) [] demo_slot (demo_db D_MYSQL)
       (demo_flat_file (CHR ''x'') FFT_XML) [] = Inr systems' \<and>
     systems' = [sy] \<and> sy_flat_file sy = Some ff' \<and> ff_csv_delimiter ff' = Some d \<and>
     CSV_parse_line (''a;b'' @ [NL]) d = Inr [Some ''a;b'']"
proof -
  have "\<exists>systems'. DATABASE_SYSTEM_add ''sys'' (demo_db D_MYSQL) (demo_db D_MYSQL) None
       (Some (demo_flat_file (CHR '';'') FFT_CSV)) [] demo_slot (demo_db D_MYSQL)
       (demo_flat_file (CHR ''x'') FFT_XML) [] = Inr systems'"
    by (simp add: DATABASE_SYSTEM_add_def MAX_DATA_SYSTEMS_def copy_db_def DATABASE_SYSTEM_DB_add_def
        demo_db_def)
  then obtain systems' where s: "DATABASE_SYSTEM_add ''sys'' (demo_db D_MYSQL) (demo_db D_MYSQL) None
       (Some (demo_flat_file (CHR '';'') FFT_CSV)) [] demo_slot (demo_db D_MYSQL)
       (demo_flat_file (CHR ''x'') FFT_XML) [] = Inr systems'" by blast
  from configured_delimiter_lost [OF s, of "''a;b''"] s show ?thesis
    by (auto simp: demo_flat_file_def)
qed

section \<open>Registering and releasing\<close>

lemma load_query_free_twice:
  "load_query_free q = Inr q' \<Longrightarrow> 0 < lq_target_count q \<Longrightarrow> load_query_free q' = Inl Null_pointer"
  by (auto simp: load_query_free_def split: if_splits)

text \<open>
  Releasing an ETL configuration is not idempotent: when any of its load queries has a target,
  a second release dereferences the NULL target array, because the count is not reset.
\<close>

theorem SYSTEM_ETL_CONFIG_free_twice:
  assumes "SYSTEM_ETL_CONFIG_free etl = Inr etl'" "0 < lq_target_count (ld_inserted (etl_load etl))"
  shows "SYSTEM_ETL_CONFIG_free etl' = Inl Null_pointer"
proof -
  obtain li where li: "load_query_free (ld_inserted (etl_load etl)) = Inr li"
    "ld_inserted (etl_load etl') = li"
    using assms(1) by (auto simp: SYSTEM_ETL_CONFIG_free_def)
  from load_query_free_twice [OF li(1) assms(2)] li(2) show ?thesis
    by (simp add: SYSTEM_ETL_CONFIG_free_def)
qed

definition demo_load :: "string option \<Rightarrow> DB_SYSTEM_ETL_LOAD_QUERY_TARGET list \<Rightarrow> DB_SYSTEM_ETL_LOAD_QUERY" where
  "demo_load sql ts =
     \<lparr>lq_input_data_sql = sql, lq_input_data_sql_len = length (the_str sql), lq_target = ts,
      lq_target_count = length ts\<rparr>"

definition demo_target :: "string \<Rightarrow> string list \<Rightarrow> DB_SYSTEM_ETL_LOAD_QUERY_TARGET" where
  "demo_target sql cols =
     \<lparr>lt_output_data_sql = Some sql, lt_output_data_sql_len = length sql, lt_extracted_values = cols\<rparr>"

definition demo_extract :: DB_SYSTEM_ETL_EXTRACT_QUERY where
  "demo_extract =
     \<lparr>eq_primary_db = Some ''this'', eq_primary_db_sql = Some ''SELECT id FROM s'',
      eq_primary_db_result_replace = [], eq_primary_db_sql_len = 16, eq_secondary_db = Some ''dw'',
      eq_secondary_db_sql = Some ''SELECT id, v FROM s WHERE id NOT IN(?)'',
      eq_secondary_db_result_replace = [], eq_secondary_db_sql_len = 38\<rparr>"

definition demo_etl :: "DB_SYSTEM_ETL_LOAD_QUERY_TARGET list \<Rightarrow> DB_SYSTEM_ETL" where
  "demo_etl ts =
     \<lparr>etl_pre_actions = [''UPDATE a SET b = 1''],
      etl_extract = \<lparr>ex_inserted = demo_extract, ex_deleted = demo_extract, ex_modified = demo_extract\<rparr>,
      etl_stage = None,
      etl_transform = None,
      etl_load = \<lparr>ld_inserted = demo_load (Some ''SELECT id, v FROM st'') ts, ld_deleted = demo_load None [],
                  ld_modified = demo_load None []\<rparr>,
      etl_post_actions = []\<rparr>"

theorem SYSTEM_ETL_CONFIG_free_twice_witness:
  "\<exists>etl'. SYSTEM_ETL_CONFIG_free (demo_etl [demo_target ''INSERT INTO t VALUES(?)'' [''id'']]) = Inr etl' \<and>
          SYSTEM_ETL_CONFIG_free etl' = Inl Null_pointer"
proof -
  have "\<exists>etl'. SYSTEM_ETL_CONFIG_free (demo_etl [demo_target ''INSERT INTO t VALUES(?)'' [''id'']]) = Inr etl'"
    by (simp add: SYSTEM_ETL_CONFIG_free_def load_query_free_def demo_etl_def demo_load_def)
  then obtain etl' where
    e: "SYSTEM_ETL_CONFIG_free (demo_etl [demo_target ''INSERT INTO t VALUES(?)'' [''id'']]) = Inr etl'"
    by blast
  have "SYSTEM_ETL_CONFIG_free etl' = Inl Null_pointer"
    by (rule SYSTEM_ETL_CONFIG_free_twice [OF e]) (simp add: demo_etl_def demo_load_def)
  with e show ?thesis by blast
qed

text \<open>
  A query whose configuration has no transformation cannot be registered: the copy dereferences
  the missing part, so such a configuration never becomes a data system.
\<close>

theorem optional_transform_is_required:
  assumes "q \<in> set qs" "etl_transform (qu_etl_config q) = None"
    "length systems < 4"
  shows "\<exists>e. DATABASE_SYSTEM_add name sdb ddb stg ff qs slot old_db old_ff systems = Inl e"
proof -
  have "\<exists>e. add_queries qs = Inl e" using assms(1)
  proof (induction qs)
    case (Cons p ps)
    then show ?case using assms(2)
      by (cases "DATABASE_SYSTEM_QUERY_add (qu_name p) (qu_mode p) (qu_etl_config p) True")
        (auto simp: DATABASE_SYSTEM_QUERY_add_def Let_def split: if_splits)
  qed simp
  with assms(3) show ?thesis
    by (auto simp: DATABASE_SYSTEM_add_def MAX_DATA_SYSTEMS_def)
qed

theorem optional_transform_is_required_witness:
  "\<exists>e. DATABASE_SYSTEM_add ''sys'' (demo_db D_MYSQL) (demo_db D_MYSQL) None None
         [\<lparr>qu_name = Some ''q'', qu_mode = M_ETL, qu_etl_config = demo_etl []\<rparr>] demo_slot
         (demo_db D_MYSQL) (demo_flat_file (CHR ''x'') FFT_XML) [] = Inl e"
  using optional_transform_is_required
    [of "\<lparr>qu_name = Some ''q'', qu_mode = M_ETL, qu_etl_config = demo_etl []\<rparr>"
        "[\<lparr>qu_name = Some ''q'', qu_mode = M_ETL, qu_etl_config = demo_etl []\<rparr>]" "[]"]
  by (simp add: demo_etl_def)

end
