(* ===== verification/Etl_Data.thy ===== *)
theory Etl_Data
  imports Db_System
begin

text \<open>
  The code that turns an extracted record into a statement: \<open>src/core/db/etl/stage.c\<close>,
  \<open>src/core/db/etl/load.c\<close> and the two row callbacks and the entry point of \<open>src/core/file/preload.c\<close>.
  The selection of the configured columns is the same code in all four places and is modelled once.
  The lemmas show what reaches the target server: one statement per record and target, in order.
\<close>

section \<open>Values of a record for the configured columns\<close>

definition dcpamNULL :: string where "dcpamNULL = ''dcpamNULL''"

text \<open>A field without bytes is bound as the marker that \<open>DB_QUERY_format\<close> turns into \<open>NULL\<close>.\<close>

definition field_bytes :: "DB_FIELD \<Rightarrow> string" where
  "field_bytes f = (case f_value f of Some v \<Rightarrow> if 0 < f_size f then v else dcpamNULL | None \<Rightarrow> dcpamNULL)"

definition column_field :: "string \<Rightarrow> DB_RECORD \<Rightarrow> DB_FIELD option" where
  "column_field col rec = List.find (\<lambda>f. strncmp_eq col (f_label f) MAX_COLUMN_NAME_LEN) (r_fields rec)"

fun extracted_values :: "string list \<Rightarrow> DB_RECORD \<Rightarrow> string list" where
  "extracted_values [] rec = []"
| "extracted_values (c # cs) rec =
     (case column_field c rec of
        None \<Rightarrow> extracted_values cs rec
      | Some f \<Rightarrow> field_bytes f # extracted_values cs rec)"

text \<open>The rest of the shared code: one \<open>DB_exec\<close> when any column was found, its failure only logged.\<close>

definition exec_record ::
  "'w drivers \<Rightarrow> DATABASE_SYSTEM_DB \<Rightarrow> string option \<Rightarrow> nat \<Rightarrow> string list \<Rightarrow> 'w qec" where
  "exec_record drv db sql sql_len cols rec w =
     (let q_values = extracted_values cols rec in
      if q_values = [] then Inr w
      else obind (DB_exec drv db sql sql_len None q_values None w) (\<lambda>(ok, dst, w). Inr w))"

section \<open>Stage\<close>

definition DB_CDC_StageGeneric ::
  "'w drivers \<Rightarrow> DB_SYSTEM_ETL_STAGE_QUERY \<Rightarrow> DATABASE_SYSTEM_DB \<Rightarrow> 'w qec" where
  "DB_CDC_StageGeneric drv stage_element dcpam_db =
     exec_record drv dcpam_db (sq_sql stage_element) (sq_sql_len stage_element) (sq_extracted_values stage_element)"

text \<open>The elements in their order, on the same record.\<close>

fun each_element :: "('e \<Rightarrow> 'w qec) \<Rightarrow> 'e list \<Rightarrow> 'w qec" where
  "each_element f [] rec w = Inr w"
| "each_element f (e # es) rec w = obind (f e rec w) (each_element f es rec)"

definition DB_CDC_StageInserted ::
  "'w drivers \<Rightarrow> DB_SYSTEM_ETL_STAGE option \<Rightarrow> DATABASE_SYSTEM_DB option \<Rightarrow> 'w qec" where
  "DB_CDC_StageInserted drv stage dcpam_db rec w =
     (case (stage, dcpam_db) of
        (Some st, Some db) \<Rightarrow> each_element (\<lambda>e. DB_CDC_StageGeneric drv e db) (st_inserted st) rec w
      | _ \<Rightarrow> Inr w)"

definition DB_CDC_StageDeleted ::
  "'w drivers \<Rightarrow> DB_SYSTEM_ETL_STAGE option \<Rightarrow> DATABASE_SYSTEM_DB option \<Rightarrow> 'w qec" where
  "DB_CDC_StageDeleted drv stage dcpam_db rec w =
     (case (stage, dcpam_db) of
        (Some st, Some db) \<Rightarrow> each_element (\<lambda>e. DB_CDC_StageGeneric drv e db) (st_deleted st) rec w
      | _ \<Rightarrow> Inr w)"

definition DB_CDC_StageModified ::
  "'w drivers \<Rightarrow> DB_SYSTEM_ETL_STAGE option \<Rightarrow> DATABASE_SYSTEM_DB option \<Rightarrow> 'w qec" where
  "DB_CDC_StageModified drv stage dcpam_db rec w =
     (case (stage, dcpam_db) of
        (Some st, Some db) \<Rightarrow> each_element (\<lambda>e. DB_CDC_StageGeneric drv e db) (st_modified st) rec w
      | _ \<Rightarrow> Inr w)"

section \<open>Load\<close>

definition LoadGeneric_callback ::
  "'w drivers \<Rightarrow> DATABASE_SYSTEM_DB \<Rightarrow> DB_SYSTEM_ETL_LOAD_QUERY_TARGET \<Rightarrow> 'w qec" where
  "LoadGeneric_callback drv dcpam_db target =
     exec_record drv dcpam_db (lt_output_data_sql target) (lt_output_data_sql_len target)
       (lt_extracted_values target)"

text \<open>
  The callbacks of the three kinds walk \<open>target_count\<close> targets, the first ones of the array; a count beyond the array
  reads past it, after all its targets.
\<close>

definition load_targets :: "DB_SYSTEM_ETL_LOAD_QUERY \<Rightarrow> DB_SYSTEM_ETL_LOAD_QUERY_TARGET list" where
  "load_targets q = (if lq_target_count q \<le> length (lq_target q) then take (lq_target_count q) (lq_target q) else [])"

definition CDC_LoadGeneric_callback ::
  "'w drivers \<Rightarrow> DB_SYSTEM_ETL_LOAD_QUERY \<Rightarrow> DATABASE_SYSTEM_DB \<Rightarrow> 'w qec" where
  "CDC_LoadGeneric_callback drv load_element dcpam_db rec w =
     (if lq_target_count load_element \<le> length (lq_target load_element)
      then each_element (LoadGeneric_callback drv dcpam_db) (load_targets load_element) rec w
      else obind (each_element (LoadGeneric_callback drv dcpam_db) (lq_target load_element) rec w) (\<lambda>w. Inl Out_of_bounds))"

lemma load_targets_Cons: "load_targets q = t # ts \<Longrightarrow> lq_target_count q \<le> length (lq_target q)"
  by (auto simp: load_targets_def split: if_splits)

definition LoadInserted_callback ::
  "'w drivers \<Rightarrow> DB_SYSTEM_ETL_LOAD \<Rightarrow> DATABASE_SYSTEM_DB \<Rightarrow> 'w qec" where
  "LoadInserted_callback drv load dcpam_db = CDC_LoadGeneric_callback drv (ld_inserted load) dcpam_db"

definition LoadDeleted_callback ::
  "'w drivers \<Rightarrow> DB_SYSTEM_ETL_LOAD \<Rightarrow> DATABASE_SYSTEM_DB \<Rightarrow> 'w qec" where
  "LoadDeleted_callback drv load dcpam_db = CDC_LoadGeneric_callback drv (ld_deleted load) dcpam_db"

definition LoadModified_callback ::
  "'w drivers \<Rightarrow> DB_SYSTEM_ETL_LOAD \<Rightarrow> DATABASE_SYSTEM_DB \<Rightarrow> 'w qec" where
  "LoadModified_callback drv load dcpam_db = CDC_LoadGeneric_callback drv (ld_modified load) dcpam_db"

text \<open>The null checks on the parameters belong to the callers below; a missing database is \<open>None\<close>.\<close>

definition CDC_LoadGeneric ::
  "'w drivers \<Rightarrow> DB_SYSTEM_ETL_LOAD_QUERY \<Rightarrow> DATABASE_SYSTEM_DB option \<Rightarrow> DATABASE_SYSTEM_DB option \<Rightarrow> 'w \<Rightarrow>
   (bool \<times> 'w) outcome" where
  "CDC_LoadGeneric drv load_element source_db dcpam_db w =
     (case (source_db, dcpam_db) of
        (Some src, Some dst) \<Rightarrow>
          obind (DB_exec drv src (lq_input_data_sql load_element) (lq_input_data_sql_len load_element) None []
                   (Some (CDC_LoadGeneric_callback drv load_element dst)) w)
            (\<lambda>(ok, res, w). Inr (ok, w))
      | _ \<Rightarrow> Inr (False, w))"

definition DB_CDC_LoadInserted ::
  "'w drivers \<Rightarrow> DB_SYSTEM_ETL_LOAD option \<Rightarrow> DATABASE_SYSTEM_DB option \<Rightarrow> DATABASE_SYSTEM_DB option \<Rightarrow> 'w \<Rightarrow>
   (bool \<times> 'w) outcome" where
  "DB_CDC_LoadInserted drv load source_db dcpam_db w =
     (case load of Some l \<Rightarrow> CDC_LoadGeneric drv (ld_inserted l) source_db dcpam_db w | None \<Rightarrow> Inr (False, w))"

definition DB_CDC_LoadDeleted ::
  "'w drivers \<Rightarrow> DB_SYSTEM_ETL_LOAD option \<Rightarrow> DATABASE_SYSTEM_DB option \<Rightarrow> DATABASE_SYSTEM_DB option \<Rightarrow> 'w \<Rightarrow>
   (bool \<times> 'w) outcome" where
  "DB_CDC_LoadDeleted drv load source_db dcpam_db w =
     (case load of Some l \<Rightarrow> CDC_LoadGeneric drv (ld_deleted l) source_db dcpam_db w | None \<Rightarrow> Inr (False, w))"

definition DB_CDC_LoadModified ::
  "'w drivers \<Rightarrow> DB_SYSTEM_ETL_LOAD option \<Rightarrow> DATABASE_SYSTEM_DB option \<Rightarrow> DATABASE_SYSTEM_DB option \<Rightarrow> 'w \<Rightarrow>
   (bool \<times> 'w) outcome" where
  "DB_CDC_LoadModified drv load source_db dcpam_db w =
     (case load of Some l \<Rightarrow> CDC_LoadGeneric drv (ld_modified l) source_db dcpam_db w | None \<Rightarrow> Inr (False, w))"

section \<open>Flat files\<close>

definition JSON_load_callback ::
  "'w drivers \<Rightarrow> DATABASE_SYSTEM_FLAT_FILE \<Rightarrow> DATABASE_SYSTEM_DB \<Rightarrow> 'w qec" where
  "JSON_load_callback drv flat_file system_db =
     exec_record drv system_db (Some (ff_load_sql flat_file)) (length (ff_load_sql flat_file)) (ff_columns flat_file)"

definition CSV_load_callback ::
  "'w drivers \<Rightarrow> DATABASE_SYSTEM_FLAT_FILE \<Rightarrow> DATABASE_SYSTEM_DB \<Rightarrow> 'w qec" where
  "CSV_load_callback drv flat_file system_db =
     exec_record drv system_db (Some (ff_load_sql flat_file)) (length (ff_load_sql flat_file)) (ff_columns flat_file)"

text \<open>
  \<open>open_file\<close> gives the content \<open>FILE_open\<close> and \<open>file_get_content\<close> find under a name; a CSV type
  without \<open>csv_file\<close> would be a null dereference.
\<close>

definition FILE_ETL_preload ::
  "'w drivers \<Rightarrow> (string \<Rightarrow> json option) \<Rightarrow> (string \<Rightarrow> string option) \<Rightarrow> DATABASE_SYSTEM option \<Rightarrow> string \<Rightarrow> 'w \<Rightarrow>
   (bool \<times> 'w) outcome" where
  "FILE_ETL_preload drv cJSON_Parse open_file system filename w =
     (case system of
        None \<Rightarrow> Inr (False, w)
      | Some sy \<Rightarrow>
          (case sy_flat_file sy of
             None \<Rightarrow> Inr (False, w)
           | Some ff \<Rightarrow>
               if is_csv (ff_type ff)
               then (case ff_csv_delimiter ff of
                       None \<Rightarrow> Inl Null_pointer
                     | Some d \<Rightarrow> CSV_FILE_load d (open_file filename) (CSV_load_callback drv ff (sy_system_db sy)) w)
               else if ff_type ff = FFT_JSON
               then JSON_FILE_load cJSON_Parse (open_file filename) (JSON_load_callback drv ff (sy_system_db sy)) w
               else Inr (False, w)))"

section \<open>The statement a record gives\<close>

text \<open>
  The reference: the value of a configured column is the bytes of its first field, or the marker.
\<close>

definition column_value :: "DB_RECORD \<Rightarrow> string \<Rightarrow> string" where
  "column_value rec col = (case column_field col rec of Some f \<Rightarrow> field_bytes f | None \<Rightarrow> [])"

definition has_column :: "DB_RECORD \<Rightarrow> string \<Rightarrow> bool" where
  "has_column rec col \<longleftrightarrow> column_field col rec \<noteq> None"

text \<open>The fields the drivers and the readers build: text without NUL, size the length of the value.\<close>

definition record_ok :: "DB_RECORD \<Rightarrow> bool" where
  "record_ok rec \<longleftrightarrow>
     (\<forall>f \<in> set (r_fields rec).
        (case f_value f of None \<Rightarrow> f_size f = 0 | Some v \<Rightarrow> cstring v \<and> f_size f = length v))"

definition record_statement :: "string \<Rightarrow> string list \<Rightarrow> DB_RECORD \<Rightarrow> string" where
  "record_statement sql cols rec = null_markers (bind_params sql (map (column_value rec) cols))"

text \<open>A template fit for its columns: one \<open>?\<close> per column, none leading, no two adjacent.\<close>

definition template_ok :: "string \<Rightarrow> string list \<Rightarrow> bool" where
  "template_ok sql cols \<longleftrightarrow>
     cstring sql \<and> separated sql \<and> contains sql [QM] \<and> count_list sql QM = length cols"

lemma extracted_values_all:
  "\<forall>c \<in> set cols. has_column rec c \<Longrightarrow> extracted_values cols rec = map (column_value rec) cols"
  by (induction cols) (auto simp: has_column_def column_value_def)

lemma extracted_values_length: "length (extracted_values cols rec) \<le> length cols"
  by (induction cols) (auto split: option.splits)

lemma extracted_values_missing:
  "\<exists>c \<in> set cols. \<not> has_column rec c \<Longrightarrow> length (extracted_values cols rec) < length cols"
proof (induction cols)
  case (Cons c cols)
  then show ?case
    using extracted_values_length [of cols rec]
    by (cases "column_field c rec") (auto simp: has_column_def less_Suc_eq_le)
qed simp

lemma field_bytes_ok:
  "(case f_value f of None \<Rightarrow> f_size f = 0 | Some v \<Rightarrow> cstring v \<and> f_size f = length v) \<Longrightarrow>
   cstring (field_bytes f) \<and> field_bytes f \<noteq> []"
  by (auto simp: field_bytes_def dcpamNULL_def split: option.splits)

lemma column_value_ok:
  assumes "record_ok rec" "has_column rec c"
  shows "cstring (column_value rec c) \<and> column_value rec c \<noteq> []"
proof -
  obtain f where f: "column_field c rec = Some f" using assms(2) by (auto simp: has_column_def)
  then have "f \<in> set (r_fields rec)" unfolding column_field_def by (auto simp: find_Some_iff)
  with assms(1) have "cstring (field_bytes f) \<and> field_bytes f \<noteq> []"
    by (intro field_bytes_ok) (auto simp: record_ok_def)
  with f show ?thesis by (simp add: column_value_def)
qed

text \<open>The database a statement goes to, as a server function.\<close>

definition server_of :: "'w drivers \<Rightarrow> DATABASE_SYSTEM_DB \<Rightarrow> (string \<Rightarrow> 'w \<Rightarrow> reply \<times> 'w) option" where
  "server_of drv db =
     (case cn_connection (db_conn db) of
        None \<Rightarrow> None
      | Some h \<Rightarrow>
          (case db_driver db of
             Some D_POSTGRESQL \<Rightarrow> Some (lib_query (drv_pg drv) h)
           | Some D_MYSQL \<Rightarrow> Some (lib_query (drv_mysql drv) h)
           | Some D_MARIADB \<Rightarrow> Some (lib_query (drv_mariadb drv) h)
           | _ \<Rightarrow> None))"

lemma DB_exec_world:
  assumes "server_of drv db = Some server" "template_ok sql cols" "length vals = length cols"
    "\<forall>v \<in> set vals. cstring v \<and> v \<noteq> []"
  shows "\<exists>ok. DB_exec drv db (Some sql) n None vals None w =
           Inr (ok, None, snd (server (null_markers (bind_params sql vals)) w))"
proof -
  obtain h where h: "cn_connection (db_conn db) = Some h"
    using assms(1) by (auto simp: server_of_def split: option.splits)
  obtain buf where buf:
    "DB_QUERY_format (Some sql) None 0 vals = Inr (True, Some buf, length (cstr_of buf))"
    "cstr_of buf = null_markers (bind_params sql vals)"
    using DB_QUERY_format_bound [of sql vals 0] assms by (auto simp: template_ok_def)
  have tk: "take (length (cstr_of buf)) buf = null_markers (bind_params sql vals)"
    using take_cstr_of buf(2) by metis
  have pg: "\<exists>ok. PG_exec lib (db_conn db) buf (length (cstr_of buf)) None None w =
      Inr (ok, None, snd (lib_query lib h (null_markers (bind_params sql vals)) w))" for lib
    using h buf(2) by (cases "lib_query lib h (null_markers (bind_params sql vals)) w"; cases "fst (lib_query lib h (null_markers (bind_params sql vals)) w)")
      (auto simp: PG_exec_def run_rows_def Let_def)
  have my: "\<exists>ok. MYSQL_exec lib (db_conn db) buf (length (cstr_of buf)) None None w =
      Inr (ok, None, snd (lib_query lib h (null_markers (bind_params sql vals)) w))" for lib
    using h tk by (cases "lib_query lib h (null_markers (bind_params sql vals)) w"; cases "fst (lib_query lib h (null_markers (bind_params sql vals)) w)")
      (auto simp: MYSQL_exec_def run_rows_def Let_def)
  show ?thesis using assms(1) h buf(1) pg my
    by (auto simp: DB_exec_def driver_exec_def MARIADB_exec_def server_of_def split: DB_DRIVER.splits option.splits)
qed

lemma exec_record_sends:
  assumes "server_of drv db = Some server" "template_ok sql cols" "record_ok rec"
    "\<forall>c \<in> set cols. has_column rec c"
  shows "exec_record drv db (Some sql) n cols rec w = Inr (snd (server (record_statement sql cols rec) w))"
proof -
  have v: "extracted_values cols rec = map (column_value rec) cols"
    by (rule extracted_values_all [OF assms(4)])
  have "cols \<noteq> []" using assms(2) by (auto simp: template_ok_def contains_QM)
  moreover have "\<forall>u \<in> set (map (column_value rec) cols). cstring u \<and> u \<noteq> []"
    using column_value_ok assms(3,4) by auto
  ultimately show ?thesis
    using DB_exec_world [OF assms(1,2), of "map (column_value rec) cols" n w] v
    by (auto simp: exec_record_def record_statement_def)
qed

lemma exec_record_missing:
  assumes "contains sql [QM]" "count_list sql QM = length cols" "\<exists>c \<in> set cols. \<not> has_column rec c"
  shows "exec_record drv db (Some sql) n cols rec w = Inr w"
  using extracted_values_missing [OF assms(3)] assms(1,2)
  by (simp add: exec_record_def DB_exec_def DB_QUERY_format_def Let_def)

section \<open>Rows and targets\<close>

fun send_all :: "(string \<Rightarrow> 'w \<Rightarrow> reply \<times> 'w) \<Rightarrow> string list \<Rightarrow> 'w \<Rightarrow> 'w" where
  "send_all server [] w = w"
| "send_all server (s # ss) w = send_all server ss (snd (server s w))"

lemma send_all_append: "send_all server (xs @ ys) w = send_all server ys (send_all server xs w)"
  by (induction xs arbitrary: w) auto

definition target_statement :: "DB_RECORD \<Rightarrow> DB_SYSTEM_ETL_LOAD_QUERY_TARGET \<Rightarrow> string" where
  "target_statement rec t = record_statement (the_str (lt_output_data_sql t)) (lt_extracted_values t) rec"

definition target_ok :: "DB_SYSTEM_ETL_LOAD_QUERY_TARGET \<Rightarrow> bool" where
  "target_ok t \<longleftrightarrow> (\<exists>sql. lt_output_data_sql t = Some sql \<and> template_ok sql (lt_extracted_values t))"

definition record_fits :: "DB_SYSTEM_ETL_LOAD_QUERY_TARGET list \<Rightarrow> DB_RECORD \<Rightarrow> bool" where
  "record_fits ts rec \<longleftrightarrow> record_ok rec \<and> (\<forall>t \<in> set ts. \<forall>c \<in> set (lt_extracted_values t). has_column rec c)"

text \<open>The statements of one row: a target has one when the row has every column it is configured with.\<close>

definition row_statements :: "DB_SYSTEM_ETL_LOAD_QUERY_TARGET list \<Rightarrow> DB_RECORD \<Rightarrow> string list" where
  "row_statements ts rec =
     map (target_statement rec) (filter (\<lambda>t. \<forall>c \<in> set (lt_extracted_values t). has_column rec c) ts)"

lemma target_sends:
  assumes "server_of drv db = Some server" "target_ok t" "record_ok rec"
  shows "LoadGeneric_callback drv db t rec w = Inr (send_all server (row_statements [t] rec) w)"
proof -
  obtain sql where sql: "lt_output_data_sql t = Some sql" "template_ok sql (lt_extracted_values t)"
    using assms(2) by (auto simp: target_ok_def)
  show ?thesis
  proof (cases "\<forall>c \<in> set (lt_extracted_values t). has_column rec c")
    case True
    with exec_record_sends [OF assms(1) sql(2) assms(3) True] sql(1) show ?thesis
      by (simp add: LoadGeneric_callback_def target_statement_def row_statements_def the_str_def)
  next
    case False
    with exec_record_missing [of sql "lt_extracted_values t" rec] sql show ?thesis
      by (auto simp: LoadGeneric_callback_def row_statements_def template_ok_def)
  qed
qed

lemma row_statements_Cons: "row_statements (t # ts) rec = row_statements [t] rec @ row_statements ts rec"
  by (simp add: row_statements_def)

lemma load_callback_sends:
  assumes "server_of drv db = Some server" "record_ok rec"
  shows "\<forall>t \<in> set ts. target_ok t \<Longrightarrow>
    each_element (LoadGeneric_callback drv db) ts rec w = Inr (send_all server (row_statements ts rec) w)"
proof (induction ts arbitrary: w)
  case (Cons t ts)
  with target_sends [OF assms(1) _ assms(2), of t] show ?case
    by (simp add: row_statements_Cons [of t ts] send_all_append)
qed (simp add: row_statements_def)

lemma load_rows_send:
  assumes "server_of drv db = Some server" "lq_target_count q \<le> length (lq_target q)" "\<forall>t \<in> set (load_targets q). target_ok t"
  shows "\<forall>rec \<in> set recs. record_ok rec \<Longrightarrow>
    run_callback (CDC_LoadGeneric_callback drv q db) recs w =
      Inr (send_all server (concat (map (row_statements (load_targets q)) recs)) w)"
proof (induction recs arbitrary: w)
  case (Cons r recs)
  with load_callback_sends [OF assms(1) _ assms(3), of r] show ?case
    by (simp add: CDC_LoadGeneric_callback_def assms(2) send_all_append)
qed simp

text \<open>The rows of a source of one of the three drivers go to the callback, through \<open>DB_exec\<close>.\<close>

lemma DB_exec_rows:
  assumes "server_of drv src = Some ask" "cstring sql" "\<not> contains sql [QM]" "ask sql w = (Rows rs, w1)"
    "names_fit (rs_names rs)" "length (rs_names rs) \<le> MAX_COLUMNS"
  shows "DB_exec drv src (Some sql) (length sql) None [] (Some cb) w =
    obind (run_callback cb (mk_records rs) w1) (\<lambda>w. Inr (True, None, w))"
proof -
  obtain h where h: "cn_connection (db_conn src) = Some h"
    using assms(1) by (auto simp: server_of_def split: option.splits)
  have q: "lib_query lib h sql w = (Rows rs, w1)" if "ask = lib_query lib h" for lib
    using that assms(4) by simp
  show ?thesis
    using assms(1,3) h pg.callback_rows [OF assms(2) h q assms(5,6)] my.callback_rows [OF assms(2) h q assms(5,6)]
      maria.callback_rows [OF assms(2) h q assms(5,6)]
    by (auto simp: DB_exec_def DB_QUERY_format_def driver_exec_def server_of_def split: DB_DRIVER.splits option.splits)
qed

text \<open>
  C4: between a source and a target of PostgreSQL, MySQL or MariaDB, the load step sends, for every row of its input
  query and every target whose configured columns the row has, exactly the target's statement with the row's values
  bound in the configured column order, rows in result order and targets in configuration order, and nothing else; a
  target with a column that the row lacks is skipped, and the failure of one statement stops nothing. The input query
  is a text without markers, given with its length; the templates of the targets are texts with one marker for each
  column, none in front and no two adjacent, and the marker \<open>dcpamNULL\<close> of an empty value becomes \<open>NULL\<close>; the values of the rows hold no zero byte, there are at most 64 columns, with names
  of less than 256 characters, and no more targets are counted than there are.
\<close>

theorem load_sends_rows_by_targets:
  assumes "server_of drv src = Some ask" "lq_input_data_sql q = Some sql" "lq_input_data_sql_len q = length sql"
    "cstring sql" "\<not> contains sql [QM]" "ask sql w = (Rows rs, w1)" "names_fit (rs_names rs)"
    "length (rs_names rs) \<le> MAX_COLUMNS" "server_of drv dst = Some server"
    "lq_target_count q \<le> length (lq_target q)" "\<forall>t \<in> set (load_targets q). target_ok t"
    "\<forall>rec \<in> set (mk_records rs). record_ok rec"
  shows "CDC_LoadGeneric drv q (Some src) (Some dst) w =
    Inr (True, send_all server (concat (map (row_statements (load_targets q)) (mk_records rs))) w1)"
  using load_rows_send [OF assms(9-12), of w1] DB_exec_rows [OF assms(1,4-8)] assms(2,3)
  by (simp add: CDC_LoadGeneric_def)

text \<open>
  No misbinding through missing columns: when the record lacks a configured column, neither the
  stage nor the load nor a flat-file import sends anything, and the row is dropped silently.
\<close>

theorem missing_column_drops_row:
  assumes "contains sql [QM]" "count_list sql QM = length cols" "c \<in> set cols" "\<not> has_column rec c"
  shows "(sq_sql s = Some sql \<and> sq_extracted_values s = cols \<longrightarrow> DB_CDC_StageGeneric drv s db rec w = Inr w) \<and>
    (lt_output_data_sql t = Some sql \<and> lt_extracted_values t = cols \<longrightarrow>
       LoadGeneric_callback drv db t rec w = Inr w) \<and>
    (ff_load_sql ff = sql \<and> ff_columns ff = cols \<longrightarrow>
       CSV_load_callback drv ff db rec w = Inr w \<and> JSON_load_callback drv ff db rec w = Inr w)"
proof -
  have "\<exists>c \<in> set cols. \<not> has_column rec c" using assms(3,4) by blast
  from exec_record_missing [OF assms(1,2) this] show ?thesis
    by (auto simp: DB_CDC_StageGeneric_def LoadGeneric_callback_def CSV_load_callback_def JSON_load_callback_def)
qed

text \<open>Concrete inputs.\<close>

definition demo_row_reply :: "result_set" where
  "demo_row_reply = \<lparr>rs_names = [''id'', ''v''], rs_tuples = [[''1'', ''x''], [''2'', []]]\<rparr>"

definition demo_source_drivers :: "string list drivers" where
  "demo_source_drivers = (demo_drivers (Rows demo_row_reply))\<lparr>drv_mysql := demo_library No_result_set\<rparr>"

definition demo_load_query :: DB_SYSTEM_ETL_LOAD_QUERY where
  "demo_load_query = demo_load (Some ''SELECT id, v FROM st'') [demo_target ''INSERT INTO t VALUES(?, ?)'' [''v'', ''id'']]"

lemma demo_records:
  "mk_records demo_row_reply =
     [\<lparr>r_fields = [\<lparr>f_label = ''id'', f_value = Some ''1'', f_size = 1\<rparr>, \<lparr>f_label = ''v'', f_value = Some ''x'', f_size = 1\<rparr>]\<rparr>,
      \<lparr>r_fields = [\<lparr>f_label = ''id'', f_value = Some ''2'', f_size = 1\<rparr>, \<lparr>f_label = ''v'', f_value = None, f_size = 0\<rparr>]\<rparr>]"
  by (simp add: demo_row_reply_def mk_records_def mk_record_def mk_field_def MAX_COLUMN_NAME_LEN_def)

lemmas column_defs = has_column_def column_field_def strncmp_eq_def column_value_def field_bytes_def
  MAX_COLUMN_NAME_LEN_def

theorem load_sends_rows_by_targets_witness:
  "CDC_LoadGeneric demo_source_drivers demo_load_query (Some (demo_db D_POSTGRESQL)) (Some (demo_db D_MYSQL)) [] =
   Inr (True, [''SELECT id, v FROM st'', null_markers ''INSERT INTO t VALUES(x, 1)'',
               null_markers ''INSERT INTO t VALUES(dcpamNULL, 2)''])"
proof -
  let ?drv = demo_source_drivers and ?q = demo_load_query
  have ts: "load_targets ?q = [demo_target ''INSERT INTO t VALUES(?, ?)'' [''v'', ''id'']]"
    by (simp add: load_targets_def demo_load_query_def demo_load_def)
  have "CDC_LoadGeneric ?drv ?q (Some (demo_db D_POSTGRESQL)) (Some (demo_db D_MYSQL)) [] =
    Inr (True, send_all (\<lambda>s w. (No_result_set, w @ [s]))
      (concat (map (row_statements (load_targets ?q)) (mk_records demo_row_reply)))
      [''SELECT id, v FROM st''])"
  proof (rule load_sends_rows_by_targets [where ask = "\<lambda>sql w. (Rows demo_row_reply, w @ [sql])"])
    show "\<forall>t \<in> set (load_targets ?q). target_ok t"
      by (simp add: ts target_ok_def demo_target_def template_ok_def separated_def contains_def)
    show "\<forall>rec \<in> set (mk_records demo_row_reply). record_ok rec"
      by (simp add: demo_records record_ok_def)
  qed (simp_all add: demo_db_def demo_source_drivers_def demo_drivers_def demo_library_def demo_load_query_def
      demo_load_def the_str_def server_of_def contains_def names_fit_def demo_row_reply_def MAX_COLUMN_NAME_LEN_def MAX_COLUMNS_def)
  then show ?thesis
    by (simp add: ts demo_records row_statements_def target_statement_def record_statement_def demo_target_def the_str_def
        column_defs dcpamNULL_def)
qed

theorem missing_column_drops_row_witness:
  "DB_CDC_StageGeneric (demo_drivers Query_failed)
     \<lparr>sq_sql = Some ''INSERT INTO t VALUES(?)'', sq_sql_len = 23, sq_extracted_values = [''id'']\<rparr>
     (demo_db D_MYSQL) \<lparr>r_fields = [\<lparr>f_label = ''v'', f_value = Some ''x'', f_size = 1\<rparr>]\<rparr> [] = Inr []"
  using missing_column_drops_row [of "''INSERT INTO t VALUES(?)''" "[''id'']" "''id''"
      "\<lparr>r_fields = [\<lparr>f_label = ''v'', f_value = Some ''x'', f_size = 1\<rparr>]\<rparr>"
      "\<lparr>sq_sql = Some ''INSERT INTO t VALUES(?)'', sq_sql_len = 23, sq_extracted_values = [''id'']\<rparr>"
      "demo_drivers Query_failed" "demo_db D_MYSQL" "[]"]
  by (simp add: contains_def column_defs)

end
