(* ===== verification/Db_Stack.thy ===== *)
theory Db_Stack
  imports Db_Cursors Etl_Data
begin

text \<open>
  The eight drivers below \<open>DB_exec\<close>: the world holds a mutex for each driver beside everything else, and the
  parameters of \<open>Db_System\<close> for the five drivers with an effect on their mutex are instantiated with the
  models of \<open>Db_Stepping\<close> and \<open>Db_Cursors\<close>. What every driver promises of the shape of a result.
\<close>

section \<open>Clients with a mutex\<close>

text \<open>
  \<open>PG_exec\<close>, \<open>MYSQL_exec\<close> and \<open>MARIADB_exec\<close> with the mutex of their driver: it is locked before anything else
  (\<open>None\<close>: it was held, the call waits), released before every callback and at every return. Nothing locks it again
  after a callback, so the code releases a mutex that it no longer holds. POSIX leaves that undefined: with \<open>chk\<close> it is
  a fault; without, it is what Linux does with a mutex of the default kind: the mutex is free afterwards, whoever held it.
\<close>

definition unlock :: "bool \<Rightarrow> 'w guarded \<Rightarrow> 'w guarded outcome" where
  "unlock chk s = (if chk \<and> \<not> fst s then Inl Bad_unlock else Inr (False, snd s))"

fun locked_rows :: "bool \<Rightarrow> 'w guarded qec \<Rightarrow> DB_RECORD list \<Rightarrow> 'w guarded \<Rightarrow> 'w guarded outcome" where
  "locked_rows chk cb [] s = Inr s"
| "locked_rows chk cb (r # rs) s =
     obind (unlock chk s) (\<lambda>s. obind (cb r s) (\<lambda>s. locked_rows chk cb rs s))"

definition run_locked_rows ::
  "bool \<Rightarrow> 'w guarded qec option \<Rightarrow> result_set \<Rightarrow> 'w guarded \<Rightarrow> 'w guarded outcome" where
  "run_locked_rows chk cb rs s = (case cb of Some f \<Rightarrow> locked_rows chk f (mk_records rs) s | None \<Rightarrow> Inr s)"

definition PG_locked_exec :: "bool \<Rightarrow> 'w client_library \<Rightarrow> DB_CONNECTION \<Rightarrow> 'w guarded_exec" where
  "PG_locked_exec chk lib db_connection sql sql_length dst_result query_exec_callback s =
     (if fst s then None else Some
       (let dst = map_option (\<lambda>q. q\<lparr>q_row_count := 0, q_field_count := 0, q_sql := Some (take sql_length sql)\<rparr>)
                    dst_result;
            (rep, w) = (case cn_connection db_connection of
                          Some h \<Rightarrow> lib_query lib h (cstr_of sql) (snd s)
                        | None \<Rightarrow> (Query_failed, snd s));
            s = (True, w)
        in case rep of
             Rows rs \<Rightarrow>
               (let row_count = length (rs_tuples rs);
                    dst = map_option (\<lambda>q. q\<lparr>q_row_count := row_count\<rparr>) dst in
                if 0 < row_count
                then if names_fit (rs_names rs) \<or> (query_exec_callback = None \<and> dst = None)
                  then obind (run_locked_rows chk query_exec_callback rs s) (\<lambda>s.
                    obind (unlock chk s) (\<lambda>s. Inr (True,
                      map_option (\<lambda>q. q\<lparr>q_field_count := length (rs_names rs), q_records := mk_records rs\<rparr>) dst, s)))
                  else Inl Out_of_bounds
                else obind (unlock chk s) (\<lambda>s. Inr (True, dst, s)))
           | _ \<Rightarrow> obind (unlock chk s) (\<lambda>s. Inr (False, dst, s))))"

definition MYSQL_locked_exec :: "bool \<Rightarrow> 'w client_library \<Rightarrow> DB_CONNECTION \<Rightarrow> 'w guarded_exec" where
  "MYSQL_locked_exec chk lib db_connection sql sql_length dst_result query_exec_callback s =
     (if fst s then None else Some
       (let dst = map_option (\<lambda>q. q\<lparr>q_row_count := 0, q_field_count := 0, q_sql := Some (take sql_length sql)\<rparr>)
                    dst_result;
            finish = (\<lambda>ok dst s. obind (unlock chk s) (\<lambda>s. Inr (ok, dst, s)))
        in case cn_connection db_connection of
             None \<Rightarrow> finish True dst (True, snd s)
           | Some h \<Rightarrow>
               (case lib_query lib h (take sql_length sql) (snd s) of
                  (Query_failed, w) \<Rightarrow> finish False dst (True, w)
                | (No_result_set, w) \<Rightarrow> finish True dst (True, w)
                | (Rows rs, w) \<Rightarrow>
                    (let row_count = length (rs_tuples rs);
                         field_count = length (rs_names rs);
                         dst = map_option (\<lambda>q. q\<lparr>q_field_count := field_count\<rparr>) dst in
                     if row_count = 0 then finish True dst (True, w)
                     else if query_exec_callback \<noteq> None \<and> MAX_COLUMNS < field_count then Inl Out_of_bounds
                     else if query_exec_callback \<noteq> None \<and> dst \<noteq> None then Inl Null_pointer
                     else if query_exec_callback = None \<and> dst = None then finish True dst (True, w)
                     else if \<not> names_fit (rs_names rs) then Inl Out_of_bounds
                     else obind (run_locked_rows chk query_exec_callback rs (True, w)) (\<lambda>s. finish True
                       (map_option (\<lambda>q. q\<lparr>q_row_count := row_count, q_records := mk_records rs\<rparr>) dst) s)))))"

definition MARIADB_locked_exec :: "bool \<Rightarrow> 'w client_library \<Rightarrow> DB_CONNECTION \<Rightarrow> 'w guarded_exec" where
  "MARIADB_locked_exec = MYSQL_locked_exec"

lemma unlock_simps [simp]:
  "unlock False s = Inr (False, snd s)" "unlock chk (True, w) = Inr (False, w)" "unlock True (False, w) = Inl Bad_unlock"
  by (simp_all add: unlock_def)

lemmas locked_exec_defs = PG_locked_exec_def MYSQL_locked_exec_def run_locked_rows_def

lemma unlock_frees: "unlock chk s = Inr t \<Longrightarrow> \<not> fst t"
  by (auto simp: unlock_def split: if_splits)

text \<open>Whatever the callbacks do with the mutex, a driver that returns has released it.\<close>

lemma PG_locked_exec_releases: "PG_locked_exec chk lib c sql n dst cb s = Some (Inr (ok, dst', t)) \<Longrightarrow> \<not> fst t"
  by (auto simp: PG_locked_exec_def Let_def split: if_splits reply.splits prod.splits dest!: unlock_frees)

lemma MYSQL_locked_exec_releases: "MYSQL_locked_exec chk lib c sql n dst cb s = Some (Inr (ok, dst', t)) \<Longrightarrow> \<not> fst t"
  by (auto simp: MYSQL_locked_exec_def Let_def split: if_splits reply.splits prod.splits option.splits dest!: unlock_frees)

lemma locked_exec_waits [simp]:
  "PG_locked_exec chk lib c sql n dst cb (True, w) = None" "MYSQL_locked_exec chk lib c sql n dst cb (True, w) = None"
  by (simp_all add: PG_locked_exec_def MYSQL_locked_exec_def)

interpretation pg_mutex: releasing_driver "PG_locked_exec False lib c" True for lib c
  by unfold_locales (auto dest: PG_locked_exec_releases)

interpretation my_mutex: releasing_driver "MYSQL_locked_exec False lib c" True for lib c
  by unfold_locales (auto dest: MYSQL_locked_exec_releases)

interpretation maria_mutex: releasing_driver "MARIADB_locked_exec False lib c" True for lib c
  unfolding MARIADB_locked_exec_def by (rule my_mutex.releasing_driver_axioms)

text \<open>A client statement always returns, and so does every sequence of them.\<close>

lemma clients_always_return:
  "exec_all (PG_locked_exec False lib c) sqls (False, w) \<noteq> None"
  "exec_all (MYSQL_locked_exec False lib c) sqls (False, w) \<noteq> None"
  "exec_all (MARIADB_locked_exec False lib c) sqls (False, w) \<noteq> None"
  by (rule pg_mutex.exec_all_returns my_mutex.exec_all_returns maria_mutex.exec_all_returns;
      simp add: PG_locked_exec_def MYSQL_locked_exec_def MARIADB_locked_exec_def)+

text \<open>
  For a callback that leaves the mutex free the mutex makes no difference: this is why \<open>DB_exec\<close> may call
  the clients without it.
\<close>

definition same_callback :: "'w guarded qec option \<Rightarrow> 'w qec option \<Rightarrow> bool" where
  "same_callback f g \<longleftrightarrow>
     (case (f, g) of
        (None, None) \<Rightarrow> True
      | (Some f, Some g) \<Rightarrow> (\<forall>r w. f r (False, w) = obind (g r w) (\<lambda>w. Inr (False, w)))
      | _ \<Rightarrow> False)"

lemma same_callback_None: "same_callback f g \<Longrightarrow> f = None \<longleftrightarrow> g = None"
  by (auto simp: same_callback_def split: option.splits)

lemma locked_rows_transparent:
  assumes "\<And>r w. f r (False, w) = obind (g r w) (\<lambda>w. Inr (False, w))"
  shows "\<exists>m'. locked_rows False f rs (m, w) = obind (run_callback g rs w) (\<lambda>w. Inr (m', w))"
proof (induction rs arbitrary: m w)
  case (Cons r rs)
  show ?case
  proof (cases "g r w")
    case (Inr v)
    with assms [of r w] Cons [of False v] show ?thesis by simp
  qed (use assms [of r w] in simp)
qed simp

lemma run_locked_rows_transparent:
  assumes "same_callback f g"
  shows "\<exists>m'. run_locked_rows False f rs (m, w) = obind (run_rows g rs w) (\<lambda>w. Inr (m', w))"
proof (cases f)
  case None
  with assms show ?thesis by (cases g) (simp_all add: same_callback_def run_rows_def run_locked_rows_def)
next
  case (Some x)
  with assms obtain y where "g = Some y" "\<And>r w. x r (False, w) = obind (y r w) (\<lambda>w. Inr (False, w))"
    by (cases g) (auto simp: same_callback_def)
  with locked_rows_transparent [of x y "mk_records rs" m w] Some show ?thesis by (simp add: run_rows_def run_locked_rows_def)
qed

lemma PG_locked_exec_transparent:
  assumes "same_callback f g"
  shows "PG_locked_exec False lib c sql n dst f (False, w) =
    Some (obind (PG_exec lib c sql n dst g w) (\<lambda>(ok, d, w). Inr (ok, d, False, w)))"
proof (cases "cn_connection c")
  case (Some h)
  obtain rep v where q: "lib_query lib h (cstr_of sql) w = (rep, v)" by fastforce
  show ?thesis
  proof (cases rep)
    case (Rows rs)
    obtain m' where "run_locked_rows False f rs (True, v) = obind (run_rows g rs v) (\<lambda>w. Inr (m', w))"
      using run_locked_rows_transparent [OF assms] by blast
    with Some q Rows same_callback_None [OF assms] show ?thesis
      by (cases "run_rows g rs v") (auto simp: PG_locked_exec_def PG_exec_def Let_def)
  qed (use Some q in \<open>auto simp: PG_locked_exec_def PG_exec_def Let_def\<close>)
qed (auto simp: PG_locked_exec_def PG_exec_def Let_def)

lemma MYSQL_locked_exec_transparent:
  assumes "same_callback f g"
  shows "MYSQL_locked_exec False lib c sql n dst f (False, w) =
    Some (obind (MYSQL_exec lib c sql n dst g w) (\<lambda>(ok, d, w). Inr (ok, d, False, w)))"
proof (cases "cn_connection c")
  case (Some h)
  obtain rep v where q: "lib_query lib h (take n sql) w = (rep, v)" by fastforce
  show ?thesis
  proof (cases rep)
    case (Rows rs)
    obtain m' where "run_locked_rows False f rs (True, v) = obind (run_rows g rs v) (\<lambda>w. Inr (m', w))"
      using run_locked_rows_transparent [OF assms] by blast
    with Some q Rows same_callback_None [OF assms] show ?thesis
      by (cases "run_rows g rs v") (auto simp: MYSQL_locked_exec_def MYSQL_exec_def Let_def)
  qed (use Some q in \<open>auto simp: MYSQL_locked_exec_def MYSQL_exec_def Let_def\<close>)
qed (auto simp: MYSQL_locked_exec_def MYSQL_exec_def Let_def)

text \<open>
  C26: The mutex of a client is transparent: with the unlock calls at the places where the code has them, and an unlock
  of a free mutex without effect as on Linux, \<open>PG_exec\<close> and \<open>MYSQL_exec\<close> called with the mutex free and a callback
  that leaves it free do what they do without a mutex, and the mutex is free again on every path.
\<close>

theorem client_mutex_transparent:
  assumes "same_callback f g"
  shows "PG_locked_exec False lib c sql n dst f (False, w) =
           Some (obind (PG_exec lib c sql n dst g w) (\<lambda>(ok, d, w). Inr (ok, d, False, w))) \<and>
         MYSQL_locked_exec False lib c sql n dst f (False, w) =
           Some (obind (MYSQL_exec lib c sql n dst g w) (\<lambda>(ok, d, w). Inr (ok, d, False, w)))"
  using PG_locked_exec_transparent [OF assms] MYSQL_locked_exec_transparent [OF assms] by blast

text \<open>The drivers in one shape: the rows of a reply go to the callback, then the mutex is released once more.\<close>

lemma locked_exec_rows:
  assumes "exec \<in> {PG_locked_exec, MYSQL_locked_exec, MARIADB_locked_exec}" "cstring sql" "cn_connection c = Some h"
    "lib_query lib h sql w = (Rows rs, v)" "rs_tuples rs \<noteq> []" "names_fit (rs_names rs)" "length (rs_names rs) \<le> MAX_COLUMNS"
  shows "exec chk lib c (sql @ [NUL]) (length sql) None (Some f) (False, w) =
    Some (obind (locked_rows chk f (mk_records rs) (True, v)) (\<lambda>s. obind (unlock chk s) (\<lambda>s. Inr (True, None, s))))"
  using assms by (auto simp: PG_locked_exec_def MYSQL_locked_exec_def MARIADB_locked_exec_def run_locked_rows_def Let_def)

lemma locked_rows_bad:
  assumes "f r (False, w) = Inr (False, v)"
  shows "obind (locked_rows True f (r # rs) (True, w)) (\<lambda>s. obind (unlock True s) g) = Inl Bad_unlock"
  using assms by (cases rs) simp_all

lemma locked_rows_held:
  assumes "\<And>r w. \<exists>w'. f r (False, w) = Inr (True, w')"
  shows "\<exists>w'. locked_rows chk f rs (True, w) = Inr (True, w')"
proof (induction rs arbitrary: w)
  case (Cons r rs)
  from assms [of r w] obtain v where "f r (False, w) = Inr (True, v)" by blast
  with Cons [of v] show ?case by simp
qed simp

text \<open>
  C28: The drivers release a mutex that they do not hold: when a statement has rows and a callback, the mutex is released
  before each row and once more at the end, and never taken again. If it is free when the first callback returns, the
  next release is of a free mutex, which POSIX leaves undefined; if another thread has taken it during each callback,
  the driver releases it under that thread and returns with it free. This is so for PostgreSQL, MySQL and MariaDB.
\<close>

theorem rows_unlock_twice:
  assumes "exec \<in> {PG_locked_exec, MYSQL_locked_exec, MARIADB_locked_exec}" "cstring sql" "cn_connection c = Some h"
    "lib_query lib h sql w = (Rows rs, v)" "rs_tuples rs \<noteq> []" "names_fit (rs_names rs)" "length (rs_names rs) \<le> MAX_COLUMNS"
    "f (hd (mk_records rs)) (False, v) = Inr (False, v1)" "\<forall>r w. \<exists>w'. g r (False, w) = Inr (True, w')"
  shows "exec True lib c (sql @ [NUL]) (length sql) None (Some f) (False, w) = Some (Inl Bad_unlock) \<and>
         (\<exists>w'. exec chk lib c (sql @ [NUL]) (length sql) None (Some g) (False, w) = Some (Inr (True, None, False, w')))"
proof -
  from assms(5) obtain r recs where "mk_records rs = r # recs" by (cases "mk_records rs") auto
  with assms(8) have "obind (locked_rows True f (mk_records rs) (True, v)) (\<lambda>s. obind (unlock True s) (\<lambda>s. Inr (True, None, s))) =
      (Inl Bad_unlock :: (bool \<times> DB_QUERY option \<times> 'a guarded) outcome)"
    using locked_rows_bad [of f r v v1 recs] by simp
  moreover obtain w' where "locked_rows chk g (mk_records rs) (True, v) = Inr (True, w')"
    using locked_rows_held [of g chk "mk_records rs" v] assms(9) by blast
  ultimately show ?thesis by (simp add: locked_exec_rows [OF assms(1-7)])
qed

section \<open>All drivers below \<open>DB_exec\<close>\<close>

text \<open>The mutexes of the drivers, beside the rest of the world.\<close>

type_synonym 'w locked = "(DB_DRIVER \<Rightarrow> bool) \<times> 'w"

record 'w libraries =
  lb_client :: "DB_DRIVER \<Rightarrow> 'w client_library"
  lb_odbc :: "'w odbc_library"
  lb_oracle :: "'w oracle_library"
  lb_sqlite :: "'w sqlite_library"
  lb_memory :: "nat \<Rightarrow> DB_FIELD"
  lb_mongo :: "'w mongo_library"
  lb_ldap :: "'w ldap_library"

definition guarded_exec_of :: "'w libraries \<Rightarrow> DB_DRIVER \<Rightarrow> DB_CONNECTION \<Rightarrow> 'w guarded_exec" where
  "guarded_exec_of libs d c =
     (case d of
        D_POSTGRESQL \<Rightarrow> PG_locked_exec False (lb_client libs d) c
      | D_MYSQL \<Rightarrow> MYSQL_locked_exec False (lb_client libs d) c
      | D_MARIADB \<Rightarrow> MARIADB_locked_exec False (lb_client libs d) c
      | D_ODBC \<Rightarrow> ODBC_exec (lb_odbc libs) c
      | D_ORACLE \<Rightarrow> ORACLE_exec (lb_oracle libs) c
      | D_SQLITE \<Rightarrow> SQLITE_exec (lb_sqlite libs) (lb_memory libs) c
      | D_MONGODB \<Rightarrow> MONGODB_exec (lb_mongo libs) c
      | D_LDAP \<Rightarrow> LDAP_exec (lb_ldap libs) c)"

text \<open>A driver sees its own mutex and, as its world, all the others and the rest.\<close>

definition enter :: "DB_DRIVER \<Rightarrow> 'w locked \<Rightarrow> 'w locked guarded" where
  "enter d s = (fst s d, s)"

definition leave :: "DB_DRIVER \<Rightarrow> 'w locked guarded \<Rightarrow> 'w locked" where
  "leave d g = ((fst (snd g))(d := fst g), snd (snd g))"

definition stack_exec :: "'w locked libraries \<Rightarrow> DB_DRIVER \<Rightarrow> 'w locked exec_fun" where
  "stack_exec libs d c sql n dst cb s =
     (case guarded_exec_of libs d c sql n dst
             (map_option (\<lambda>f r g. obind (f r (leave d g)) (\<lambda>s. Inr (enter d s))) cb) (enter d s) of
        None \<Rightarrow> Inl Never_returns
      | Some r \<Rightarrow> obind r (\<lambda>(ok, dst, g). Inr (ok, dst, leave d g)))"

text \<open>
  The other operations. \<open>ORACLE_disconnect\<close> is called with the address of the connection, and \<open>LDAP_connect\<close>
  with its mutex free, since every operation of LDAP releases it: the remaining cases of the two do not arise.
\<close>

definition stack_connect ::
  "'w locked libraries \<Rightarrow> DB_DRIVER \<Rightarrow> DATABASE_SYSTEM_DB \<Rightarrow> 'w locked \<Rightarrow> bool \<times> DB_CONNECTION \<times> 'w locked" where
  "stack_connect libs d db s =
     (let run = (\<lambda>connect. connect (db_conn db) (the_str (db_ip db)) (db_port db) (the_str (db_db db)) (the_str (db_user db))
                   (the_str (db_password db)) (db_connection_string db) (the_str (db_name db)) s)
      in case d of
           D_ODBC \<Rightarrow> ODBC_connect (lb_odbc libs) (db_conn db) (db_connection_string db) (the_str (db_name db)) s
         | D_ORACLE \<Rightarrow> run (ORACLE_connect (lb_oracle libs))
         | D_SQLITE \<Rightarrow> SQLITE_connect (lb_sqlite libs) (db_conn db) (the_str (db_connection_string db)) (the_str (db_name db)) s
         | D_MONGODB \<Rightarrow> run (MONGODB_connect (lb_mongo libs))
         | D_LDAP \<Rightarrow>
             (case LDAP_connect (lb_ldap libs) (db_conn db) (the_str (db_ip db)) (db_port db) (the_str (db_db db))
                     (the_str (db_user db)) (the_str (db_password db)) (db_connection_string db) (the_str (db_name db)) (enter d s) of
                Some (ok, c, g) \<Rightarrow> (ok, c, leave d g)
              | None \<Rightarrow> (False, db_conn db, s))
         | _ \<Rightarrow> (False, db_conn db, s))"

definition stack_disconnect ::
  "'w locked libraries \<Rightarrow> DB_DRIVER \<Rightarrow> DB_CONNECTION \<Rightarrow> 'w locked \<Rightarrow> DB_CONNECTION \<times> 'w locked" where
  "stack_disconnect libs d c s =
     (case d of
        D_ODBC \<Rightarrow> ODBC_disconnect (lb_odbc libs) c s
      | D_ORACLE \<Rightarrow> (case ORACLE_disconnect (lb_oracle libs) (Some c) s of Inr r \<Rightarrow> r | Inl _ \<Rightarrow> (c, s))
      | D_SQLITE \<Rightarrow> (case SQLITE_disconnect (lb_sqlite libs) (Some c) s of (Some c, s) \<Rightarrow> (c, s) | (None, s) \<Rightarrow> (c, s))
      | D_MONGODB \<Rightarrow> (case MONGODB_disconnect (lb_mongo libs) (Some c) s of (Some c, s) \<Rightarrow> (c, s) | (None, s) \<Rightarrow> (c, s))
      | D_LDAP \<Rightarrow> LDAP_disconnect (lb_ldap libs) c s
      | _ \<Rightarrow> (c, s))"

definition all_drivers :: "'w locked libraries \<Rightarrow> 'w locked drivers" where
  "all_drivers libs =
     \<lparr>drv_pg = lb_client libs D_POSTGRESQL, drv_mysql = lb_client libs D_MYSQL, drv_mariadb = lb_client libs D_MARIADB,
      drv_other_exec = stack_exec libs, drv_other_connect = stack_connect libs, drv_other_disconnect = stack_disconnect libs\<rparr>"

section \<open>The shape of a result\<close>

text \<open>
  What the libraries document: every row of a statement has as many values as the statement has columns.
\<close>

definition client_lawful :: "'w client_library \<Rightarrow> bool" where
  "client_lawful lib \<longleftrightarrow>
     (\<forall>h sql w rs. fst (lib_query lib h sql w) = Rows rs \<longrightarrow> (\<forall>t \<in> set (rs_tuples rs). length t = length (rs_names rs)))"

definition sqlite_lawful :: "'w sqlite_library \<Rightarrow> bool" where
  "sqlite_lawful lib \<longleftrightarrow> (\<forall>stmt. \<exists>k. \<forall>w row. fst (sq_step lib stmt w) = Step_row row \<longrightarrow> length row = k)"

definition odbc_lawful :: "'w odbc_library \<Rightarrow> bool" where
  "odbc_lawful lib \<longleftrightarrow>
     (\<forall>stmt w v row n. fst (od_fetch lib stmt w) = Fetch_row row \<longrightarrow> fst (od_num_cols lib stmt v) = Some n \<longrightarrow> length row = n)"

definition oracle_lawful :: "'w oracle_library \<Rightarrow> bool" where
  "oracle_lawful lib \<longleftrightarrow>
     (\<forall>stmt. \<exists>k. (\<forall>i w. fst (or_param lib stmt i w) = (i \<le> k)) \<and>
                 (\<forall>w row. fst (or_fetch lib stmt w) = Oci_row row \<longrightarrow> length row = k))"

text \<open>A result as \<open>DB_QUERY_init\<close> leaves it.\<close>

definition initialised :: "DB_QUERY \<Rightarrow> bool" where
  "initialised q \<longleftrightarrow> q_records q = [] \<and> q_row_count q = 0"

lemma DB_QUERY_init_initialised: "DB_QUERY_init (Some q) = Some q' \<Longrightarrow> initialised q'"
  by (auto simp: DB_QUERY_init_def initialised_def)

definition shaped :: "bool \<Rightarrow> DB_QUERY option \<Rightarrow> bool" where
  "shaped ok dst \<longleftrightarrow> (\<exists>q. dst = Some q \<and> result_wf q \<and> (ok \<longrightarrow> result_ok q))"

text \<open>The contract: into an initialised result a driver writes one of the right shape, whatever happens.\<close>

locale shaped_driver =
  fixes exec :: "'w guarded_exec" and lawful :: bool
  assumes shape: "lawful \<Longrightarrow> initialised q \<Longrightarrow> exec sql n (Some q) cb s = Some (Inr (ok, dst, s')) \<Longrightarrow> shaped ok dst"
begin

text \<open>So the result can always be released.\<close>

lemma result_is_freed:
  "lawful \<Longrightarrow> initialised q \<Longrightarrow> exec sql n (Some q) cb s = Some (Inr (ok, dst, s')) \<Longrightarrow> \<exists>r. DB_QUERY_free dst = Inr r"
proof -
  assume "lawful" "initialised q" "exec sql n (Some q) cb s = Some (Inr (ok, dst, s'))"
  from shape [OF this] obtain q' where "dst = Some q'" "result_wf q'" by (auto simp: shaped_def)
  with result_wf_free show ?thesis by blast
qed

end

lemma shaped_start: "initialised q \<Longrightarrow> shaped ok (start_result sql n (Some q))"
  by (auto simp: shaped_def start_result_def initialised_def result_ok_def result_wf_def)

lemma shaped_unchanged: "initialised q \<Longrightarrow> shaped ok (Some q)"
  by (auto simp: shaped_def initialised_def result_ok_def result_wf_def)

lemma shaped_close:
  assumes "initialised q" "\<forall>r \<in> set recs. length (r_fields r) = width"
  shows "shaped ok (close_result recs width (start_result sql n (Some q)))"
  using assms
  by (auto simp: shaped_def close_result_def start_result_def store_rows_def initialised_def result_ok_def result_wf_def
      dest: in_set_takeD)

lemma shaped_uncounted:
  "initialised q \<Longrightarrow> shaped False (map_option (store_rows recs) (start_result sql n (Some q)))"
  by (auto simp: shaped_def start_result_def store_rows_def initialised_def result_wf_def)

lemma mk_records_width:
  "\<forall>t \<in> set (rs_tuples rs). length t = length (rs_names rs) \<Longrightarrow>
   r \<in> set (mk_records rs) \<Longrightarrow> length (r_fields r) = length (rs_names rs)"
  by (auto simp: mk_records_def mk_record_def)

lemma PG_exec_shape:
  assumes "client_lawful lib" "initialised q" "PG_exec lib c sql n (Some q) cb w = Inr (ok, dst, w')"
  shows "shaped ok dst"
proof (cases "case cn_connection c of Some h \<Rightarrow> lib_query lib h (cstr_of sql) w | None \<Rightarrow> (Query_failed, w)")
  case (Pair rep v)
  have wide: "rep = Rows rs \<Longrightarrow> \<forall>t \<in> set (rs_tuples rs). length t = length (rs_names rs)" for rs
    using assms(1) Pair unfolding client_lawful_def by (cases "cn_connection c") (auto, metis fst_conv)
  show ?thesis
  proof (cases rep)
    case (Rows rs)
    with assms(2,3) Pair mk_records_width [OF wide [OF Rows]] show ?thesis
      by (auto simp: PG_exec_def Let_def shaped_def initialised_def result_ok_def result_wf_def split: if_splits dest: in_set_takeD)
  qed (use assms(2,3) Pair in \<open>auto simp: PG_exec_def Let_def shaped_def initialised_def result_ok_def result_wf_def\<close>)
qed

lemma MYSQL_exec_shape:
  assumes "client_lawful lib" "initialised q" "MYSQL_exec lib c sql n (Some q) cb w = Inr (ok, dst, w')"
  shows "shaped ok dst"
proof (cases "cn_connection c")
  case (Some h)
  obtain rep v where r: "lib_query lib h (take n sql) w = (rep, v)" by fastforce
  have wide: "rep = Rows rs \<Longrightarrow> \<forall>t \<in> set (rs_tuples rs). length t = length (rs_names rs)" for rs
    using assms(1) r unfolding client_lawful_def by (metis fst_conv)
  show ?thesis
  proof (cases rep)
    case (Rows rs)
    with assms(2,3) Some r mk_records_width [OF wide [OF Rows]] show ?thesis
      by (auto simp: MYSQL_exec_def Let_def shaped_def initialised_def result_ok_def result_wf_def split: if_splits dest: in_set_takeD)
  qed (use assms(2,3) Some r in \<open>auto simp: MYSQL_exec_def Let_def shaped_def initialised_def result_ok_def result_wf_def\<close>)
qed (use assms(2,3) in \<open>auto simp: MYSQL_exec_def Let_def shaped_def initialised_def result_ok_def result_wf_def\<close>)

lemma guarded_step:
  "(if P then Some (Inl e) else (case c of Inl e \<Rightarrow> Some (Inl e) | Inr u \<Rightarrow> f u)) = Some (Inr z) \<Longrightarrow> \<exists>u. f u = Some (Inr z)"
  by (cases c; cases P) auto

text \<open>The loops of the stepping drivers, by induction on what they return.\<close>

lemma sqlite_rows_width:
  assumes "sqlite_rows lib mem stmt wanted cb recs width s = Some (Inr (recs', width', s'))"
    "\<And>w row. fst (sq_step lib stmt w) = Step_row row \<Longrightarrow> length row = k"
    "(\<forall>r \<in> set recs. length (r_fields r) = k) \<and> (recs \<noteq> [] \<longrightarrow> width = k)"
  shows "(\<forall>r \<in> set recs'. length (r_fields r) = k) \<and> (recs' \<noteq> [] \<longrightarrow> width' = k)"
proof -
  obtain y where y: "sqlite_rows lib mem stmt wanted cb recs width s = Some y" "y = Inr (recs', width', s')"
    using assms(1) by blast
  have "lib = lib \<longrightarrow> stmt = stmt \<longrightarrow> (\<forall>r \<in> set recs. length (r_fields r) = k) \<and> (recs \<noteq> [] \<longrightarrow> width = k) \<longrightarrow>
      (\<forall>rs wd t. y = Inr (rs, wd, t) \<longrightarrow> (\<forall>r \<in> set rs. length (r_fields r) = k) \<and> (rs \<noteq> [] \<longrightarrow> wd = k))"
  proof (rule sqlite_rows.raw_induct [where P = "\<lambda>l mem st wanted cb recs width s y. l = lib \<longrightarrow> st = stmt \<longrightarrow>
      (\<forall>r \<in> set recs. length (r_fields r) = k) \<and> (recs \<noteq> [] \<longrightarrow> width = k) \<longrightarrow>
      (\<forall>rs wd t. y = Inr (rs, wd, t) \<longrightarrow> (\<forall>r \<in> set rs. length (r_fields r) = k) \<and> (rs \<noteq> [] \<longrightarrow> wd = k))", OF _ y(1)],
      goal_cases)
    case (1 rows l mem st wanted cb rc wd t y)
    obtain x v where v: "sq_step l st (snd t) = (x, v)" by fastforce
    show ?case
    proof (intro impI)
      assume here: "l = lib" "st = stmt" and old: "(\<forall>r \<in> set rc. length (r_fields r) = k) \<and> (rc \<noteq> [] \<longrightarrow> wd = k)"
      show "\<forall>rs wd' t'. y = Inr (rs, wd', t') \<longrightarrow> (\<forall>r \<in> set rs. length (r_fields r) = k) \<and> (rs \<noteq> [] \<longrightarrow> wd' = k)"
      proof (cases x)
        case Step_done
        with v 1(2) old show ?thesis by auto
      next
        case (Step_row row)
        have len: "length row = k" using assms(2) [of "snd t" row] v Step_row here by simp
        let ?rc = "if wanted then rc @ [\<lparr>r_fields = map sqlite_field row\<rparr>] else rc"
        show ?thesis
        proof (cases y)
          case (Inr z)
          define cbr where "cbr = (case cb of None \<Rightarrow> Inr (fst t, v) | Some f \<Rightarrow> f (sqlite_callback_record mem row) (False, v))"
          from 1(2) have "(if (cb \<noteq> None \<or> wanted) \<and> \<not> names_fit (map fst row) then Some (Inl Out_of_bounds)
              else (case cbr of Inl e \<Rightarrow> Some (Inl e) | Inr u \<Rightarrow> rows l mem st wanted cb ?rc (length row) u)) = Some (Inr z)"
            by (simp only: v Step_row cbr_def prod.case sqlite_step.case snd_conv Inr)
          from guarded_step [OF this] obtain u where u: "rows l mem st wanted cb ?rc (length row) u = Some y"
            unfolding Inr by blast
          have "(\<forall>r \<in> set ?rc. length (r_fields r) = k) \<and> (?rc \<noteq> [] \<longrightarrow> length row = k)"
            using len old by auto
          with 1(1) [OF u] here show ?thesis by blast
        qed simp
      next
        case Step_error
        show ?thesis
        proof (cases y)
          case (Inr z)
          with Step_error 1(2) v have "rows l mem st wanted cb rc wd (fst t, v) = Some y" by (auto split: if_splits)
          from 1(1) [OF this] here old show ?thesis by blast
        qed simp
      qed
    qed
  qed
  with assms(3) y(2) show ?thesis by blast
qed

lemma odbc_fields_length: "odbc_fields cols vals = Inr fs \<Longrightarrow> length fs = min (length cols) (length vals)"
  by (induction cols vals arbitrary: fs rule: odbc_fields.induct) auto

lemma odbc_rows_width:
  assumes "odbc_rows lib stmt cols wanted cb recs s = Some (Inr (ok, recs', s'))"
    "\<And>w row. fst (od_fetch lib stmt w) = Fetch_row row \<Longrightarrow> length row = length cols"
    "\<forall>r \<in> set recs. length (r_fields r) = length cols"
  shows "\<forall>r \<in> set recs'. length (r_fields r) = length cols"
proof -
  obtain y where y: "odbc_rows lib stmt cols wanted cb recs s = Some y" "y = Inr (ok, recs', s')"
    using assms(1) by blast
  have "lib = lib \<longrightarrow> stmt = stmt \<longrightarrow> cols = cols \<longrightarrow> (\<forall>r \<in> set recs. length (r_fields r) = length cols) \<longrightarrow>
      (\<forall>ok rs t. y = Inr (ok, rs, t) \<longrightarrow> (\<forall>r \<in> set rs. length (r_fields r) = length cols))"
  proof (rule odbc_rows.raw_induct [where P = "\<lambda>l st cs wanted cb recs s y. l = lib \<longrightarrow> st = stmt \<longrightarrow> cs = cols \<longrightarrow>
      (\<forall>r \<in> set recs. length (r_fields r) = length cols) \<longrightarrow>
      (\<forall>ok rs t. y = Inr (ok, rs, t) \<longrightarrow> (\<forall>r \<in> set rs. length (r_fields r) = length cols))", OF _ y(1)], goal_cases)
    case (1 rows l st cs wanted cb rc t y)
    obtain x v where v: "od_fetch l st (snd t) = (x, v)" by fastforce
    show ?case
    proof (intro impI)
      assume here: "l = lib" "st = stmt" "cs = cols" and old: "\<forall>r \<in> set rc. length (r_fields r) = length cols"
      show "\<forall>ok rs t'. y = Inr (ok, rs, t') \<longrightarrow> (\<forall>r \<in> set rs. length (r_fields r) = length cols)"
      proof (cases x)
        case (Fetch_row vals)
        have len: "length vals = length cols" using assms(2) [of "snd t" vals] v Fetch_row here by simp
        show ?thesis
        proof (cases "cb = None \<and> \<not> wanted")
          case True
          with 1(2) v Fetch_row have "rows l st cs wanted cb rc (fst t, v) = Some y" by simp
          from 1(1) [OF this] here old show ?thesis by blast
        next
          case active: False
          show ?thesis
          proof (cases y)
            case (Inr z)
            obtain fs where fs: "odbc_fields cs vals = Inr fs"
              using 1(2) v Fetch_row active Inr by (cases "odbc_fields cs vals") auto
            let ?rc = "if wanted then rc @ [\<lparr>r_fields = fs\<rparr>] else rc"
            define cbr where "cbr = (case cb of None \<Rightarrow> Inr (fst t, v) | Some f \<Rightarrow> f \<lparr>r_fields = fs\<rparr> (False, v))"
            from 1(2) have "(if False then Some (Inl Out_of_bounds)
                else (case cbr of Inl e \<Rightarrow> Some (Inl e) | Inr u \<Rightarrow> rows l st cs wanted cb ?rc u)) = Some (Inr z)"
              by (simp only: v Fetch_row cbr_def prod.case odbc_fetch.case snd_conv Inr active fs sum.case if_False)
            from guarded_step [OF this] obtain u where u: "rows l st cs wanted cb ?rc u = Some y" unfolding Inr by blast
            have "\<forall>r \<in> set ?rc. length (r_fields r) = length cols" using odbc_fields_length [OF fs] len here old by auto
            with 1(1) [OF u] here show ?thesis by blast
          qed simp
        qed
      qed (use v 1(2) old in auto)
    qed
  qed
  with assms(3) y(2) show ?thesis by blast
qed

lemma mk_record_width: "length vals = length names \<Longrightarrow> length (r_fields (mk_record names vals)) = length names"
  by (simp add: mk_record_def)

lemma oracle_rows_width:
  assumes "oracle_rows lib stmt names wanted cb recs s = Some (Inr (recs', s'))"
    "\<And>w row. fst (or_fetch lib stmt w) = Oci_row row \<Longrightarrow> length row = length names"
    "\<forall>r \<in> set recs. length (r_fields r) = length names"
  shows "\<forall>r \<in> set recs'. length (r_fields r) = length names"
proof -
  obtain y where y: "oracle_rows lib stmt names wanted cb recs s = Some y" "y = Inr (recs', s')"
    using assms(1) by blast
  have "lib = lib \<longrightarrow> stmt = stmt \<longrightarrow> names = names \<longrightarrow> (\<forall>r \<in> set recs. length (r_fields r) = length names) \<longrightarrow>
      (\<forall>rs t. y = Inr (rs, t) \<longrightarrow> (\<forall>r \<in> set rs. length (r_fields r) = length names))"
  proof (rule oracle_rows.raw_induct [where P = "\<lambda>l st ns wanted cb recs s y. l = lib \<longrightarrow> st = stmt \<longrightarrow> ns = names \<longrightarrow>
      (\<forall>r \<in> set recs. length (r_fields r) = length names) \<longrightarrow>
      (\<forall>rs t. y = Inr (rs, t) \<longrightarrow> (\<forall>r \<in> set rs. length (r_fields r) = length names))", OF _ y(1)], goal_cases)
    case (1 rows l st ns wanted cb rc t y)
    obtain x v where v: "or_fetch l st (snd t) = (x, v)" by fastforce
    show ?case
    proof (intro impI)
      assume here: "l = lib" "st = stmt" "ns = names" and old: "\<forall>r \<in> set rc. length (r_fields r) = length names"
      show "\<forall>rs t'. y = Inr (rs, t') \<longrightarrow> (\<forall>r \<in> set rs. length (r_fields r) = length names)"
      proof (cases x)
        case (Oci_row vals)
        have len: "length vals = length names" using assms(2) [of "snd t" vals] v Oci_row here by simp
        show ?thesis
        proof (cases "cb = None \<and> \<not> wanted")
          case True
          with 1(2) v Oci_row have "rows l st ns wanted cb rc (fst t, v) = Some y" by simp
          from 1(1) [OF this] here old show ?thesis by blast
        next
          case active: False
          show ?thesis
          proof (cases y)
            case (Inr z)
            let ?rc = "if wanted then rc @ [mk_record ns vals] else rc"
            define cbr where "cbr = (case cb of None \<Rightarrow> Inr (fst t, v) | Some f \<Rightarrow> f (mk_record ns vals) (False, v))"
            from 1(2) have "(if \<not> names_fit ns then Some (Inl Out_of_bounds)
                else (case cbr of Inl e \<Rightarrow> Some (Inl e) | Inr u \<Rightarrow> rows l st ns wanted cb ?rc u)) = Some (Inr z)"
              by (simp only: v Oci_row cbr_def prod.case oci_fetch.case snd_conv Inr active if_False)
            from guarded_step [OF this] obtain u where u: "rows l st ns wanted cb ?rc u = Some y" unfolding Inr by blast
            have "\<forall>r \<in> set ?rc. length (r_fields r) = length names" using mk_record_width [OF len] here old by auto
            with 1(1) [OF u] here show ?thesis by blast
          qed simp
        qed
      qed (use v 1(2) old in auto)
    qed
  qed
  with assms(3) y(2) show ?thesis by blast
qed

lemma mongo_replies_width:
  assumes "mongo_replies lib cursor cb recs s = Some (Inr (recs', s'))" "\<forall>r \<in> set recs. length (r_fields r) = 1"
  shows "\<forall>r \<in> set recs'. length (r_fields r) = 1"
proof -
  obtain y where y: "mongo_replies lib cursor cb recs s = Some y" "y = Inr (recs', s')"
    using assms(1) by blast
  have "(\<forall>r \<in> set recs. length (r_fields r) = 1) \<longrightarrow> (\<forall>rs t. y = Inr (rs, t) \<longrightarrow> (\<forall>r \<in> set rs. length (r_fields r) = 1))"
  proof (rule mongo_replies.raw_induct [where P = "\<lambda>l k cb recs s y. (\<forall>r \<in> set recs. length (r_fields r) = 1) \<longrightarrow>
      (\<forall>rs t. y = Inr (rs, t) \<longrightarrow> (\<forall>r \<in> set rs. length (r_fields r) = 1))", OF _ y(1)], goal_cases)
    case (1 rows l k cb rc t y)
    obtain x v where v: "mg_next l k (snd t) = (x, v)" by fastforce
    show ?case
    proof (cases x)
      case None
      with v 1(2) show ?thesis by auto
    next
      case (Some reply)
      show ?thesis
      proof (cases y)
        case (Inr z)
        obtain docs where docs: "reply_documents reply = Inr docs"
          using 1(2) v Some Inr by (cases "reply_documents reply") auto
        let ?rs = "map (mongo_record l) docs"
        define cbr where "cbr = (case cb of None \<Rightarrow> Inr (fst t, v) | Some f \<Rightarrow> released_callback f ?rs (fst t, v))"
        from 1(2) have "(if False then Some (Inl Out_of_bounds)
            else (case cbr of Inl e \<Rightarrow> Some (Inl e) | Inr u \<Rightarrow> rows l k cb (rc @ ?rs) u)) = Some (Inr z)"
          by (simp only: v Some docs cbr_def prod.case option.case sum.case Let_def snd_conv Inr if_False)
        from guarded_step [OF this] obtain u where u: "rows l k cb (rc @ ?rs) u = Some y" unfolding Inr by blast
        have "(\<forall>r \<in> set rc. length (r_fields r) = 1) \<longrightarrow> (\<forall>r \<in> set (rc @ ?rs). length (r_fields r) = 1)"
          by (auto simp: mongo_record_def)
        with 1(1) [OF u] show ?thesis by blast
      qed simp
    qed
  qed
  with assms(2) y(2) show ?thesis by blast
qed

lemma oracle_columns_next:
  assumes "oracle_columns lib stmt counter w = Inr (Some names, w')" "fst (or_param lib stmt counter w)"
  shows "\<exists>u nm rest u'. oracle_columns lib stmt (counter + 1) u = Inr (Some rest, u') \<and> names = cstr_of nm # rest"
proof -
  obtain v where v: "or_param lib stmt counter w = (True, v)" using assms(2) by (cases "or_param lib stmt counter w") auto
  from assms(1) show ?thesis
    by (subst (asm) oracle_columns.simps)
      (force simp: v split: prod.splits option.splits if_splits)
qed

lemma oracle_columns_count:
  assumes "\<And>i w. fst (or_param lib stmt i w) = (i \<le> k)"
  shows "counter \<le> Suc k \<Longrightarrow> oracle_columns lib stmt counter w = Inr (Some names, w') \<Longrightarrow> length names + counter = Suc k"
proof (induction "Suc k - counter" arbitrary: counter w names w')
  case 0
  then have "\<not> fst (or_param lib stmt counter w)" using assms by simp
  with 0 show ?case by (subst (asm) oracle_columns.simps) (auto split: prod.splits)
next
  case (Suc m)
  then have "fst (or_param lib stmt counter w)" using assms by simp
  from oracle_columns_next [OF Suc(4) this] obtain u nm rest u' where
    r: "oracle_columns lib stmt (counter + 1) u = Inr (Some rest, u')" "names = cstr_of nm # rest" by blast
  have "length rest + (counter + 1) = Suc k" by (rule Suc(1) [OF _ _ r(1)]) (use Suc(2) in auto)
  with r(2) show ?case by simp
qed

lemma start_result_Some [simp]: "start_result sql n (Some q) \<noteq> None"
  by (simp add: start_result_def)

lemma PG_locked_exec_shape:
  assumes "client_lawful lib" "initialised q" "PG_locked_exec chk lib c sql n (Some q) cb s = Some (Inr (ok, dst, s'))"
  shows "shaped ok dst"
proof (cases "case cn_connection c of Some h \<Rightarrow> lib_query lib h (cstr_of sql) (snd s) | None \<Rightarrow> (Query_failed, snd s)")
  case (Pair rep v)
  have wide: "rep = Rows rs \<Longrightarrow> \<forall>t \<in> set (rs_tuples rs). length t = length (rs_names rs)" for rs
    using assms(1) Pair unfolding client_lawful_def by (cases "cn_connection c") (auto, metis fst_conv)
  show ?thesis
  proof (cases rep)
    case (Rows rs)
    with assms(2,3) Pair mk_records_width [OF wide [OF Rows]] show ?thesis
      by (auto simp: PG_locked_exec_def Let_def shaped_def initialised_def result_ok_def result_wf_def
          split: if_splits dest: in_set_takeD)
  qed (use assms(2,3) Pair in
      \<open>auto simp: PG_locked_exec_def Let_def shaped_def initialised_def result_ok_def result_wf_def split: if_splits\<close>)
qed

lemma MYSQL_locked_exec_shape:
  assumes "client_lawful lib" "initialised q" "MYSQL_locked_exec chk lib c sql n (Some q) cb s = Some (Inr (ok, dst, s'))"
  shows "shaped ok dst"
proof (cases "cn_connection c")
  case (Some h)
  obtain rep v where r: "lib_query lib h (take n sql) (snd s) = (rep, v)" by fastforce
  have wide: "rep = Rows rs \<Longrightarrow> \<forall>t \<in> set (rs_tuples rs). length t = length (rs_names rs)" for rs
    using assms(1) r unfolding client_lawful_def by (metis fst_conv)
  show ?thesis
  proof (cases rep)
    case (Rows rs)
    with assms(2,3) Some r mk_records_width [OF wide [OF Rows]] show ?thesis
      by (auto simp: MYSQL_locked_exec_def Let_def shaped_def initialised_def result_ok_def result_wf_def
          split: if_splits dest: in_set_takeD)
  qed (use assms(2,3) Some r in
      \<open>auto simp: MYSQL_locked_exec_def Let_def shaped_def initialised_def result_ok_def result_wf_def split: if_splits\<close>)
qed (use assms(2,3) in
    \<open>auto simp: MYSQL_locked_exec_def Let_def shaped_def initialised_def result_ok_def result_wf_def split: if_splits\<close>)

interpretation pg_shape: shaped_driver "PG_locked_exec False lib c" "client_lawful lib" for lib c
  by unfold_locales (rule PG_locked_exec_shape)

interpretation my_shape: shaped_driver "MYSQL_locked_exec False lib c" "client_lawful lib" for lib c
  by unfold_locales (rule MYSQL_locked_exec_shape)

interpretation maria_shape: shaped_driver "MARIADB_locked_exec False lib c" "client_lawful lib" for lib c
  unfolding MARIADB_locked_exec_def by (rule my_shape.shaped_driver_axioms)

lemma SQLITE_exec_shape:
  assumes "sqlite_lawful lib" "initialised q" "SQLITE_exec lib mem c sql n (Some q) cb s = Some (Inr (ok, dst, s'))"
  shows "shaped ok dst"
proof -
  let ?dst = "start_result sql n (Some q)"
  have s: "shaped ok ?dst" by (rule shaped_start [OF assms(2)])
  have wide: "shaped ok (close_result recs width ?dst)"
    if "sqlite_rows lib mem stmt True cb [] 0 t = Some (Inr (recs, width, t'))" for stmt t recs width t'
  proof -
    obtain k where "\<And>w row. fst (sq_step lib stmt w) = Step_row row \<Longrightarrow> length row = k"
      using assms(1) unfolding sqlite_lawful_def by metis
    from sqlite_rows_width [OF that this] have "\<forall>r \<in> set recs. length (r_fields r) = width" by fastforce
    then show ?thesis by (rule shaped_close [OF assms(2)])
  qed
  from assms(3) s show ?thesis
    by (auto simp: SQLITE_exec_def Let_def split: option.splits prod.splits if_splits dest!: wide)
qed

interpretation sqlite_shape: shaped_driver "SQLITE_exec lib mem c" "sqlite_lawful lib" for lib mem c
  by unfold_locales (rule SQLITE_exec_shape)

lemma odbc_columns_length: "odbc_columns lib stmt is w = (Some cs, w') \<Longrightarrow> length cs = length is"
  by (induction "is" arbitrary: w w' cs) (auto split: prod.splits option.splits bool.splits)

lemma odbc_bind_columns_length:
  "odbc_bind_columns lib stmt w = Inr (Inr cols, w') \<Longrightarrow> \<exists>v. od_num_cols lib stmt w = (Some (length cols), v)"
  by (auto simp: odbc_bind_columns_def split: prod.splits option.splits if_splits dest!: odbc_columns_length)

lemma odbc_run_shape:
  assumes "initialised q" "odbc_run lib stmt cols (start_result sql n (Some q)) cb w = Some (Inr (ok, dst, s'))"
    "cols \<noteq> [] \<Longrightarrow> \<forall>w row. fst (od_fetch lib stmt w) = Fetch_row row \<longrightarrow> length row = length cols"
  shows "shaped ok dst"
proof -
  let ?dst = "start_result sql n (Some q)"
  obtain okx v where e: "od_execute lib stmt w = (okx, v)" by fastforce
  show ?thesis
  proof (cases "okx \<and> cols \<noteq> []")
    case True
    with assms(2) e obtain good recs m u where
      r: "odbc_rows lib stmt cols True cb [] (True, v) = Some (Inr (good, recs, m, u))"
      and dst: "ok = good" "dst = (if good then close_result recs (length cols) ?dst else map_option (store_rows recs) ?dst)"
      by (auto simp: odbc_run_def split: if_splits)
    have "\<forall>r \<in> set recs. length (r_fields r) = length cols"
      by (rule odbc_rows_width [OF r]) (use assms(3) True in auto)
    with dst show ?thesis by (auto intro: shaped_close shaped_uncounted assms(1))
  next
    case False
    with assms(2) e shaped_start [OF assms(1)] show ?thesis by (auto simp: odbc_run_def split: bool.splits if_splits)
  qed
qed

lemma ODBC_exec_shape:
  assumes "odbc_lawful lib" "initialised q" "ODBC_exec lib c sql n (Some q) cb s = Some (Inr (ok, dst, s'))"
  shows "shaped ok dst"
proof -
  have s: "shaped ok (start_result sql n (Some q))" "shaped ok (Some q)"
    by (rule shaped_start [OF assms(2)] shaped_unchanged [OF assms(2)])+
  have sel: "shaped ok dst" if "odbc_bind_columns lib stmt v = Inr (Inr cols, u)"
    "odbc_run lib stmt cols (start_result sql n (Some q)) cb u = Some (Inr (ok, dst, s'))" for stmt cols v u
  proof (rule odbc_run_shape [OF assms(2) that(2)])
    show "\<forall>w row. fst (od_fetch lib stmt w) = Fetch_row row \<longrightarrow> length row = length cols"
      using odbc_bind_columns_length [OF that(1)] assms(1) unfolding odbc_lawful_def by (metis fst_conv)
  qed
  from assms(3) s show ?thesis
    by (auto simp: ODBC_exec_def Let_def split: option.splits prod.splits if_splits bool.splits sum.splits
        intro: sel odbc_run_shape [OF assms(2)])
qed

interpretation odbc_shape: shaped_driver "ODBC_exec lib c" "odbc_lawful lib" for lib c
  by unfold_locales (rule ODBC_exec_shape)

lemma ORACLE_exec_shape:
  assumes "oracle_lawful lib" "initialised q" "ORACLE_exec lib c sql n (Some q) cb s = Some (Inr (ok, dst, s'))"
  shows "shaped ok dst"
proof -
  let ?dst = "start_result sql n (Some q)"
  have s: "shaped ok ?dst" "shaped ok (Some q)"
    by (rule shaped_start [OF assms(2)] shaped_unchanged [OF assms(2)])+
  have wide: "shaped b (close_result recs (length names) ?dst)"
    if "oracle_columns lib stmt 1 v = Inr (Some names, v')" "oracle_rows lib stmt names True cb [] t = Some (Inr (recs, t'))"
    for b stmt v v' t recs names t'
  proof -
    obtain k where k: "\<And>i w. fst (or_param lib stmt i w) = (i \<le> k)" "\<And>w row. fst (or_fetch lib stmt w) = Oci_row row \<Longrightarrow> length row = k"
      using assms(1) unfolding oracle_lawful_def by metis
    have "length names = k" using oracle_columns_count [OF k(1) _ that(1)] by simp
    with oracle_rows_width [OF that(2)] k(2) show ?thesis by (intro shaped_close [OF assms(2)]) auto
  qed
  from assms(3) s show ?thesis
    by (auto simp: ORACLE_exec_def Let_def split: option.splits prod.splits if_splits bool.splits sum.splits intro: wide)
qed

interpretation oci_shape: shaped_driver "ORACLE_exec lib c" "oracle_lawful lib" for lib c
  by unfold_locales (rule ORACLE_exec_shape)

lemma MONGODB_exec_shape:
  assumes "initialised q" "MONGODB_exec lib c sql n (Some q) cb s = Some (Inr (ok, dst, s'))"
  shows "shaped ok dst"
proof -
  have s: "shaped ok (start_result sql n (Some q))" by (rule shaped_start [OF assms(1)])
  have wide: "shaped b (close_result recs 1 (start_result sql n (Some q)))"
    if "mongo_replies lib cursor cb [] t = Some (Inr (recs, t'))" for b cursor t recs t'
    using mongo_replies_width [OF that] by (intro shaped_close [OF assms(1)]) auto
  from assms(2) s show ?thesis
    by (auto simp: MONGODB_exec_def Let_def split: option.splits prod.splits if_splits intro: wide [unfolded One_nat_def])
qed

interpretation mongo_shape: shaped_driver "MONGODB_exec lib c" True for lib c
  by unfold_locales (rule MONGODB_exec_shape)

interpretation ldap_shape: shaped_driver "LDAP_exec lib c" True for lib c
  by unfold_locales (auto simp: LDAP_exec_def Let_def split: if_splits option.splits prod.splits intro: shaped_start)

section \<open>Results and mutexes through \<open>DB_exec\<close>\<close>

definition libraries_lawful :: "'w libraries \<Rightarrow> bool" where
  "libraries_lawful libs \<longleftrightarrow>
     (\<forall>d. client_lawful (lb_client libs d)) \<and> odbc_lawful (lb_odbc libs) \<and> oracle_lawful (lb_oracle libs) \<and>
     sqlite_lawful (lb_sqlite libs)"

lemma guarded_exec_of_shape:
  assumes "libraries_lawful libs" "initialised q" "guarded_exec_of libs d c sql n (Some q) cb s = Some (Inr (ok, dst, s'))"
  shows "shaped ok dst"
proof -
  have k: "client_lawful (lb_client libs d)" for d using assms(1) by (simp add: libraries_lawful_def)
  have l: "odbc_lawful (lb_odbc libs)" "oracle_lawful (lb_oracle libs)" "sqlite_lawful (lb_sqlite libs)"
    using assms(1) by (simp_all add: libraries_lawful_def)
  show ?thesis
    using assms(3)
    by (cases d)
      (auto simp: guarded_exec_of_def dest: pg_shape.shape [OF k assms(2)] my_shape.shape [OF k assms(2)]
        maria_shape.shape [OF k assms(2)] odbc_shape.shape [OF l(1) assms(2)] oci_shape.shape [OF l(2) assms(2)]
        sqlite_shape.shape [OF l(3) assms(2)] mongo_shape.shape [OF TrueI assms(2)] ldap_shape.shape [OF TrueI assms(2)])
qed

lemma stack_exec_shape:
  assumes "libraries_lawful libs" "initialised q" "stack_exec libs d c sql n (Some q) cb s = Inr (ok, dst, s')"
  shows "shaped ok dst"
  using assms(3) by (auto simp: stack_exec_def split: option.splits dest: guarded_exec_of_shape [OF assms(1,2)])

lemma driver_exec_shape:
  assumes "libraries_lawful libs" "initialised q" "driver_exec (all_drivers libs) d c sql n (Some q) cb s = Inr (ok, dst, s')"
  shows "shaped ok dst"
proof -
  have l: "client_lawful (lb_client libs k)" for k using assms(1) by (simp add: libraries_lawful_def)
  show ?thesis
    using assms(3)
    by (auto simp: driver_exec_def all_drivers_def MARIADB_exec_def split: option.splits DB_DRIVER.splits
        dest: PG_exec_shape [OF l assms(2)] MYSQL_exec_shape [OF l assms(2)] stack_exec_shape [OF assms(1,2)]
        intro: shaped_unchanged [OF assms(2)])
qed

text \<open>
  C17: Every result has its shape: whatever the driver, the statement and the answer, a result that was initialised
  holds at least as many records as its count says, each counted record has the stated number of fields, on
  success every stored record has, and \<open>DB_QUERY_free\<close> releases the result without a fault.
\<close>

theorem DB_exec_result_shape:
  assumes "libraries_lawful libs" "initialised q" "DB_exec (all_drivers libs) db sql n (Some q) vals cb s = Inr (ok, dst, s')"
  shows "\<exists>q'. dst = Some q' \<and> result_wf q' \<and> (ok \<longrightarrow> result_ok q') \<and> (\<exists>r. DB_QUERY_free (Some q') = Inr r)"
proof -
  have "shaped ok dst"
    using assms(3)
    by (auto simp: DB_exec_def split: option.splits prod.splits if_splits
        dest: driver_exec_shape [OF assms(1,2)] intro: shaped_unchanged [OF assms(2)])
  then show ?thesis using result_wf_free by (auto simp: shaped_def)
qed

text \<open>The mutex of a driver that always releases is free after a statement when it was before.\<close>

lemma stack_exec_frees:
  "stack_exec libs d c buf k dst f s = Inr (ok, dst', t) \<Longrightarrow> d = D_ORACLE \<or> d = D_LDAP \<Longrightarrow> \<not> fst s d \<Longrightarrow> \<not> fst t d"
  by (auto simp: stack_exec_def guarded_exec_of_def enter_def leave_def split: option.splits dest: oci.exec_free ldap.exec_free)

lemma DB_exec_frees:
  assumes "db_driver db = Some d" "d = D_ORACLE \<or> d = D_LDAP" "\<not> fst s d"
    "DB_exec (all_drivers libs) db sql n dst vals cb s = Inr (ok, dst', s')"
  shows "\<not> fst s' d"
  using assms
  by (auto simp: DB_exec_def driver_exec_def all_drivers_def split: option.splits prod.splits if_splits dest: stack_exec_frees)







section \<open>Concrete libraries\<close>

text \<open>Clients that answer every statement with two rows, and an SQLite that can prepare nothing.\<close>

definition demo_libraries :: "string list locked libraries" where
  "demo_libraries =
     \<lparr>lb_client = (\<lambda>d. \<lparr>lib_connect = (\<lambda>args s. (True, 7, s)),
                        lib_query = (\<lambda>h sql s. (Rows demo_row_reply, fst s, snd s @ [sql])), lib_close = (\<lambda>h s. s)\<rparr>),
      lb_odbc =
        \<lparr>od_alloc_env = (\<lambda>s. (None, s)), od_set_version = (\<lambda>h s. (True, s)), od_alloc_dbc = (\<lambda>h s. (None, s)),
         od_driver_connect = (\<lambda>h t s. (False, s)), od_disconnect = (\<lambda>h s. s), od_free = (\<lambda>h s. s), od_alloc_stmt = (\<lambda>h s. (None, s)),
         od_prepare = (\<lambda>h t s. (False, s)), od_num_cols = (\<lambda>h s. (None, s)), od_describe = (\<lambda>h i s. (None, s)),
         od_bind = (\<lambda>h i n s. (False, s)), od_execute = (\<lambda>h s. (False, s)), od_fetch = (\<lambda>h s. (Fetch_no_data, s))\<rparr>,
      lb_oracle =
        \<lparr>or_env_create = (\<lambda>s. (None, s)), or_alloc = (\<lambda>k e s. (2, s)), or_free = (\<lambda>k h s. s), or_attach = (\<lambda>h t s. (False, s)),
         or_set_server = (\<lambda>h k s. s), or_set_login = (\<lambda>h u p s. s), or_session_begin = (\<lambda>h k s. (False, s)),
         or_set_session = (\<lambda>h k s. s), or_session_end = (\<lambda>h k s. s), or_detach = (\<lambda>h s. s), or_prepare = (\<lambda>h t s. (False, s)),
         or_is_select = (\<lambda>h s. (None, s)), or_execute = (\<lambda>h k n s. (False, s)), or_param = (\<lambda>h i s. (i \<le> 0, s)),
         or_attr = (\<lambda>h i a s. (None, s)), or_name = (\<lambda>h i s. (None, s)), or_define = (\<lambda>h i n s. s),
         or_fetch = (\<lambda>h s. (Oci_no_data, s))\<rparr>,
      lb_sqlite =
        \<lparr>sq_open = (\<lambda>f s. (True, 1, s)), sq_close = (\<lambda>h s. s), sq_prepare = (\<lambda>h t s. (None, s)), sq_step = (\<lambda>h s. (Step_done, s)),
         sq_finalize = (\<lambda>h s. s)\<rparr>,
      lb_memory = (\<lambda>_. unset_field),
      lb_mongo =
        \<lparr>mg_uri = (\<lambda>t s. (None, s)), mg_client = (\<lambda>u s. (None, s)), mg_database = (\<lambda>c n s. (3, s)), mg_appname = (\<lambda>c n s. s),
         mg_destroy_database = (\<lambda>h s. s), mg_destroy_uri = (\<lambda>h s. s), mg_destroy_client = (\<lambda>h s. s), mg_parse = (\<lambda>t. None),
         mg_command = (\<lambda>d b s. (None, s)), mg_next = (\<lambda>c s. (None, s)), mg_error = (\<lambda>c s. False), mg_destroy_cursor = (\<lambda>c s. s),
         mg_json = (\<lambda>d. ''{}'')\<rparr>,
      lb_ldap =
        \<lparr>ld_init = (\<lambda>h p s. (None, s)), ld_set_version = (\<lambda>h n s. s), ld_bind = (\<lambda>h u p s. (True, s)), ld_unbind = (\<lambda>h s. s),
         ld_search = (\<lambda>h b f s. (None, s)), ld_print = (\<lambda>t s. s)\<rparr>\<rparr>"

definition all_free :: "string list locked" where
  "all_free = (\<lambda>d. False, [])"

lemma demo_libraries_lawful: "libraries_lawful demo_libraries"
  by (auto simp: libraries_lawful_def demo_libraries_def client_lawful_def odbc_lawful_def oracle_lawful_def sqlite_lawful_def
      demo_row_reply_def intro: exI [of _ 0])

theorem client_mutex_transparent_witness:
  "PG_locked_exec False (demo_library (Rows demo_row_reply)) (opened_connection (Some 7) None True) ''SELECT'' 6 None
     (Some (\<lambda>r s. Inr (fst s, snd s @ [''row'']))) (False, []) = Some (Inr (True, None, False, [''SELECT'', ''row'', ''row'']))"
proof -
  have "same_callback (Some (\<lambda>r s. Inr (fst s, snd s @ [''row'']))) (Some (\<lambda>r w. Inr (w @ [''row''])))"
    by (simp add: same_callback_def)
  from conjunct1 [OF client_mutex_transparent [OF this, of "demo_library (Rows demo_row_reply)" "opened_connection (Some 7) None True"
        "''SELECT''" 6 None "[]"]]
  show ?thesis
    by (simp add: PG_exec_def demo_library_def demo_row_reply_def run_rows_def mk_records_def names_fit_def MAX_COLUMN_NAME_LEN_def
        cstr_of_def)
qed

theorem rows_unlock_twice_witness:
  "MYSQL_locked_exec True (demo_library (Rows demo_row_reply)) (opened_connection (Some 7) None True) (''SELECT'' @ [NUL])
     (length ''SELECT'') None
     (Some (\<lambda>r s. Inr (fst s, snd s @ [''row'']))) (False, []) = Some (Inl Bad_unlock) \<and>
   (\<exists>w. MYSQL_locked_exec False (demo_library (Rows demo_row_reply)) (opened_connection (Some 7) None True) (''SELECT'' @ [NUL])
     (length ''SELECT'') None (Some (\<lambda>r s. Inr (True, snd s))) (False, []) = Some (Inr (True, None, False, w)))"
proof -
  have q: "lib_query (demo_library (Rows demo_row_reply)) 7 ''SELECT'' [] = (Rows demo_row_reply, [''SELECT''])"
    by (simp add: demo_library_def)
  show ?thesis
    by (rule rows_unlock_twice [OF _ _ _ q, where f = "\<lambda>r s. Inr (fst s, snd s @ [''row''])" and ?v1.0 = "[''SELECT'', ''row'']"])
      (simp_all add: cstring_def demo_row_reply_def names_fit_def MAX_COLUMN_NAME_LEN_def MAX_COLUMNS_def)
qed

theorem DB_exec_result_shape_witness:
  "\<exists>q s. DB_exec (all_drivers demo_libraries) (demo_db D_POSTGRESQL) (Some ''SELECT 1'') 8 (Some blank_query) [] None all_free =
     Inr (True, Some q, s) \<and> result_ok q \<and> q_row_count q = 2"
proof -
  have e: "DB_exec (all_drivers demo_libraries) (demo_db D_POSTGRESQL) (Some ''SELECT 1'') 8 (Some blank_query) [] None all_free =
    Inr (True, Some \<lparr>q_row_count = 2, q_field_count = 2, q_records = mk_records demo_row_reply, q_sql = Some ''SELECT 1''\<rparr>,
         \<lambda>d. False, [''SELECT 1''])"
    by (simp add: DB_exec_def DB_QUERY_format_def contains_def driver_exec_def all_drivers_def demo_libraries_def PG_exec_def demo_db_def
        demo_row_reply_def run_rows_def names_fit_def MAX_COLUMN_NAME_LEN_def cstr_of_def blank_query_def all_free_def numeral_2_eq_2)
  have "initialised blank_query" by (simp add: initialised_def blank_query_def)
  from DB_exec_result_shape [OF demo_libraries_lawful this e] e show ?thesis by simp
qed


end
