(* ===== verification/Etl_Extract.thy ===== *)
theory Etl_Extract
  imports Etl_Data
begin

text \<open>
  \<open>src/core/db/etl/extract.c\<close> and \<open>src/utils/regex.c\<close>: change data capture. A primary query yields one
  column of values, optionally rewritten by regular expressions, joined with commas and put into a
  secondary query whose rows go to the stage or load callback. The POSIX matcher is an argument: for a
  pattern that compiles, the offsets of the whole match and of the groups at a cursor.
\<close>

section \<open>\<open>REGEX_replace\<close>\<close>

type_synonym regex_engine = "string \<Rightarrow> (string \<Rightarrow> (nat \<times> nat) list option) option"

text \<open>
  One group: the result buffer is reallocated to the length of the replacement text plus the value,
  whatever it already holds, then the group's name in it is replaced.
\<close>

definition group_step :: "string \<Rightarrow> string \<Rightarrow> nat \<Rightarrow> (nat \<times> nat) \<Rightarrow> string option \<Rightarrow> (string \<times> nat) outcome" where
  "group_step repl cursor g se new_value =
     (let val = drop (fst se) (take (snd se) cursor);
          str_len = length repl + length val;
          text = (case new_value of None \<Rightarrow> take str_len repl | Some t \<Rightarrow> t);
          group_id = CHR 0x5C # show_nat g
      in if str_len < length text then Inl Out_of_bounds
         else obind (replace_str_loop group_id val str_len text 0 0) (\<lambda>(t, n). Inr (t, str_len)))"

fun group_loop ::
  "string \<Rightarrow> string \<Rightarrow> nat \<Rightarrow> (nat \<times> nat) list \<Rightarrow> string option \<times> nat \<Rightarrow> (string option \<times> nat) outcome" where
  "group_loop repl cursor g [] st = Inr st"
| "group_loop repl cursor g (se # ses) (new_value, len) =
     obind (group_step repl cursor g se new_value) (\<lambda>(t, l). group_loop repl cursor (g + 1) ses (Some t, l))"

text \<open>At most 20 matches, each at the end of the one before.\<close>

fun match_loop ::
  "nat \<Rightarrow> (string \<Rightarrow> (nat \<times> nat) list option) \<Rightarrow> string \<Rightarrow> string \<Rightarrow> string option \<times> nat \<Rightarrow> (string option \<times> nat) outcome" where
  "match_loop 0 regexec repl cursor st = Inr st"
| "match_loop (Suc m) regexec repl cursor st =
     (case regexec cursor of
        None \<Rightarrow> Inr st
      | Some [] \<Rightarrow> match_loop m regexec repl cursor st
      | Some (whole # groups) \<Rightarrow>
          obind (group_loop repl cursor 1 (take 29 groups) st)
            (match_loop m regexec repl (drop (snd whole) cursor)))"

text \<open>The rewritten value and its new length; unchanged when no group matched.\<close>

definition REGEX_replace ::
  "regex_engine \<Rightarrow> string \<Rightarrow> string \<Rightarrow> string \<Rightarrow> nat \<Rightarrow> (string \<times> nat) outcome" where
  "REGEX_replace rx str pattern repl dst_len =
     (case rx pattern of
        None \<Rightarrow> Inr (str, dst_len)
      | Some regexec \<Rightarrow>
          obind (match_loop 20 regexec repl str (None, 0)) (\<lambda>(new_value, new_value_len).
            Inr (if 0 < new_value_len
                 then (take new_value_len (the_str new_value), new_value_len)
                 else (str, dst_len))))"

section \<open>Callbacks\<close>

definition ExtractGeneric_callback ::
  "'w drivers \<Rightarrow> DATABASE_SYSTEM_DB \<Rightarrow> DB_SYSTEM_ETL_STAGE_QUERY \<Rightarrow> 'w qec" where
  "ExtractGeneric_callback drv db stage_element = DB_CDC_StageGeneric drv stage_element db"

definition ExtractInserted_callback :: "'w drivers \<Rightarrow> DB_SYSTEM_ETL_STAGE \<Rightarrow> DATABASE_SYSTEM_DB \<Rightarrow> 'w qec" where
  "ExtractInserted_callback drv stage db = each_element (ExtractGeneric_callback drv db) (st_inserted stage)"

definition ExtractDeleted_callback :: "'w drivers \<Rightarrow> DB_SYSTEM_ETL_STAGE \<Rightarrow> DATABASE_SYSTEM_DB \<Rightarrow> 'w qec" where
  "ExtractDeleted_callback drv stage db = each_element (ExtractGeneric_callback drv db) (st_deleted stage)"

definition ExtractModified_callback :: "'w drivers \<Rightarrow> DB_SYSTEM_ETL_STAGE \<Rightarrow> DATABASE_SYSTEM_DB \<Rightarrow> 'w qec" where
  "ExtractModified_callback drv stage db = each_element (ExtractGeneric_callback drv db) (st_modified stage)"

section \<open>The extraction\<close>

definition CDC_ExtractQueryTypeValid :: "string \<Rightarrow> bool" where
  "CDC_ExtractQueryTypeValid sql =
     (let dqt = DB_QUERY_get_type sql in \<not> (dqt = DQT_DELETE \<or> dqt = DQT_INSERT \<or> dqt = DQT_UPDATE))"

text \<open>The values of the first column, rewritten, each with its length; \<open>None\<close> for a NULL.\<close>

fun rewrite_all :: "regex_engine \<Rightarrow> (string \<times> string) list \<Rightarrow> string \<Rightarrow> nat \<Rightarrow> (string \<times> nat) outcome" where
  "rewrite_all rx [] s len = Inr (s, len)"
| "rewrite_all rx ((search, repl) # rs) s len =
     obind (REGEX_replace rx s search repl len) (\<lambda>(s, len). rewrite_all rx rs s len)"

fun ret_values :: "regex_engine \<Rightarrow> (string \<times> string) list \<Rightarrow> DB_RECORD list \<Rightarrow> (string option list \<times> nat) outcome" where
  "ret_values rx reps [] = Inr ([], 0)"
| "ret_values rx reps (r # rs) =
     (case r_fields r of
        [] \<Rightarrow> Inl Out_of_bounds
      | f # _ \<Rightarrow>
          if 0 < f_size f
          then (case f_value f of
                  None \<Rightarrow> Inl Null_pointer
                | Some v \<Rightarrow>
                    obind (rewrite_all rx reps (cstr_of v) (f_size f)) (\<lambda>(s, len).
                    obind (ret_values rx reps rs) (\<lambda>(vs, total). Inr (Some s # vs, len + total))))
          else obind (ret_values rx reps rs) (\<lambda>(vs, total). Inr (None # vs, total)))"

text \<open>
  The join: each \<open>snprintf\<close> writes at \<open>str_index\<close> into what is left of the buffer and returns the
  untruncated length. Past the end of the buffer the remaining size wraps around, and the write is
  out of bounds. A NULL value prints as \<open>(null)\<close>.
\<close>

fun join_loop :: "nat \<Rightarrow> nat \<Rightarrow> string \<Rightarrow> string option list \<Rightarrow> string outcome" where
  "join_loop buf_len str_index text [] = Inr text"
| "join_loop buf_len str_index text (v # vs) =
     (let piece = (case v of Some s \<Rightarrow> s | None \<Rightarrow> ''(null)'') @ '','' in
      if buf_len < str_index then Inl Out_of_bounds
      else join_loop buf_len (str_index + length piece)
             (if str_index < buf_len then text @ take (buf_len - str_index - 1) piece else text) vs)"

definition this_db :: string where "this_db = ''this''"

definition CDC_ExtractGeneric ::
  "'w drivers \<Rightarrow> regex_engine \<Rightarrow> DB_SYSTEM_ETL_EXTRACT_QUERY \<Rightarrow> DATABASE_SYSTEM_DB \<Rightarrow> DATABASE_SYSTEM_DB \<Rightarrow>
   'w qec \<Rightarrow> 'w \<Rightarrow> (bool \<times> 'w) outcome" where
  "CDC_ExtractGeneric drv rx el system_db dcpam_db cb w =
     (case (eq_primary_db_sql el, eq_secondary_db_sql el, eq_primary_db el) of
        (Some psql, Some ssql, Some pdb) \<Rightarrow>
          if \<not> CDC_ExtractQueryTypeValid psql \<or> \<not> CDC_ExtractQueryTypeValid ssql then Inr (False, w)
          else
            (let (primary_db, secondary_db) =
                   (if pdb = this_db then (system_db, dcpam_db) else (dcpam_db, system_db));
                 res = \<lparr>q_row_count = 0, q_field_count = 0, q_records = [], q_sql = None\<rparr>
             in obind (DB_exec drv primary_db (Some psql) (min (length psql) (eq_primary_db_sql_len el + 1))
                         (Some res) [] None w) (\<lambda>(ok, dst, w).
                case dst of
                  None \<Rightarrow> Inl Null_pointer
                | Some q \<Rightarrow>
                    if \<not> ok then Inr (False, w)
                    else if q_field_count q \<noteq> 1 then Inr (False, w)
                    else obind (ret_values rx (eq_primary_db_result_replace el) (take (q_row_count q) (q_records q)))
                      (\<lambda>(vals, total).
                         if total = 0 then Inr (True, w)
                         else
                           (let buf_len = total + q_row_count q in
                            obind (join_loop buf_len 0 [] vals) (\<lambda>joined.
                              (let len2 = eq_secondary_db_sql_len el + buf_len;
                                   text = snprintf_s len2 ssql [joined]
                               in obind (DB_exec drv secondary_db (Some text) (len2 - 2) None [] (Some cb) w)
                                    (\<lambda>(ok2, dst2, w). Inr (ok2, w))))))))
      | _ \<Rightarrow> Inl Null_pointer)"

definition DB_CDC_ExtractInserted ::
  "'w drivers \<Rightarrow> regex_engine \<Rightarrow> DB_SYSTEM_ETL_EXTRACT option \<Rightarrow> DATABASE_SYSTEM_DB option \<Rightarrow>
   DATABASE_SYSTEM_DB option \<Rightarrow> 'w qec \<Rightarrow> 'w \<Rightarrow> (bool \<times> 'w) outcome" where
  "DB_CDC_ExtractInserted drv rx ext system_db dcpam_db cb w =
     (case (ext, system_db, dcpam_db) of
        (Some e, Some s, Some d) \<Rightarrow> CDC_ExtractGeneric drv rx (ex_inserted e) s d cb w
      | _ \<Rightarrow> Inr (False, w))"

definition DB_CDC_ExtractDeleted ::
  "'w drivers \<Rightarrow> regex_engine \<Rightarrow> DB_SYSTEM_ETL_EXTRACT option \<Rightarrow> DATABASE_SYSTEM_DB option \<Rightarrow>
   DATABASE_SYSTEM_DB option \<Rightarrow> 'w qec \<Rightarrow> 'w \<Rightarrow> (bool \<times> 'w) outcome" where
  "DB_CDC_ExtractDeleted drv rx ext system_db dcpam_db cb w =
     (case (ext, system_db, dcpam_db) of
        (Some e, Some s, Some d) \<Rightarrow> CDC_ExtractGeneric drv rx (ex_deleted e) s d cb w
      | _ \<Rightarrow> Inr (False, w))"

definition DB_CDC_ExtractModified ::
  "'w drivers \<Rightarrow> regex_engine \<Rightarrow> DB_SYSTEM_ETL_EXTRACT option \<Rightarrow> DATABASE_SYSTEM_DB option \<Rightarrow>
   DATABASE_SYSTEM_DB option \<Rightarrow> 'w qec \<Rightarrow> 'w \<Rightarrow> (bool \<times> 'w) outcome" where
  "DB_CDC_ExtractModified drv rx ext system_db dcpam_db cb w =
     (case (ext, system_db, dcpam_db) of
        (Some e, Some s, Some d) \<Rightarrow> CDC_ExtractGeneric drv rx (ex_modified e) s d cb w
      | _ \<Rightarrow> Inr (False, w))"

section \<open>The join\<close>

fun comma_join :: "string list \<Rightarrow> string" where
  "comma_join [] = []"
| "comma_join [v] = v"
| "comma_join (v # vs) = v @ '','' @ comma_join vs"

lemma comma_join_length: "vs \<noteq> [] \<Longrightarrow> Suc (length (comma_join vs)) = sum_list (map length vs) + length vs"
  by (induction vs rule: comma_join.induct) auto

lemma join_loop_exact:
  "vs \<noteq> [] \<Longrightarrow> buf_len = idx + sum_list (map length vs) + length vs \<Longrightarrow>
   join_loop buf_len idx acc (map Some vs) = Inr (acc @ comma_join vs)"
proof (induction vs arbitrary: idx acc rule: comma_join.induct)
  case (3 v u us)
  have "join_loop buf_len idx acc (map Some (v # u # us)) =
      join_loop buf_len (idx + Suc (length v)) (acc @ v @ '','') (map Some (u # us))"
    using "3.prems"(2) by (simp add: Let_def)
  with "3.IH" [of "idx + Suc (length v)" "acc @ v @ '',''"] "3.prems"(2) show ?case by simp
qed (auto simp: Let_def)

text \<open>More room than the exact size, as a rewritten value makes: the last comma stays.\<close>

lemma join_loop_roomy:
  "idx + sum_list (map length vs) + length vs < buf_len \<Longrightarrow>
   join_loop buf_len idx acc (map Some vs) = Inr (acc @ concat (map (\<lambda>v. v @ '','') vs))"
proof (induction vs arbitrary: idx acc)
  case (Cons v vs)
  have "join_loop buf_len idx acc (map Some (v # vs)) =
      join_loop buf_len (idx + Suc (length v)) (acc @ v @ '','') (map Some vs)"
    using Cons.prems by (simp add: Let_def)
  with Cons.IH [of "idx + Suc (length v)" "acc @ v @ '',''"] Cons.prems show ?case by simp
qed simp

lemma ret_values_plain:
  "\<forall>r \<in> set recs. \<exists>f v. r_fields r = [f] \<and> f_value f = Some v \<and> f_size f = length v \<and> v \<noteq> [] \<and> cstring v \<Longrightarrow>
   ret_values rx [] recs =
     Inr (map (\<lambda>r. Some (the_str (f_value (hd (r_fields r))))) recs,
          sum_list (map (\<lambda>r. length (the_str (f_value (hd (r_fields r))))) recs))"
proof (induction recs)
  case (Cons r recs)
  obtain f v where "r_fields r = [f]" "f_value f = Some v" "f_size f = length v" "v \<noteq> []" "cstring v"
    using Cons.prems by auto
  with Cons show ?case by (simp add: the_str_def)
qed simp

section \<open>What the extraction runs\<close>

definition values_of :: "DB_QUERY \<Rightarrow> string list" where
  "values_of q = map (\<lambda>r. the_str (f_value (hd (r_fields r)))) (take (q_row_count q) (q_records q))"

definition single_column :: "DB_RECORD \<Rightarrow> bool" where
  "single_column r \<longleftrightarrow>
     (\<exists>f v. r_fields r = [f] \<and> f_value f = Some v \<and> f_size f = length v \<and> v \<noteq> [] \<and> cstring v)"

abbreviation empty_query :: DB_QUERY where
  "empty_query \<equiv> \<lparr>q_row_count = 0, q_field_count = 0, q_records = [], q_sql = None\<rparr>"

text \<open>
  The shared step: with plain values the secondary statement is the template with the values joined
  by single commas, and the extraction is exactly that one call.
\<close>

lemma extract_runs_secondary:
  assumes "eq_primary_db_sql el = Some psql" "eq_secondary_db_sql el = Some (pre @ ''%s'' @ post)"
    "eq_primary_db el = Some pdb" "eq_secondary_db_sql_len el = length (pre @ ''%s'' @ post)"
    "CHR ''%'' \<notin> set pre" "CHR ''%'' \<notin> set post"
    "CDC_ExtractQueryTypeValid psql" "CDC_ExtractQueryTypeValid (pre @ ''%s'' @ post)"
    "eq_primary_db_result_replace el = []"
    "DB_exec drv (if pdb = this_db then system_db else dcpam_db) (Some psql)
       (min (length psql) (eq_primary_db_sql_len el + 1)) (Some empty_query) [] None w = Inr (True, Some q, w1)"
    "q_field_count q = 1" "q_row_count q = length (q_records q)" "q_records q \<noteq> []"
    "\<forall>r \<in> set (q_records q). single_column r"
  shows "CDC_ExtractGeneric drv rx el system_db dcpam_db cb w =
    obind (DB_exec drv (if pdb = this_db then dcpam_db else system_db)
             (Some (pre @ comma_join (values_of q) @ post)) (Suc (length (pre @ comma_join (values_of q) @ post)))
             None [] (Some cb) w1)
      (\<lambda>(ok, dst, w). Inr (ok, w))"
proof -
  let ?vs = "values_of q" and ?recs = "q_records q"
  let ?total = "sum_list (map length ?vs)"
  have vs: "?vs = map (\<lambda>r. the_str (f_value (hd (r_fields r)))) ?recs"
    using assms(12) by (simp add: values_of_def)
  have "ret_values rx [] ?recs = Inr (map (\<lambda>r. Some (the_str (f_value (hd (r_fields r))))) ?recs,
      sum_list (map (\<lambda>r. length (the_str (f_value (hd (r_fields r))))) ?recs))"
    using assms(14) by (intro ret_values_plain) (auto simp: single_column_def)
  then have ret: "ret_values rx [] ?recs = Inr (map Some ?vs, ?total)"
    by (simp add: vs comp_def)
  have ne: "?vs \<noteq> []" and len: "length ?vs = q_row_count q" using assms(12,13) vs by auto
  have pos: "\<exists>v \<in> set ?vs. v \<noteq> []"
    using assms(13,14) vs by (cases ?recs) (auto simp: single_column_def the_str_def)
  have join: "join_loop (?total + q_row_count q) 0 [] (map Some ?vs) = Inr (comma_join ?vs)"
    using join_loop_exact [OF ne, of "?total + q_row_count q" 0 "[]"] len by simp
  have jl: "Suc (length (comma_join ?vs)) = ?total + q_row_count q"
    using comma_join_length [OF ne] len by simp
  let ?n = "eq_secondary_db_sql_len el + (?total + q_row_count q)"
  have body: "snprintf_s ?n (pre @ ''%s'' @ post) [comma_join ?vs] = pre @ comma_join ?vs @ post"
  proof -
    have "length (pre @ ''%s'' @ post) + sum_list (map length [comma_join ?vs]) < ?n"
      using assms(4) jl by simp
    then have "snprintf_s ?n (pre @ ''%s'' @ post) [comma_join ?vs] = sfmt (pre @ ''%s'' @ post) [comma_join ?vs]"
      by (rule snprintf_s_fits)
    then show ?thesis using sfmt_single assms(5,6) by simp
  qed
  have "?n - 2 = Suc (length (pre @ comma_join ?vs @ post))" using assms(4) jl by simp
  then show ?thesis
    using assms(1-3,7-12) ret pos join body by (auto simp: CDC_ExtractGeneric_def Let_def)
qed

lemma comma_join_set: "set v \<subseteq> set (comma_join vs)" if "v \<in> set vs"
  using that by (induction vs rule: comma_join.induct) auto

text \<open>
  C24: The extraction runs one secondary query: when the primary query has returned rows of one column, each value
  non-empty and without NUL, and no rewriting is configured, the text of the secondary query is the configured template
  with the values, in row order and separated by single commas, in place of its only \<open>%s\<close> (the last comma is cut off
  by the size of the buffer); it is run on the other one of the two databases, with the length of the text and its
  terminating zero byte (which the drivers that send the length given to them pass on), and its verdict is that of the
  extraction. Both queries are of a type that is allowed.
\<close>

theorem extract_secondary_statement:
  assumes "eq_primary_db_sql el = Some psql" "eq_secondary_db_sql el = Some (pre @ ''%s'' @ post)"
    "eq_primary_db el = Some pdb" "eq_secondary_db_sql_len el = length (pre @ ''%s'' @ post)"
    "CHR ''%'' \<notin> set pre" "CHR ''%'' \<notin> set post"
    "CDC_ExtractQueryTypeValid psql" "CDC_ExtractQueryTypeValid (pre @ ''%s'' @ post)"
    "eq_primary_db_result_replace el = []"
    "DB_exec drv (if pdb = this_db then system_db else dcpam_db) (Some psql)
       (min (length psql) (eq_primary_db_sql_len el + 1)) (Some empty_query) [] None w = Inr (True, Some q, w1)"
    "q_field_count q = 1" "q_row_count q = length (q_records q)" "q_records q \<noteq> []"
    "\<forall>r \<in> set (q_records q). single_column r"
  shows "CDC_ExtractGeneric drv rx el system_db dcpam_db cb w =
    obind (DB_exec drv (if pdb = this_db then dcpam_db else system_db)
             (Some (pre @ comma_join (values_of q) @ post)) (Suc (length (pre @ comma_join (values_of q) @ post)))
             None [] (Some cb) w1)
      (\<lambda>(ok, dst, w). Inr (ok, w))"
  using extract_runs_secondary [OF assms] .

text \<open>
  A question mark in an extracted value makes the extraction fail before the secondary query is
  sent: the joined text goes through \<open>DB_QUERY_format\<close> again, which takes the mark for a parameter.
\<close>

theorem extract_question_mark_fails:
  assumes "eq_primary_db_sql el = Some psql" "eq_secondary_db_sql el = Some (pre @ ''%s'' @ post)"
    "eq_primary_db el = Some pdb" "eq_secondary_db_sql_len el = length (pre @ ''%s'' @ post)"
    "CHR ''%'' \<notin> set pre" "CHR ''%'' \<notin> set post"
    "CDC_ExtractQueryTypeValid psql" "CDC_ExtractQueryTypeValid (pre @ ''%s'' @ post)"
    "eq_primary_db_result_replace el = []"
    "DB_exec drv (if pdb = this_db then system_db else dcpam_db) (Some psql)
       (min (length psql) (eq_primary_db_sql_len el + 1)) (Some empty_query) [] None w = Inr (True, Some q, w1)"
    "q_field_count q = 1" "q_row_count q = length (q_records q)"
    "\<forall>r \<in> set (q_records q). single_column r" "v \<in> set (values_of q)" "QM \<in> set v"
  shows "CDC_ExtractGeneric drv rx el system_db dcpam_db cb w = Inr (False, w1)"
proof -
  have "q_records q \<noteq> []" using assms(14) by (auto simp: values_of_def)
  note run = extract_runs_secondary [OF assms(1-12) this assms(13)]
  have "QM \<in> set (comma_join (values_of q))" using comma_join_set assms(14,15) by blast
  then have "contains (pre @ comma_join (values_of q) @ post) [QM]" by (simp add: contains_char)
  then have "DB_exec drv db (Some (pre @ comma_join (values_of q) @ post)) n None [] (Some cb) w1 =
      Inr (False, None, w1)" for db n
    by (simp add: DB_exec_def DB_QUERY_format_def Let_def contains_QM)
  with run show ?thesis by simp
qed

definition demo_extract_reply :: "string list \<Rightarrow> reply" where
  "demo_extract_reply vs = Rows \<lparr>rs_names = [''id''], rs_tuples = map (\<lambda>v. [v]) vs\<rparr>"

lemmas demo_extract_defs = demo_extract_reply_def demo_drivers_def demo_library_def demo_db_def
  demo_extract_def DB_exec_def DB_QUERY_format_def driver_exec_def PG_exec_def run_rows_def
  mk_records_def mk_record_def mk_field_def names_fit_def MAX_COLUMN_NAME_LEN_def
  CDC_ExtractQueryTypeValid_def DB_QUERY_get_type_def contains_def this_db_def

theorem extract_question_mark_fails_witness:
  "CDC_ExtractGeneric (demo_drivers (demo_extract_reply [''a?b''])) (\<lambda>p. None)
     (demo_extract\<lparr>eq_secondary_db_sql := Some ''SELECT v FROM s WHERE id IN(%s)'', eq_secondary_db_sql_len := 31\<rparr>)
     (demo_db D_POSTGRESQL) (demo_db D_POSTGRESQL) (\<lambda>r w. Inr w) [] = Inr (False, [''SELECT id FROM s''])"
  by (rule extract_question_mark_fails [where psql = "''SELECT id FROM s''" and pre = "''SELECT v FROM s WHERE id IN(''"
      and post = "'')''" and pdb = "''this''" and v = "''a?b''"
      and q = "\<lparr>q_row_count = 1, q_field_count = 1,
        q_records = [\<lparr>r_fields = [\<lparr>f_label = ''id'', f_value = Some ''a?b'', f_size = 3\<rparr>]\<rparr>],
        q_sql = Some ''SELECT id FROM s''\<rparr>"])
    (simp_all add: demo_extract_defs single_column_def values_of_def the_str_def cstr_of_def)

theorem extract_secondary_statement_witness:
  "CDC_ExtractGeneric (demo_drivers (demo_extract_reply [''4'', ''17''])) (\<lambda>p. None)
     (demo_extract\<lparr>eq_secondary_db_sql := Some ''SELECT v FROM s WHERE id IN(%s)'', eq_secondary_db_sql_len := 31\<rparr>)
     (demo_db D_POSTGRESQL) (demo_db D_POSTGRESQL) (\<lambda>r w. Inr w) [] =
   obind (DB_exec (demo_drivers (demo_extract_reply [''4'', ''17''])) (demo_db D_POSTGRESQL)
            (Some ''SELECT v FROM s WHERE id IN(4,17)'') 34 None [] (Some (\<lambda>r w. Inr w)) [''SELECT id FROM s''])
     (\<lambda>(ok, dst, w). Inr (ok, w))"
proof -
  let ?drv = "demo_drivers (demo_extract_reply [''4'', ''17''])"
  let ?el = "demo_extract\<lparr>eq_secondary_db_sql := Some ''SELECT v FROM s WHERE id IN(%s)'', eq_secondary_db_sql_len := 31\<rparr>"
  let ?q = "\<lparr>q_row_count = 2, q_field_count = 1,
        q_records = [\<lparr>r_fields = [\<lparr>f_label = ''id'', f_value = Some ''4'', f_size = 1\<rparr>]\<rparr>,
                     \<lparr>r_fields = [\<lparr>f_label = ''id'', f_value = Some ''17'', f_size = 2\<rparr>]\<rparr>],
        q_sql = Some ''SELECT id FROM s''\<rparr>"
  have "CDC_ExtractGeneric ?drv (\<lambda>p. None) ?el (demo_db D_POSTGRESQL) (demo_db D_POSTGRESQL) (\<lambda>r w. Inr w) [] =
    obind (DB_exec ?drv (if ''this'' = this_db then demo_db D_POSTGRESQL else demo_db D_POSTGRESQL)
            (Some (''SELECT v FROM s WHERE id IN('' @ comma_join (values_of ?q) @ '')''))
            (Suc (length (''SELECT v FROM s WHERE id IN('' @ comma_join (values_of ?q) @ '')''))) None [] (Some (\<lambda>r w. Inr w))
            [''SELECT id FROM s''])
     (\<lambda>(ok, dst, w). Inr (ok, w))"
    by (rule extract_secondary_statement [where psql = "''SELECT id FROM s''"])
      (simp_all add: demo_extract_defs single_column_def cstr_of_def)
  moreover have "values_of ?q = [''4'', ''17'']" by (simp add: values_of_def the_str_def)
  moreover have "Suc (length ''SELECT v FROM s WHERE id IN(4,17)'') = 34" by simp
  ultimately show ?thesis by (simp only: comma_join.simps append.simps if_cancel)
qed

section \<open>Branches that do not run the secondary query\<close>

text \<open>
  No new rows is a failure on PostgreSQL and a success on MySQL: when the primary query returns
  its column but no row, \<open>PG_exec\<close> leaves the column count at 0 and the extraction fails, while with
  \<open>MYSQL_exec\<close> the same reply is an extraction that succeeds; neither runs the secondary query.
\<close>

theorem extract_empty_primary:
  assumes "eq_primary_db_sql el = Some psql" "eq_secondary_db_sql el = Some ssql" "eq_primary_db el = Some this_db"
    "CDC_ExtractQueryTypeValid psql" "CDC_ExtractQueryTypeValid ssql"
    "cstring psql" "\<not> contains psql [QM]" "eq_primary_db_sql_len el = length psql"
    "cn_connection (db_conn system_db) = Some h"
    "\<And>lib. lib \<in> {drv_pg drv, drv_mysql drv} \<Longrightarrow>
       lib_query lib h psql w = (Rows \<lparr>rs_names = [col], rs_tuples = []\<rparr>, w1)"
  shows "CDC_ExtractGeneric drv rx el (system_db\<lparr>db_driver := Some D_POSTGRESQL\<rparr>) dcpam_db cb w = Inr (False, w1) \<and>
         CDC_ExtractGeneric drv rx el (system_db\<lparr>db_driver := Some D_MYSQL\<rparr>) dcpam_db cb w = Inr (True, w1)"
  using assms
  by (simp add: CDC_ExtractGeneric_def Let_def DB_exec_def DB_QUERY_format_def driver_exec_def PG_exec_def
      MYSQL_exec_def)

theorem extract_empty_primary_witness:
  "CDC_ExtractGeneric (demo_drivers (demo_extract_reply [])) (\<lambda>p. None)
     (demo_extract\<lparr>eq_secondary_db_sql := Some ''SELECT v FROM s WHERE id IN(%s)''\<rparr>)
     ((demo_db D_MYSQL)\<lparr>db_driver := Some D_POSTGRESQL\<rparr>) (demo_db D_MYSQL) (\<lambda>r w. Inr w) [] =
     Inr (False, [''SELECT id FROM s'']) \<and>
   CDC_ExtractGeneric (demo_drivers (demo_extract_reply [])) (\<lambda>p. None)
     (demo_extract\<lparr>eq_secondary_db_sql := Some ''SELECT v FROM s WHERE id IN(%s)''\<rparr>)
     ((demo_db D_MYSQL)\<lparr>db_driver := Some D_MYSQL\<rparr>) (demo_db D_MYSQL) (\<lambda>r w. Inr w) [] =
     Inr (True, [''SELECT id FROM s''])"
  by (rule extract_empty_primary [where psql = "''SELECT id FROM s''"
        and ssql = "''SELECT v FROM s WHERE id IN(%s)''" and h = 7 and col = "''id''"])
    (simp_all add: demo_extract_reply_def demo_drivers_def demo_library_def demo_db_def demo_extract_def
      CDC_ExtractQueryTypeValid_def DB_QUERY_get_type_def contains_def this_db_def)

lemma join_loop_split:
  "idx + sum_list (map length xs) + length xs < buf_len \<Longrightarrow>
   join_loop buf_len idx acc (map Some xs @ ys) =
     join_loop buf_len (idx + sum_list (map length xs) + length xs) (acc @ concat (map (\<lambda>v. v @ '','') xs)) ys"
proof (induction xs arbitrary: idx acc)
  case (Cons v xs)
  have "join_loop buf_len idx acc (map Some (v # xs) @ ys) =
      join_loop buf_len (idx + Suc (length v)) (acc @ v @ '','') (map Some xs @ ys)"
    using Cons.prems by (simp add: Let_def)
  with Cons.IH [of "idx + Suc (length v)" "acc @ v @ '',''"] Cons.prems show ?case
    by (simp add: add.assoc add.commute add.left_commute)
qed simp

text \<open>
  A NULL among the extracted values overruns the join buffer: it prints as \<open>(null)\<close> but counts
  for nothing, so when the value after it has fewer than five characters (and rows follow), the next
  write starts past the end of the buffer with a wrapped-around size.
\<close>

theorem extract_null_value_overruns:
  assumes "eq_primary_db_sql el = Some psql" "eq_secondary_db_sql el = Some ssql" "eq_primary_db el = Some this_db"
    "CDC_ExtractQueryTypeValid psql" "CDC_ExtractQueryTypeValid ssql"
    "DB_exec drv system_db (Some psql) (min (length psql) (eq_primary_db_sql_len el + 1))
       (Some empty_query) [] None w = Inr (True, Some q, w1)"
    "q_field_count q = 1" "q_row_count q = length xs + 2"
    "ret_values rx (eq_primary_db_result_replace el) (take (q_row_count q) (q_records q)) =
       Inr (map Some xs @ [None, Some y], sum_list (map length xs) + length y)"
    "y \<noteq> []" "length y < 5"
  shows "CDC_ExtractGeneric drv rx el system_db dcpam_db cb w = Inl Out_of_bounds"
proof -
  let ?s = "sum_list (map length xs)"
  let ?n = "?s + length y + (length xs + 2)"
  have "join_loop ?n 0 [] (map Some xs @ [None, Some y]) =
      join_loop ?n (?s + length xs) (concat (map (\<lambda>v. v @ '','') xs)) [None, Some y]"
    using join_loop_split [of 0 xs ?n "[]" "[None, Some y]"] by simp
  also have "\<dots> = Inl Out_of_bounds" using assms(10,11) by (simp add: Let_def)
  finally show ?thesis using assms
    by (simp add: CDC_ExtractGeneric_def Let_def)
qed

theorem extract_null_value_overruns_witness:
  "CDC_ExtractGeneric (demo_drivers (demo_extract_reply [''4'', [], ''17''])) (\<lambda>p. None)
     (demo_extract\<lparr>eq_secondary_db_sql := Some ''SELECT v FROM s WHERE id IN(%s)''\<rparr>)
     (demo_db D_POSTGRESQL) (demo_db D_POSTGRESQL) (\<lambda>r w. Inr w) [] = Inl Out_of_bounds"
  by (rule extract_null_value_overruns [where psql = "''SELECT id FROM s''"
      and ssql = "''SELECT v FROM s WHERE id IN(%s)''" and xs = "[''4'']" and y = "''17''"
      and q = "\<lparr>q_row_count = 3, q_field_count = 1,
        q_records = [\<lparr>r_fields = [\<lparr>f_label = ''id'', f_value = Some ''4'', f_size = 1\<rparr>]\<rparr>,
                     \<lparr>r_fields = [\<lparr>f_label = ''id'', f_value = None, f_size = 0\<rparr>]\<rparr>,
                     \<lparr>r_fields = [\<lparr>f_label = ''id'', f_value = Some ''17'', f_size = 2\<rparr>]\<rparr>],
        q_sql = Some ''SELECT id FROM s''\<rparr>"])
    (simp_all add: demo_extract_defs cstr_of_def)

section \<open>Rewritten values\<close>

lemma replace_one_group:
  assumes "c \<notin> set a" "c \<notin> set b" "c \<notin> set v" "v @ b \<noteq> []" "length (a @ v @ b) \<le> dst_len"
  shows "replace_str_loop (c # cs) v dst_len (a @ (c # cs) @ b) 0 n = Inr (a @ v @ b, n + 1)"
proof -
  have first: "strstr (a @ (c # cs) @ b) (c # cs) = Some (length a)"
    using strstr_skip [OF assms(1), of "(c # cs) @ b" cs] by simp
  have none: "strstr s (c # cs) = None" if "c \<notin> set s" for s
    using that by (induction s) auto
  have "c \<notin> set (drop (length a + 1) (a @ v @ b))"
    using assms(1-3) by (auto dest: in_set_dropD)
  then have second: "strstr (drop (length a + 1) (a @ v @ b)) (c # cs) = None" by (rule none)
  have "replace_str_loop (c # cs) v dst_len (a @ (c # cs) @ b) 0 n =
      replace_str_loop (c # cs) v dst_len (a @ v @ b) (length a + 1) (n + 1)"
    using assms(5) first by (subst replace_str_loop.simps) (simp add: Let_def)
  also have "\<dots> = Inr (a @ v @ b, n + 1)"
  proof -
    have "length a + 1 \<le> length (a @ v @ b)" using assms(4) by (cases v; cases b) auto
    then show ?thesis using second assms(4) by (subst replace_str_loop.simps) simp
  qed
  finally show ?thesis .
qed

text \<open>
  A value rewritten by \<open>REGEX_replace\<close> with one group is right but its reported size is two too
  large (the group's name in the replacement is counted as well), so the join of rewritten values
  keeps its last comma: the secondary statement becomes \<open>IN(4,17,)\<close>.
\<close>

theorem rewritten_values_keep_comma:
  assumes "rx pattern = Some regexec" "regexec s = Some [(i, e), (so, eo)]" "regexec (drop e s) = None"
    "val = drop so (take eo s)" "CHR 0x5C \<notin> set (a @ val @ b)" "val \<noteq> []" "s \<noteq> []"
  shows "REGEX_replace rx s pattern (a @ [CHR 0x5C, CHR ''1''] @ b) (length s) =
           Inr (a @ val @ b, length (a @ val @ b) + 2) \<and>
         join_loop (length (a @ val @ b) + 2 + 1) 0 [] [Some (a @ val @ b)] = Inr (a @ val @ b @ '','')"
proof -
  let ?repl = "a @ [CHR 0x5C, CHR ''1''] @ b"
  let ?n = "length ?repl + length val"
  have one: "show_nat 1 = ''1''" by code_simp
  have "replace_str_loop [CHR 0x5C, CHR ''1''] val ?n ?repl 0 0 = Inr (a @ val @ b, 1)"
    using replace_one_group [of "CHR 0x5C" a b val ?n "''1''" 0] assms(5,6) by simp
  then have "group_step ?repl s 1 (so, eo) None = Inr (a @ val @ b, ?n)"
    using one assms(4) by (simp add: group_step_def Let_def)
  then have "match_loop 20 regexec ?repl s (None, 0) = Inr (Some (a @ val @ b), ?n)"
    using assms(2,3) by (simp add: eval_nat_numeral)
  then have "REGEX_replace rx s pattern ?repl (length s) = Inr (a @ val @ b, ?n)"
    using assms(1) by (simp add: REGEX_replace_def the_str_def)
  moreover have "?n = length (a @ val @ b) + 2" by simp
  ultimately show ?thesis by (simp add: Let_def)
qed

theorem rewritten_values_keep_comma_witness:
  "REGEX_replace (\<lambda>p. Some (\<lambda>s. if s = ''id-17'' then Some [(0, 5), (3, 5)] else None)) ''id-17'' ''p''
     [CHR 0x5C, CHR ''1''] 5 = Inr (''17'', 4) \<and> join_loop 5 0 [] [Some ''17''] = Inr ''17,''"
  using rewritten_values_keep_comma [of "\<lambda>p. Some (\<lambda>s. if s = ''id-17'' then Some [(0, 5), (3, 5)] else None)"
      "''p''" "\<lambda>s. if s = ''id-17'' then Some [(0, 5), (3, 5)] else None" "''id-17''" 0 5 3 5 "''17''" "[]" "[]"]
  by (simp add: eval_nat_numeral)

end
