(* ===== verification/Etl_Transform.thy ===== *)
theory Etl_Transform
  imports Etl_Data
begin

text \<open>
  \<open>src/core/db/etl/transform.c\<close>: the modules that transform staged data, run as a local script or sent
  to a remote DCPAM RDP. \<open>popen\<close> and the network client are functions of a record on the world.
\<close>

record 'w transform_env =
  te_popen :: "string \<Rightarrow> 'w \<Rightarrow> string option \<times> 'w"
  te_net_init :: "string \<Rightarrow> int \<Rightarrow> 'w \<Rightarrow> bool \<times> 'w"
  te_net_connect :: "string \<Rightarrow> int \<Rightarrow> 'w \<Rightarrow> bool \<times> 'w"
  te_net_send :: "string \<Rightarrow> int \<Rightarrow> string \<Rightarrow> 'w \<Rightarrow> string option \<times> 'w"
  te_net_disconnect :: "string \<Rightarrow> int \<Rightarrow> 'w \<Rightarrow> 'w"

text \<open>The number of a driver, and how \<open>%s\<close> prints a pointer that may be NULL.\<close>

definition driver_no :: "DB_DRIVER option \<Rightarrow> int" where
  "driver_no d =
     (case d of None \<Rightarrow> 0 | Some D_POSTGRESQL \<Rightarrow> 1 | Some D_MYSQL \<Rightarrow> 2 | Some D_MARIADB \<Rightarrow> 3 | Some D_ODBC \<Rightarrow> 4
      | Some D_ORACLE \<Rightarrow> 5 | Some D_SQLITE \<Rightarrow> 6 | Some D_MONGODB \<Rightarrow> 7 | Some D_LDAP \<Rightarrow> 8)"

definition str_arg :: "string option \<Rightarrow> string" where
  "str_arg s = (case s of Some x \<Rightarrow> x | None \<Rightarrow> ''(null)'')"

definition db_args :: "DATABASE_SYSTEM_DB \<Rightarrow> string list" where
  "db_args db =
     [str_arg (db_ip db), show_int (db_port db), str_arg (db_user db), str_arg (db_password db),
      show_int (driver_no (db_driver db)), str_arg (db_connection_string db)]"

definition dq :: string where "dq = [DQ]"

definition local_format :: string where
  "local_format =
     ''%s --dhost='' @ dq @ ''%s'' @ dq @ '' --dport=%d --duser='' @ dq @ ''%s'' @ dq @ '' --dpass='' @ dq @ ''%s'' @ dq @
     '' --ddriver=%d --dconn='' @ dq @ ''%s'' @ dq @ '' --shost='' @ dq @ ''%s'' @ dq @ '' --sport=%d --suser='' @ dq @ ''%s'' @ dq @
     '' --spass='' @ dq @ ''%s'' @ dq @ '' --sdriver=%d --sconn='' @ dq @ ''%s'' @ dq"

definition remote_format :: string where
  "remote_format =
     ''m=./%s dhost=%s dport=%d duser=%s dpass=%s ddriver=%d dconn='' @ dq @ ''%s'' @ dq @
     '' shost=%s sport=%d suser=%s spass=%s sdriver=%d sconn='' @ dq @ ''%s'' @ dq @ '' key=%s''"

text \<open>
  \<open>sscanf(module, "dcpam://%99[^:]:%99d%255[^\n]", ...)\<close>: the host, the port (9091 when none is
  read) and the script; what is not read stays uninitialised.
\<close>

definition scan_module :: "string \<Rightarrow> string option \<times> int \<times> string option" where
  "scan_module m =
     (case scan_lit ''dcpam://'' m of
        None \<Rightarrow> (None, 9091, None)
      | Some r \<Rightarrow>
          (case scan_until 99 (CHR '':'') r of
             None \<Rightarrow> (None, 9091, None)
           | Some (host, r) \<Rightarrow>
               (case scan_lit '':'' r of
                  None \<Rightarrow> (Some host, 9091, None)
                | Some r \<Rightarrow>
                    (case scan_int r of
                       None \<Rightarrow> (Some host, 9091, None)
                     | Some (port, r) \<Rightarrow>
                         (case scan_until 255 NL r of
                            None \<Rightarrow> (Some host, port, None)
                          | Some (script, _) \<Rightarrow> (Some host, port, Some script))))))"

text \<open>
  A local script succeeds when it prints anything, whatever it prints; a remote one fails when its
  answer contains a \<open>0\<close>. A connection object that cannot be initialised is skipped over.
\<close>

definition CDC_TransformGeneric ::
  "'w transform_env \<Rightarrow> DB_SYSTEM_ETL_TRANSFORM_QUERY \<Rightarrow> DATABASE_SYSTEM_DB \<Rightarrow> DATABASE_SYSTEM_DB \<Rightarrow> 'w \<Rightarrow>
   (bool \<times> 'w) outcome" where
  "CDC_TransformGeneric te t dcpam_db system_db w =
     (let m = tq_module t in
      if \<not> contains m ''dcpam://'' \<and> contains m ''./'' \<and> \<not> contains m ''..''
      then
        (let command = snprintf_s 4096 local_format (m # db_args dcpam_db @ db_args system_db) in
         case te_popen te command w of
           (None, w) \<Rightarrow> Inr (False, w)
         | (Some out, w) \<Rightarrow> Inr (take 1 out \<noteq> [], w))
      else if contains m ''dcpam://''
      then
        (case scan_module m of
           (Some host, port, Some script) \<Rightarrow>
             (let command = snprintf_s 4096 remote_format
                    (script # db_args dcpam_db @ db_args system_db @ [str_arg (tq_api_key t)])
              in case te_net_init te host port w of
                   (False, w) \<Rightarrow> Inr (True, w)
                 | (True, w) \<Rightarrow>
                     (case te_net_connect te host port w of
                        (False, w) \<Rightarrow> Inr (False, w)
                      | (True, w) \<Rightarrow>
                          (case te_net_send te host port command w of
                             (None, w) \<Rightarrow> Inr (False, te_net_disconnect te host port w)
                           | (Some response, w) \<Rightarrow>
                               if contains response ''0''
                               then Inr (False, te_net_disconnect te host port w)
                               else Inr (True, te_net_disconnect te host port (te_net_disconnect te host port w)))))
         | _ \<Rightarrow> Inl Uninitialised)
      else Inr (False, w))"

text \<open>The loop returns in its first iteration. \<open>None\<close> is a NULL array or database.\<close>

definition transform_first ::
  "'w transform_env \<Rightarrow> DB_SYSTEM_ETL_TRANSFORM_QUERY list \<Rightarrow> DATABASE_SYSTEM_DB \<Rightarrow> DATABASE_SYSTEM_DB \<Rightarrow> 'w \<Rightarrow>
   (bool \<times> 'w) outcome" where
  "transform_first te ts dcpam_db system_db w =
     (case ts of [] \<Rightarrow> Inr (True, w) | t # _ \<Rightarrow> CDC_TransformGeneric te t dcpam_db system_db w)"

definition DB_CDC_TransformInserted ::
  "'w transform_env \<Rightarrow> DB_SYSTEM_ETL_TRANSFORM_QUERY list \<Rightarrow> DATABASE_SYSTEM_DB option \<Rightarrow>
   DATABASE_SYSTEM_DB option \<Rightarrow> 'w \<Rightarrow> (bool \<times> 'w) outcome" where
  "DB_CDC_TransformInserted te ts dcpam_db system_db w =
     (case (dcpam_db, system_db) of (Some d, Some s) \<Rightarrow> transform_first te ts d s w | _ \<Rightarrow> Inr (False, w))"

definition DB_CDC_TransformDeleted ::
  "'w transform_env \<Rightarrow> DB_SYSTEM_ETL_TRANSFORM_QUERY list \<Rightarrow> DATABASE_SYSTEM_DB option \<Rightarrow>
   DATABASE_SYSTEM_DB option \<Rightarrow> 'w \<Rightarrow> (bool \<times> 'w) outcome" where
  "DB_CDC_TransformDeleted te ts dcpam_db system_db w =
     (case (dcpam_db, system_db) of (Some d, Some s) \<Rightarrow> transform_first te ts d s w | _ \<Rightarrow> Inr (False, w))"

definition DB_CDC_TransformModified ::
  "'w transform_env \<Rightarrow> DB_SYSTEM_ETL_TRANSFORM_QUERY list \<Rightarrow> DATABASE_SYSTEM_DB option \<Rightarrow>
   DATABASE_SYSTEM_DB option \<Rightarrow> 'w \<Rightarrow> (bool \<times> 'w) outcome" where
  "DB_CDC_TransformModified te ts dcpam_db system_db w =
     (case (dcpam_db, system_db) of (Some d, Some s) \<Rightarrow> transform_first te ts d s w | _ \<Rightarrow> Inr (False, w))"

section \<open>Which modules run\<close>

text \<open>
  Only the first configured transformation of each kind ever runs: the result and every effect
  are those of the first module alone, whatever modules follow it.
\<close>

theorem only_first_transform_runs:
  "DB_CDC_TransformInserted te (t # ts) d s w = DB_CDC_TransformInserted te [t] d s w \<and>
   DB_CDC_TransformDeleted te (t # ts) d s w = DB_CDC_TransformDeleted te [t] d s w \<and>
   DB_CDC_TransformModified te (t # ts) d s w = DB_CDC_TransformModified te [t] d s w"
  by (simp add: DB_CDC_TransformInserted_def DB_CDC_TransformDeleted_def DB_CDC_TransformModified_def
      transform_first_def split: option.split)

text \<open>
  No path traversal: a module with \<open>..\<close> in it is never run as a local script, nor is one
  without \<open>./\<close>; such a module fails without any effect unless it names a remote RDP.
\<close>

theorem local_module_guard:
  assumes "contains (tq_module t) ''..'' \<or> \<not> contains (tq_module t) ''./''" "\<not> contains (tq_module t) ''dcpam://''"
  shows "CDC_TransformGeneric te t d s w = Inr (False, w)"
  using assms by (auto simp: CDC_TransformGeneric_def Let_def)

definition demo_transform_env :: "bool \<Rightarrow> string option \<Rightarrow> string list transform_env" where
  "demo_transform_env init_ok answer =
     \<lparr>te_popen = (\<lambda>c w. (answer, c # w)), te_net_init = (\<lambda>h p w. (init_ok, w)),
      te_net_connect = (\<lambda>h p w. (True, w)), te_net_send = (\<lambda>h p c w. (answer, c # w)),
      te_net_disconnect = (\<lambda>h p w. w)\<rparr>"

definition demo_module :: "string \<Rightarrow> DB_SYSTEM_ETL_TRANSFORM_QUERY" where
  "demo_module m = \<lparr>tq_module = m, tq_staged_data = [], tq_source_system_update = None, tq_api_key = None\<rparr>"

theorem local_module_guard_witness:
  "CDC_TransformGeneric (demo_transform_env True (Some ''1'')) (demo_module ''./../x.sh'')
     (demo_db D_MYSQL) (demo_db D_MYSQL) [] = Inr (False, [])"
  by (rule local_module_guard) (simp_all add: demo_module_def contains_def)

text \<open>
  An RDP server whose connection cannot be initialised (its name does not resolve, say) counts as
  a successful transformation: nothing is sent and the step reports success.
\<close>

theorem unreachable_rdp_is_success:
  assumes "scan_module (tq_module t) = (Some host, port, Some script)" "contains (tq_module t) ''dcpam://''"
    "te_net_init te host port w = (False, w')"
  shows "CDC_TransformGeneric te t d s w = Inr (True, w')"
  using assms by (simp add: CDC_TransformGeneric_def Let_def)

theorem unreachable_rdp_is_success_witness:
  "CDC_TransformGeneric (demo_transform_env False None) (demo_module ''dcpam://rdp:9092/clean.sh'')
     (demo_db D_MYSQL) (demo_db D_MYSQL) [] = Inr (True, [])"
proof (rule unreachable_rdp_is_success)
  show "scan_module (tq_module (demo_module ''dcpam://rdp:9092/clean.sh'')) =
      (Some ''rdp'', 9092, Some ''/clean.sh'')"
    by (code_simp)
qed (simp_all add: demo_module_def contains_def demo_transform_env_def)

end
