(* ===== verification/Socket_Io.thy ===== *)
theory Socket_Io
  imports C_Strings
begin

text \<open>
  \<open>src/core/network/socket_io.c\<close>: the table of connected clients, the connection counter, the set of
  watched descriptors, and the loop of \<open>SOCKET_run\<close> around \<open>select\<close>. The operating system is a record
  of functions on a world \<open>'w\<close>; the globals of the file are a record of their own. A
  failure of \<open>select\<close>, which ends the program, is left out.
\<close>

section \<open>State\<close>

type_synonym client = "int \<times> bool"

text \<open>
  \<open>so_session\<close> is \<open>communication_session_.socket_descriptor\<close>; the counter is \<open>http_conn_count\<close>. The
  table has \<open>MAX_CLIENTS\<close> (1024) slots, a descriptor of 0 marks a free one.
\<close>

record sock_state =
  so_clients :: "client list"
  so_count :: int
  so_master :: "int set"
  so_fdmax :: int
  so_newfd :: int
  so_session :: int
  so_ip :: string

definition MAX_CLIENTS :: nat where "MAX_CLIENTS = 1024"

datatype received = Recv_error nat | Recv_data string

record 'w os =
  os_select :: "int set \<Rightarrow> 'w \<Rightarrow> int set \<times> 'w"
  os_accept :: "'w \<Rightarrow> int \<times> string \<times> 'w"
  os_recv :: "int \<Rightarrow> 'w \<Rightarrow> received \<times> 'w"
  os_send :: "int \<Rightarrow> string \<Rightarrow> 'w \<Rightarrow> int \<times> 'w"
  os_close :: "int \<Rightarrow> 'w \<Rightarrow> 'w"

section \<open>The client table\<close>

fun register_slot :: "int \<Rightarrow> client list \<Rightarrow> client list" where
  "register_slot fd [] = []"
| "register_slot fd ((d, c) # cs) = (if d = 0 then (fd, True) # cs else (d, c) # register_slot fd cs)"

definition SOCKET_register_client :: "int \<Rightarrow> sock_state \<Rightarrow> sock_state" where
  "SOCKET_register_client fd st = st\<lparr>so_clients := register_slot fd (so_clients st)\<rparr>"

fun unregister_slot :: "int \<Rightarrow> client list \<Rightarrow> client list" where
  "unregister_slot fd [] = []"
| "unregister_slot fd ((d, c) # cs) = (if d = fd then (0, False) # cs else (d, c) # unregister_slot fd cs)"

definition SOCKET_unregister_client :: "int \<Rightarrow> sock_state \<Rightarrow> sock_state" where
  "SOCKET_unregister_client fd st = st\<lparr>so_clients := unregister_slot fd (so_clients st)\<rparr>"

text \<open>When no slot has the descriptor the function ends without a value, which its caller uses.\<close>

fun find_slot :: "int \<Rightarrow> client list \<Rightarrow> nat \<Rightarrow> nat outcome" where
  "find_slot fd [] i = Inl Uninitialised"
| "find_slot fd ((d, c) # cs) i = (if d = fd then Inr i else find_slot fd cs (i + 1))"

definition SOCKET_find_client :: "int \<Rightarrow> sock_state \<Rightarrow> nat outcome" where
  "SOCKET_find_client fd st = find_slot fd (so_clients st) 0"

section \<open>Access, counting, closing\<close>

text \<open>An empty list of hosts allows everyone.\<close>

definition SOCKET_client_host_allowed :: "string \<Rightarrow> string list \<Rightarrow> nat \<Rightarrow> bool" where
  "SOCKET_client_host_allowed ip allowed_hosts hosts_len =
     (hosts_len = 0 \<or> ip \<in> set (take hosts_len allowed_hosts))"

text \<open>The test before a decrement adds the \<open>1\<close> it means to subtract.\<close>

definition SOCKET_modify_clients_count :: "int \<Rightarrow> sock_state \<Rightarrow> sock_state" where
  "SOCKET_modify_clients_count m st =
     (if 0 < m then st\<lparr>so_count := so_count st + 1\<rparr>
      else if 0 \<le> so_count st - m then st\<lparr>so_count := so_count st - 1\<rparr>
      else st)"

definition SOCKET_close :: "'w os \<Rightarrow> int \<Rightarrow> sock_state \<Rightarrow> 'w \<Rightarrow> sock_state \<times> 'w" where
  "SOCKET_close sys fd st w =
     (SOCKET_modify_clients_count (- 1) (st\<lparr>so_master := so_master st - {fd}\<rparr>), os_close sys fd w)"

definition SOCKET_release :: "sock_state \<Rightarrow> sock_state" where
  "SOCKET_release st = st\<lparr>so_session := - 1\<rparr>"

definition SOCKET_disconnect_client :: "'w os \<Rightarrow> sock_state \<Rightarrow> 'w \<Rightarrow> sock_state \<times> 'w" where
  "SOCKET_disconnect_client sys st w =
     (case SOCKET_close sys (so_session st) st w of
        (st, w) \<Rightarrow> (if so_session st \<noteq> - 1 then st else SOCKET_release st, w))"

text \<open>
  \<open>data\<close> is the buffer the caller passes: the send copies \<open>len\<close> bytes of it. The descriptor is the one
  of the client's slot.
\<close>

definition SOCKET_send ::
  "'w os \<Rightarrow> nat \<Rightarrow> string \<Rightarrow> nat \<Rightarrow> sock_state \<Rightarrow> 'w \<Rightarrow> (sock_state \<times> 'w) outcome" where
  "SOCKET_send sys client data len st w =
     (if length data < len \<or> length (so_clients st) \<le> client then Inl Out_of_bounds
      else if so_session st \<noteq> 0
      then (case os_send sys (fst (so_clients st ! client)) (take len data) w of
              (n, w) \<Rightarrow> Inr (if n \<le> 0 then SOCKET_disconnect_client sys st w else (st, w)))
      else Inr (st, w))"

section \<open>Serving\<close>

type_synonym 'w spc = "string \<Rightarrow> nat \<Rightarrow> sock_state \<Rightarrow> 'w \<Rightarrow> (sock_state \<times> 'w) outcome"

text \<open>
  \<open>data_length\<close> is unsigned: a failed read with \<open>errno\<close> at most 1 would count as 4294967295 bytes; a
  handler then reads past its buffer.
\<close>

definition SOCKET_process ::
  "'w os \<Rightarrow> 'w spc option \<Rightarrow> int \<Rightarrow> sock_state \<Rightarrow> 'w \<Rightarrow> (sock_state \<times> 'w) outcome" where
  "SOCKET_process sys cb fd st w =
     obind (SOCKET_find_client fd st) (\<lambda>client.
       let st = st\<lparr>so_session := fd\<rparr> in
       case os_recv sys fd w of
         (Recv_error e, w) \<Rightarrow>
           if 1 < e \<or> cb = None then Inr (SOCKET_close sys fd (SOCKET_unregister_client fd st) w)
           else Inl Out_of_bounds
       | (Recv_data s, w) \<Rightarrow>
           if s = []
           then (case SOCKET_close sys fd (SOCKET_unregister_client fd st) w of
                   (st, w) \<Rightarrow> Inr (SOCKET_disconnect_client sys st w))
           else (case cb of
                   Some f \<Rightarrow> f s client st w
                 | None \<Rightarrow> Inr (SOCKET_close sys fd (SOCKET_unregister_client fd st) w)))"

text \<open>The branch of \<open>SOCKET_run\<close> for the listening socket.\<close>

definition accept_client ::
  "'w os \<Rightarrow> string list \<Rightarrow> nat \<Rightarrow> sock_state \<Rightarrow> 'w \<Rightarrow> sock_state \<times> 'w" where
  "accept_client sys allowed_hosts hosts_len st w =
     (let st = SOCKET_modify_clients_count 1 st;
          (newfd, ip, w) = os_accept sys w;
          st = st\<lparr>so_newfd := newfd, so_ip := ip\<rparr>
      in if \<not> SOCKET_client_host_allowed ip allowed_hosts hosts_len
         then SOCKET_close sys newfd (SOCKET_unregister_client newfd st) w
         else
           (let st = st\<lparr>so_session := newfd\<rparr> in
            if newfd = - 1 then (st, w)
            else (SOCKET_register_client newfd
                    (st\<lparr>so_master := insert newfd (so_master st), so_fdmax := max (so_fdmax st) newfd\<rparr>), w)))"

text \<open>
  One pass over the descriptors below \<open>fdmax + 1\<close>, downwards and without descriptor 0. Any readable
  descriptor but the listening one makes the program serve \<open>newfd\<close>, the last one accepted.
\<close>

fun serve_ready ::
  "'w os \<Rightarrow> int \<Rightarrow> 'w spc option \<Rightarrow> string list \<Rightarrow> nat \<Rightarrow> int set \<Rightarrow> nat \<Rightarrow> sock_state \<Rightarrow> 'w \<Rightarrow>
   (sock_state \<times> 'w) outcome" where
  "serve_ready sys server cb hosts n ready 0 st w = Inr (st, w)"
| "serve_ready sys server cb hosts n ready (Suc i) st w =
     obind
       (if int (Suc i) \<in> ready
        then if int (Suc i) = server then Inr (accept_client sys hosts n st w)
             else SOCKET_process sys cb (so_newfd st) st w
        else Inr (st, w))
       (\<lambda>(st, w). serve_ready sys server cb hosts n ready i st w)"

definition SOCKET_run_round ::
  "'w os \<Rightarrow> int \<Rightarrow> 'w spc option \<Rightarrow> string list \<Rightarrow> nat \<Rightarrow> sock_state \<Rightarrow> 'w \<Rightarrow> (sock_state \<times> 'w) outcome" where
  "SOCKET_run_round sys server cb hosts n st w =
     (case os_select sys (so_master st) w of
        (ready, w) \<Rightarrow> serve_ready sys server cb hosts n ready (nat (so_fdmax st)) st w)"

text \<open>\<open>SOCKET_run\<close> for a number of rounds, the loop that ends when the program is terminated.\<close>

fun SOCKET_run_rounds ::
  "'w os \<Rightarrow> int \<Rightarrow> 'w spc option \<Rightarrow> string list \<Rightarrow> nat \<Rightarrow> nat \<Rightarrow> sock_state \<Rightarrow> 'w \<Rightarrow> (sock_state \<times> 'w) outcome" where
  "SOCKET_run_rounds sys server cb hosts n 0 st w = Inr (st, w)"
| "SOCKET_run_rounds sys server cb hosts n (Suc k) st w =
     obind (SOCKET_run_round sys server cb hosts n st w)
       (\<lambda>(st, w). SOCKET_run_rounds sys server cb hosts n k st w)"

definition SOCKET_run ::
  "'w os \<Rightarrow> int \<Rightarrow> 'w spc option \<Rightarrow> string list \<Rightarrow> nat \<Rightarrow> nat \<Rightarrow> sock_state \<Rightarrow> 'w \<Rightarrow> (sock_state \<times> 'w) outcome" where
  "SOCKET_run sys server cb hosts n k st w =
     SOCKET_run_rounds sys server cb hosts n k
       (st\<lparr>so_master := insert server (so_master st), so_fdmax := server\<rparr>) w"

text \<open>
  \<open>SOCKET_main\<close> creates the listening socket, prepares it and serves. A result \<open>None\<close> is the
  \<open>exit(EXIT_FAILURE)\<close>; the options of the socket may fail, which is only logged. \<open>SOCKET_stop\<close> closes
  the field \<open>socket\<close> of the session, which nothing sets: descriptor 0.
\<close>

record 'w listen_os =
  ls_socket :: "'w \<Rightarrow> int \<times> 'w"
  ls_option :: "int \<Rightarrow> string \<Rightarrow> 'w \<Rightarrow> 'w"
  ls_bind :: "int \<Rightarrow> int \<Rightarrow> 'w \<Rightarrow> bool \<times> 'w"
  ls_nonblock :: "int \<Rightarrow> 'w \<Rightarrow> bool \<times> 'w"
  ls_listen :: "int \<Rightarrow> nat \<Rightarrow> 'w \<Rightarrow> bool \<times> 'w"

definition DEFAULT_PORT :: int where "DEFAULT_PORT = 9091"

definition SOCKET_stop :: "'w os \<Rightarrow> int \<Rightarrow> 'w \<Rightarrow> 'w" where
  "SOCKET_stop sys server w = os_close sys server (os_close sys 0 w)"

text \<open>The port is cut to 16 bits.\<close>

definition SOCKET_initialization :: "'w listen_os \<Rightarrow> 'w os \<Rightarrow> int \<Rightarrow> 'w \<Rightarrow> (int \<times> int) option \<times> 'w" where
  "SOCKET_initialization ls sys port w =
     (case ls_socket ls w of
        (server, w) \<Rightarrow>
          if server = - 1 then (None, SOCKET_stop sys server w)
          else (Some (server, (if 0 < port then port else DEFAULT_PORT) mod 2 ^ 16), w))"

definition SOCKET_prepare :: "'w listen_os \<Rightarrow> 'w os \<Rightarrow> int \<Rightarrow> int \<Rightarrow> sock_state \<Rightarrow> 'w \<Rightarrow> sock_state option \<times> 'w" where
  "SOCKET_prepare ls sys server port st w =
     (case ls_bind ls server port (ls_option ls server ''SO_REUSEADDR'' w) of
        (False, w) \<Rightarrow> (None, SOCKET_stop sys server w)
      | (True, w) \<Rightarrow>
          (case ls_nonblock ls server (ls_option ls server ''TCP_NODELAY''
                  (ls_option ls server ''SO_SNDTIMEO'' (ls_option ls server ''SO_RCVTIMEO'' w))) of
             (False, w) \<Rightarrow> (None, SOCKET_stop sys server w)
           | (True, w) \<Rightarrow>
               (case ls_listen ls server MAX_CLIENTS w of
                  (False, w) \<Rightarrow> (None, SOCKET_stop sys server w)
                | (True, w) \<Rightarrow> (Some (st\<lparr>so_master := {}\<rparr>), w))))"

definition SOCKET_main ::
  "'w listen_os \<Rightarrow> 'w os \<Rightarrow> 'w spc option \<Rightarrow> int \<Rightarrow> string list \<Rightarrow> nat \<Rightarrow> nat \<Rightarrow> sock_state \<Rightarrow> 'w \<Rightarrow>
   (sock_state option \<times> 'w) outcome" where
  "SOCKET_main ls sys cb port hosts n k st w =
     (case SOCKET_initialization ls sys port w of
        (None, w) \<Rightarrow> Inr (None, w)
      | (Some (server, active_port), w) \<Rightarrow>
          (case SOCKET_prepare ls sys server active_port st w of
             (None, w) \<Rightarrow> Inr (None, w)
           | (Some st, w) \<Rightarrow>
               obind (SOCKET_run sys server cb hosts n k st w)
                 (\<lambda>(st, w). Inr (Some st, SOCKET_stop sys server w))))"

section \<open>The table as a set of descriptors\<close>

definition slots :: "client list \<Rightarrow> int set" where
  "slots cs = fst ` set cs - {0}"

definition table_ok :: "client list \<Rightarrow> bool" where
  "table_ok cs \<longleftrightarrow> distinct (filter (\<lambda>d. d \<noteq> 0) (map fst cs)) \<and> (\<forall>(d, c) \<in> set cs. c = (d \<noteq> 0))"

lemma slots_Nil [simp]: "slots [] = {}"
  by (simp add: slots_def)

lemma slots_Cons [simp]: "slots ((d, c) # cs) = (if d = 0 then slots cs else insert d (slots cs))"
  by (auto simp: slots_def)

lemma table_ok_Nil [simp]: "table_ok []"
  by (simp add: table_ok_def)

lemma table_ok_Cons [simp]:
  "table_ok ((d, c) # cs) \<longleftrightarrow> c = (d \<noteq> 0) \<and> (d \<noteq> 0 \<longrightarrow> d \<notin> slots cs) \<and> table_ok cs"
  by (auto simp: table_ok_def slots_def)

lemma slots_register:
  "fd \<noteq> 0 \<Longrightarrow> slots (register_slot fd cs) = (if 0 \<in> fst ` set cs then insert fd (slots cs) else slots cs)"
  by (induction cs rule: register_slot.induct) auto

lemma table_ok_register:
  "fd \<noteq> 0 \<Longrightarrow> fd \<notin> slots cs \<Longrightarrow> table_ok cs \<Longrightarrow> table_ok (register_slot fd cs)"
  by (induction cs rule: register_slot.induct) (auto simp: slots_register)

lemma unregister_absent: "fd \<noteq> 0 \<Longrightarrow> fd \<notin> slots cs \<Longrightarrow> unregister_slot fd cs = cs"
  by (induction fd cs rule: unregister_slot.induct) (auto split: if_splits)

lemma slots_unregister: "fd \<noteq> 0 \<Longrightarrow> table_ok cs \<Longrightarrow> slots (unregister_slot fd cs) = slots cs - {fd}"
  by (induction fd cs rule: unregister_slot.induct) auto

lemma table_ok_unregister: "fd \<noteq> 0 \<Longrightarrow> table_ok cs \<Longrightarrow> table_ok (unregister_slot fd cs)"
  by (induction fd cs rule: unregister_slot.induct) (auto simp: slots_unregister)

lemma length_table [simp]:
  "length (register_slot fd cs) = length cs" "length (unregister_slot fd cs) = length cs"
  by (induction cs) auto

lemma find_slot_absent: "fd \<noteq> 0 \<Longrightarrow> fd \<notin> slots cs \<Longrightarrow> find_slot fd cs i = Inl Uninitialised"
  by (induction fd cs i rule: find_slot.induct) (auto split: if_splits)

lemma find_slot_present:
  "fd \<in> slots cs \<Longrightarrow> \<exists>k. find_slot fd cs i = Inr (i + k) \<and> k < length cs \<and> fst (cs ! k) = fd"
proof (induction fd cs i rule: find_slot.induct)
  case (2 fd d c cs i)
  show ?case
  proof (cases "d = fd")
    case False
    with 2 obtain k where "find_slot fd cs (i + 1) = Inr (i + 1 + k)" "k < length cs" "fst (cs ! k) = fd"
      by (auto split: if_splits)
    with False show ?thesis by (intro exI [of _ "Suc k"]) simp
  qed auto
qed simp

section \<open>The registry interface\<close>

text \<open>
  What the serving loop relies on: a registry of descriptors behaves as a set, up to its room.
\<close>

locale registry =
  fixes wf :: "'t \<Rightarrow> bool"
    and members :: "'t \<Rightarrow> int set"
    and room :: "'t \<Rightarrow> bool"
    and add :: "int \<Rightarrow> 't \<Rightarrow> 't"
    and del :: "int \<Rightarrow> 't \<Rightarrow> 't"
  assumes add_wf: "fd \<noteq> 0 \<Longrightarrow> fd \<notin> members t \<Longrightarrow> wf t \<Longrightarrow> wf (add fd t)"
    and del_wf: "fd \<noteq> 0 \<Longrightarrow> wf t \<Longrightarrow> wf (del fd t)"
    and add_members: "fd \<noteq> 0 \<Longrightarrow> members (add fd t) = (if room t then insert fd (members t) else members t)"
    and del_members: "fd \<noteq> 0 \<Longrightarrow> wf t \<Longrightarrow> members (del fd t) = members t - {fd}"
begin

lemma add_then_del:
  "fd \<noteq> 0 \<Longrightarrow> fd \<notin> members t \<Longrightarrow> wf t \<Longrightarrow> members (del fd (add fd t)) = members t"
  by (simp add: del_members add_wf add_members)

lemma del_absent: "fd \<noteq> 0 \<Longrightarrow> wf t \<Longrightarrow> fd \<notin> members (del fd t)"
  by (simp add: del_members)

end

interpretation clients: registry table_ok slots "\<lambda>cs. 0 \<in> fst ` set cs" register_slot unregister_slot
  by unfold_locales (auto simp: table_ok_register table_ok_unregister slots_register slots_unregister)

text \<open>
  C25: the client table is a set of descriptors with room for its slots: registering a new descriptor
  adds it, when a slot is free, in a slot that \<open>SOCKET_find_client\<close> finds, and unregistering it
  afterwards gives the old set back; a full table silently ignores the client, whose first request is
  then served with a client that does not exist.
\<close>

theorem client_table_is_a_set:
  assumes "fd \<noteq> 0" "fd \<notin> slots (so_clients st)" "table_ok (so_clients st)"
  shows "slots (so_clients (SOCKET_unregister_client fd (SOCKET_register_client fd st))) = slots (so_clients st) \<and>
    (if 0 \<in> fst ` set (so_clients st)
     then \<exists>k. SOCKET_find_client fd (SOCKET_register_client fd st) = Inr k \<and>
            fst (so_clients (SOCKET_register_client fd st) ! k) = fd
     else SOCKET_find_client fd (SOCKET_register_client fd st) = Inl Uninitialised)"
proof -
  let ?cs = "register_slot fd (so_clients st)"
  have "slots (unregister_slot fd ?cs) = slots (so_clients st)"
    using assms by (intro clients.add_then_del)
  moreover have "\<exists>k. find_slot fd ?cs 0 = Inr k \<and> fst (?cs ! k) = fd" if "0 \<in> fst ` set (so_clients st)"
    using find_slot_present [of fd ?cs 0] clients.add_members [OF assms(1)] that by auto
  moreover have "find_slot fd ?cs 0 = Inl Uninitialised" if "0 \<notin> fst ` set (so_clients st)"
    using find_slot_absent [OF assms(1)] clients.add_members [OF assms(1)] that assms(2) by simp
  ultimately show ?thesis
    by (simp add: SOCKET_register_client_def SOCKET_unregister_client_def SOCKET_find_client_def)
qed

section \<open>The counter\<close>

fun close_all :: "'w os \<Rightarrow> int list \<Rightarrow> sock_state \<Rightarrow> 'w \<Rightarrow> sock_state \<times> 'w" where
  "close_all sys [] st w = (st, w)"
| "close_all sys (fd # fds) st w = (case SOCKET_close sys fd st w of (st, w) \<Rightarrow> close_all sys fds st w)"

lemma count_close: "so_count (fst (SOCKET_close sys fd st w)) = max (- 2) (so_count st - 1)"
  if "- 2 \<le> so_count st"
  using that by (auto simp: SOCKET_close_def SOCKET_modify_clients_count_def)

text \<open>
  The connection counter goes below zero: starting from \<open>c\<close> connections, \<open>n\<close> closes leave
  \<open>max (-2) (c - n)\<close>, where a counter of open connections would stop at 0.
\<close>

theorem connection_count_reaches_minus_two:
  assumes "- 2 \<le> so_count st"
  shows "so_count (fst (close_all sys fds st w)) = max (- 2) (so_count st - int (length fds))"
  using assms
proof (induction fds arbitrary: st w)
  case (Cons fd fds)
  obtain st' w' where c: "SOCKET_close sys fd st w = (st', w')" by fastforce
  with count_close [OF Cons.prems, of sys fd w] have "so_count st' = max (- 2) (so_count st - 1)" by simp
  with Cons.IH [of st' w'] c show ?case by simp
qed simp

section \<open>One pass\<close>

lemma serve_ready_none:
  "(\<And>j. 0 < j \<Longrightarrow> j \<le> i \<Longrightarrow> int j \<notin> ready) \<Longrightarrow> serve_ready sys server cb hosts n ready i st w = Inr (st, w)"
proof (induction i)
  case (Suc i)
  then have "int (Suc i) \<notin> ready" by blast
  with Suc show ?case by simp
qed simp

lemma serve_ready_single:
  assumes "0 < a" "a \<le> i" "\<And>j. 0 < j \<Longrightarrow> j \<le> i \<Longrightarrow> int j \<in> ready \<longleftrightarrow> j = a"
  shows "serve_ready sys server cb hosts n ready i st w =
    (if int a = server then Inr (accept_client sys hosts n st w)
     else SOCKET_process sys cb (so_newfd st) st w)"
  using assms
proof (induction i)
  case (Suc i)
  show ?case
  proof (cases "a = Suc i")
    case True
    have none: "serve_ready sys server cb hosts n ready i s v = Inr (s, v)" for s v
      by (rule serve_ready_none) (use Suc.prems(3) True in auto)
    have "int (Suc i) \<in> ready" using Suc.prems(3) [of "Suc i"] True by simp
    with True none show ?thesis
      by (cases "SOCKET_process sys cb (so_newfd st) st w") (auto simp: split_def)
  next
    case False
    then have "int (Suc i) \<notin> ready" "a \<le> i" using Suc.prems(2) Suc.prems(3) [of "Suc i"] by auto
    with Suc show ?thesis by simp
  qed
qed simp

text \<open>
  C40: a refused host breaks the connected ones: the loop serves \<open>newfd\<close>, the descriptor last
  accepted, whichever descriptor is readable. After a connection from a host that is not allowed,
  \<open>newfd\<close> is the closed descriptor of that host, and the next request of a client that was connected
  before uses the value of \<open>SOCKET_find_client\<close> that was never returned.
\<close>

theorem refused_host_breaks_clients:
  assumes "os_select sys (so_master st) w = ({int a}, w1)" "int a = server" "0 < a" "int a \<le> so_fdmax st"
    "os_accept sys w1 = (fd, ip, w2)" "\<not> SOCKET_client_host_allowed ip hosts n" "fd \<noteq> 0"
    "table_ok (so_clients st)"
    "os_select sys (so_master st - {fd}) (os_close sys fd w2) = ({int c}, w3)"
    "int c \<noteq> server" "0 < c" "int c \<le> so_fdmax st"
  shows "SOCKET_run_rounds sys server cb hosts n 2 st w = Inl Uninitialised"
proof -
  let ?i = "nat (so_fdmax st)"
  obtain st1 where a: "accept_client sys hosts n st w1 = (st1, os_close sys fd w2)"
    and st1: "so_newfd st1 = fd" "so_fdmax st1 = so_fdmax st" "so_master st1 = so_master st - {fd}"
      "so_clients st1 = unregister_slot fd (so_clients st)"
    using assms(5,6)
    by (auto simp: accept_client_def SOCKET_close_def SOCKET_unregister_client_def
        SOCKET_modify_clients_count_def Let_def)
  have "a \<le> ?i" "c \<le> ?i" using assms(4,12) by auto
  then have one: "serve_ready sys server cb hosts n {int a} ?i st w1 = Inr (accept_client sys hosts n st w1)"
    and two: "serve_ready sys server cb hosts n {int c} ?i st1 w3 = SOCKET_process sys cb fd st1 w3"
    using serve_ready_single [of a ?i "{int a}" sys server cb hosts n st w1] assms(2,3)
      serve_ready_single [of c ?i "{int c}" sys server cb hosts n st1 w3] assms(10,11) st1(1) by auto
  have "SOCKET_run_round sys server cb hosts n st w = Inr (st1, os_close sys fd w2)"
    using one assms(1) a by (simp add: SOCKET_run_round_def)
  moreover have "fd \<notin> slots (so_clients st1)"
    using clients.del_absent [OF assms(7,8)] st1 by simp
  then have "SOCKET_process sys cb fd st1 w3 = Inl Uninitialised"
    using find_slot_absent [OF assms(7)] by (simp add: SOCKET_process_def SOCKET_find_client_def)
  then have "SOCKET_run_round sys server cb hosts n st1 (os_close sys fd w2) = Inl Uninitialised"
    using two assms(9) st1 by (simp add: SOCKET_run_round_def)
  ultimately show ?thesis by (simp add: numeral_2_eq_2)
qed

section \<open>Concrete inputs\<close>

definition demo_os :: "int set list os" where
  "demo_os = \<lparr>os_select = (\<lambda>m w. case w of [] \<Rightarrow> ({}, []) | r # rs \<Rightarrow> (r, rs)),
              os_accept = (\<lambda>w. (7, ''10.0.0.9'', w)), os_recv = (\<lambda>fd w. (Recv_data ''x'', w)),
              os_send = (\<lambda>fd s w. (int (length s), w)), os_close = (\<lambda>fd w. w)\<rparr>"

definition demo_sock :: sock_state where
  "demo_sock = \<lparr>so_clients = [(5, True), (0, False)], so_count = 1, so_master = {3, 5}, so_fdmax = 5,
                so_newfd = 5, so_session = 5, so_ip = ''10.0.0.1''\<rparr>"

theorem client_table_is_a_set_witness:
  "slots (so_clients (SOCKET_unregister_client 7 (SOCKET_register_client 7 demo_sock))) = {5} \<and>
   (\<exists>k. SOCKET_find_client 7 (SOCKET_register_client 7 demo_sock) = Inr k)"
  using client_table_is_a_set [of 7 demo_sock] by (auto simp: demo_sock_def)

theorem connection_count_reaches_minus_two_witness:
  "so_count (fst (close_all demo_os [5, 5, 5, 5] demo_sock [])) = - 2"
  using connection_count_reaches_minus_two [of demo_sock demo_os "[5, 5, 5, 5]" "[]"] by (simp add: demo_sock_def)

theorem refused_host_breaks_clients_witness:
  "SOCKET_run_rounds demo_os 3 None [''10.0.0.1''] 1 2 demo_sock [{3}, {5}] = Inl Uninitialised"
  by (rule refused_host_breaks_clients [where a = 3 and c = 5 and fd = 7 and ip = "''10.0.0.9''" and
        ?w1.0 = "[{5}]" and ?w2.0 = "[{5}]" and ?w3.0 = "[]"])
    (auto simp: demo_os_def demo_sock_def SOCKET_client_host_allowed_def)

end
