(* ===== verification/Net_Client.thy ===== *)
theory Net_Client
  imports Socket_Io
begin

text \<open>
  \<open>src/core/network/client.c\<close> and \<open>src/core/lcs_report.c\<close>: outgoing connections, plain or over TLS,
  the loop that collects a response, and the reports a component sends to the LCS. Name resolution,
  sockets and TLS are functions on the world \<open>'w\<close>; a byte of a buffer that was never written is
  \<open>None\<close>.
\<close>

section \<open>Connections\<close>

record 'w net =
  net_socket :: "'w \<Rightarrow> int \<times> 'w"
  net_ctx :: "'w \<Rightarrow> bool \<times> 'w"
  net_connect :: "int \<Rightarrow> string \<Rightarrow> int \<Rightarrow> 'w \<Rightarrow> bool \<times> 'w"
  net_handshake :: "int \<Rightarrow> 'w \<Rightarrow> bool \<times> 'w"
  net_send :: "bool \<Rightarrow> int \<Rightarrow> string \<Rightarrow> 'w \<Rightarrow> bool \<times> 'w"
  net_recv :: "bool \<Rightarrow> int \<Rightarrow> nat \<Rightarrow> 'w \<Rightarrow> string \<times> 'w"
  net_os :: "'w os"

record NET_CONN =
  nc_host :: "string option"
  nc_port :: int
  nc_socket :: int
  nc_server :: "string \<times> int"
  nc_response :: "char option list option"
  nc_response_len :: nat
  nc_initialized :: bool
  nc_connected :: bool
  nc_sslctx :: bool
  nc_cSSL :: bool

text \<open>The host is stored through a format, 254 characters of it.\<close>

definition conn_target :: "string \<Rightarrow> int \<Rightarrow> NET_CONN \<Rightarrow> NET_CONN" where
  "conn_target host port c =
     c\<lparr>nc_server := (host, port), nc_response := None, nc_host := Some (snprintf_s 255 host []), nc_port := port\<rparr>"

definition NET_CONN_init ::
  "'w net \<Rightarrow> NET_CONN \<Rightarrow> string \<Rightarrow> int \<Rightarrow> bool \<Rightarrow> 'w \<Rightarrow> bool \<times> NET_CONN \<times> 'w" where
  "NET_CONN_init net c host port secure w =
     (let c = c\<lparr>nc_initialized := False, nc_connected := False, nc_cSSL := False, nc_sslctx := False\<rparr>;
          (ok, w) = (if secure then net_ctx net w else (True, w))
      in if \<not> ok then (False, c, w)
         else
           (let c = c\<lparr>nc_sslctx := secure\<rparr>; (s, w) = net_socket net w; c = c\<lparr>nc_socket := s\<rparr>
            in if s = - 1 then (False, c, w)
               else (True, (conn_target host port c)\<lparr>nc_initialized := True\<rparr>, w)))"

text \<open>
  On a connection that is not initialised the socket is created here, and a failure to create it is
  only logged.
\<close>

definition NET_CONN_connect ::
  "'w net \<Rightarrow> NET_CONN \<Rightarrow> string \<Rightarrow> int \<Rightarrow> bool \<Rightarrow> 'w \<Rightarrow> bool \<times> NET_CONN \<times> 'w" where
  "NET_CONN_connect net c host port secure w =
     (let c = c\<lparr>nc_connected := False\<rparr>;
          (ok, c, w) =
            (if nc_initialized c then (True, c, w)
             else
               (let (ok, w) = (if secure then net_ctx net w else (True, w)) in
                if \<not> ok then (False, c\<lparr>nc_sslctx := False\<rparr>, w)
                else
                  (let c = (if secure then c\<lparr>nc_sslctx := True\<rparr> else c); (s, w) = net_socket net w in
                   (True, conn_target host port (c\<lparr>nc_socket := s\<rparr>), w))))
      in if \<not> ok then (False, c, w)
         else
           (let (up, w) = net_connect net (nc_socket c) (fst (nc_server c)) (snd (nc_server c)) w in
            if \<not> up then (False, c\<lparr>nc_host := None\<rparr>, w)
            else if nc_sslctx c
            then
              (let c = c\<lparr>nc_cSSL := True\<rparr>; (shaken, w) = net_handshake net (nc_socket c) w in
               if shaken then (True, c\<lparr>nc_connected := True\<rparr>, w) else (False, c\<lparr>nc_host := None\<rparr>, w))
            else (True, c\<lparr>nc_connected := True\<rparr>, w)))"

text \<open>The socket is closed through the server's table and counter.\<close>

definition NET_CONN_disconnect ::
  "'w net \<Rightarrow> NET_CONN \<Rightarrow> sock_state \<Rightarrow> 'w \<Rightarrow> NET_CONN \<times> sock_state \<times> 'w" where
  "NET_CONN_disconnect net c st w =
     (let c' = c\<lparr>nc_host := None, nc_response := None, nc_response_len := 0, nc_initialized := False,
                 nc_connected := False\<rparr>;
          c' = (if nc_cSSL c then c'\<lparr>nc_cSSL := False, nc_sslctx := False\<rparr> else c');
          (st, w) = SOCKET_close (net_os net) (nc_socket c) (SOCKET_unregister_client (nc_socket c) st) w
      in (c', st, w))"

section \<open>Collecting the response\<close>

definition RECV_LEN :: nat where "RECV_LEN = 8192"

text \<open>\<open>recv\<close> stores what it got at \<open>buffer + cur_size - LEN\<close>, wherever the last read ended.\<close>

definition store_chunk :: "char option list \<Rightarrow> nat \<Rightarrow> string \<Rightarrow> char option list" where
  "store_chunk buffer off data = take off buffer @ map Some data @ drop (off + length data) buffer"

text \<open>A peer that never closes keeps the loop running; that is the value \<open>None\<close>.\<close>

partial_function (option) recv_loop ::
  "'w net \<Rightarrow> bool \<Rightarrow> int \<Rightarrow> char option list \<Rightarrow> nat \<Rightarrow> nat \<Rightarrow> 'w \<Rightarrow> (char option list \<times> nat \<times> 'w) option" where
  "recv_loop net ssl s buffer bytes_received cur_size w =
     (let grow = cur_size \<le> bytes_received;
          cur_size = (if grow then cur_size + RECV_LEN else cur_size);
          buffer = (if grow then buffer @ replicate RECV_LEN None else buffer);
          (data, w) = net_recv net ssl s RECV_LEN w
      in if data = [] then Some (buffer, bytes_received, w)
         else recv_loop net ssl s (store_chunk buffer (cur_size - RECV_LEN) data)
                (bytes_received + length data) cur_size w)"

text \<open>
  The result is the verdict, the connection with its response, and the world. The log of a connection, which is tested
  with it, is set by every caller.
\<close>

definition NET_CONN_send ::
  "'w net \<Rightarrow> NET_CONN \<Rightarrow> string \<Rightarrow> 'w \<Rightarrow> (bool \<times> NET_CONN \<times> 'w) option" where
  "NET_CONN_send net c data w =
     (if \<not> nc_initialized c \<or> \<not> nc_connected c then Some (False, c, w)
      else
        (case net_send net (nc_cSSL c) (nc_socket c) data w of
           (False, w) \<Rightarrow> Some (False, c, w)
         | (True, w) \<Rightarrow>
             (case recv_loop net (nc_cSSL c) (nc_socket c) [] 0 0 w of
                None \<Rightarrow> None
              | Some (buffer, n, w) \<Rightarrow>
                  Some (True, c\<lparr>nc_response := Some (take n buffer @ [Some NUL]), nc_response_len := n\<rparr>, w))))"

section \<open>Reports to the LCS\<close>

datatype COMPONENT_ACTION_TYPE = DCT_START | DCT_STOP

record LCS_REPORT =
  lr_conn :: NET_CONN
  lr_address :: "string option"
  lr_lcs_host :: "string option"
  lr_lcs_port :: int
  lr_active :: bool
  lr_component :: "string option"
  lr_version :: "string option"

definition the_text :: "string option \<Rightarrow> string" where
  "the_text s = (case s of Some t \<Rightarrow> t | None \<Rightarrow> [])"

text \<open>The address: host and port of \<open>dcpam://host:port\<close>, both required.\<close>

definition scan_address :: "string \<Rightarrow> (string \<times> int) option" where
  "scan_address address =
     (case scan_lit ''dcpam://'' address of
        None \<Rightarrow> None
      | Some s \<Rightarrow>
          (case scan_until 99 (CHR '':'') s of
             None \<Rightarrow> None
           | Some (host, s) \<Rightarrow>
               (case scan_lit '':'' s of
                  None \<Rightarrow> None
                | Some s \<Rightarrow> (case scan_int s of None \<Rightarrow> None | Some (port, _) \<Rightarrow> Some (host, port)))))"

definition LCS_REPORT_init :: "LCS_REPORT \<Rightarrow> string \<Rightarrow> string \<Rightarrow> string \<Rightarrow> bool \<times> LCS_REPORT" where
  "LCS_REPORT_init r address component_name component_version =
     (let r = r\<lparr>lr_conn := (lr_conn r)\<lparr>nc_connected := False\<rparr>, lr_component := Some component_name,
                lr_version := Some component_version, lr_active := True\<rparr>
      in case scan_address address of
           Some (host, port) \<Rightarrow> (True, r\<lparr>lr_lcs_host := Some (snprintf_s (length host + 1) host []), lr_lcs_port := port\<rparr>)
         | None \<Rightarrow> (False, r))"

definition report_template :: string where
  "report_template =
     ''{'' @ DQ # ''app'' @ DQ # '': '' @ DQ # ''%s'' @ DQ # '', '' @ DQ # ''ver'' @ DQ # '': '' @ DQ # ''%s'' @ DQ # '', '' @
     DQ # ''action'' @ DQ # '': '' @ DQ # ''%s'' @ DQ # '', '' @ DQ # ''type'' @ DQ # '': '' @ DQ # ''%s'' @ DQ # ''}''"

definition type_text :: "COMPONENT_ACTION_TYPE \<Rightarrow> string" where
  "type_text t = (case t of DCT_START \<Rightarrow> ''start'' | DCT_STOP \<Rightarrow> ''stop'')"

text \<open>The whole buffer is sent, the zero bytes behind the text included.\<close>

definition report_bytes :: "LCS_REPORT \<Rightarrow> string \<Rightarrow> COMPONENT_ACTION_TYPE \<Rightarrow> char list" where
  "report_bytes r action t =
     (let args = [the_text (lr_component r), the_text (lr_version r), action, type_text t];
          buf_len = length report_template + sum_list (map length args);
          body = snprintf_s (buf_len + 1) report_template args
      in body @ replicate (buf_len - length body) NUL)"

text \<open>The connection is closed only after a response: a failed report keeps its socket.\<close>

definition LCS_REPORT_send ::
  "'w net \<Rightarrow> LCS_REPORT \<Rightarrow> string \<Rightarrow> COMPONENT_ACTION_TYPE \<Rightarrow> sock_state \<Rightarrow> 'w \<Rightarrow>
   (bool \<times> LCS_REPORT \<times> sock_state \<times> 'w) option" where
  "LCS_REPORT_send net r action t st w =
     (let host = the_text (lr_lcs_host r); port = lr_lcs_port r; data = report_bytes r action t in
      case NET_CONN_init net (lr_conn r) host port False w of
        (False, c, w) \<Rightarrow> Some (False, r\<lparr>lr_conn := c\<rparr>, st, w)
      | (True, c, w) \<Rightarrow>
          (case NET_CONN_connect net c host port False w of
             (False, c, w) \<Rightarrow> Some (False, r\<lparr>lr_conn := c\<rparr>, st, w)
           | (True, c, w) \<Rightarrow>
               (case NET_CONN_send net c data w of
                  None \<Rightarrow> None
                | Some (False, c, w) \<Rightarrow> Some (False, r\<lparr>lr_conn := c\<rparr>, st, w)
                | Some (True, c, w) \<Rightarrow>
                    (case NET_CONN_disconnect net c st w of
                       (c, st, w) \<Rightarrow> Some (True, r\<lparr>lr_conn := c\<rparr>, st, w)))))"

definition LCS_REPORT_free ::
  "'w net \<Rightarrow> LCS_REPORT \<Rightarrow> sock_state \<Rightarrow> 'w \<Rightarrow> LCS_REPORT \<times> sock_state \<times> 'w" where
  "LCS_REPORT_free net r st w =
     (let r = r\<lparr>lr_address := None, lr_component := None, lr_version := None, lr_lcs_host := None, lr_lcs_port := 0\<rparr>
      in if lr_active r \<and> nc_connected (lr_conn r)
         then (case NET_CONN_disconnect net (lr_conn r) st w of
                 (c, st, w) \<Rightarrow> (r\<lparr>lr_conn := c, lr_active := False\<rparr>, st, w))
         else (r, st, w))"

section \<open>What a response holds\<close>

text \<open>The chunks a peer delivers before it closes.\<close>

fun delivers :: "'w net \<Rightarrow> bool \<Rightarrow> int \<Rightarrow> string list \<Rightarrow> 'w \<Rightarrow> 'w \<Rightarrow> bool" where
  "delivers net ssl s [] w w' \<longleftrightarrow> net_recv net ssl s RECV_LEN w = ([], w')"
| "delivers net ssl s (c # cs) w w' \<longleftrightarrow>
     c \<noteq> [] \<and> length c \<le> RECV_LEN \<and>
     (\<exists>v. net_recv net ssl s RECV_LEN w = (c, v) \<and> delivers net ssl s cs v w')"

definition grown :: "char option list \<Rightarrow> nat \<Rightarrow> nat \<Rightarrow> char option list \<times> nat" where
  "grown buffer n cur =
     (if cur \<le> n then (buffer @ replicate RECV_LEN None, cur + RECV_LEN) else (buffer, cur))"

fun collect :: "string list \<Rightarrow> char option list \<Rightarrow> nat \<Rightarrow> nat \<Rightarrow> char option list \<times> nat" where
  "collect [] buffer n cur = (fst (grown buffer n cur), n)"
| "collect (c # cs) buffer n cur =
     (case grown buffer n cur of
        (buffer, cur) \<Rightarrow> collect cs (store_chunk buffer (cur - RECV_LEN) c) (n + length c) cur)"

lemma recv_loop_collect:
  "delivers net ssl s cs w w' \<Longrightarrow>
   recv_loop net ssl s buffer n cur w = Some (fst (collect cs buffer n cur), snd (collect cs buffer n cur), w')"
proof (induction cs arbitrary: buffer n cur w)
  case Nil
  then show ?case by (subst recv_loop.simps) (simp add: grown_def Let_def)
next
  case (Cons c cs)
  then show ?case
    by (subst recv_loop.simps) (auto simp: grown_def Let_def split: if_splits)
qed

lemma RECV_LEN_pos: "0 < RECV_LEN"
  by (simp add: RECV_LEN_def)

lemma collect_full:
  assumes "\<forall>c \<in> set (butlast cs). length c = RECV_LEN" "\<forall>c \<in> set cs. length c \<le> RECV_LEN"
    "length buffer = n"
  shows "take (snd (collect cs buffer n n)) (fst (collect cs buffer n n)) = buffer @ map Some (concat cs) \<and>
         snd (collect cs buffer n n) = n + length (concat cs)"
  using assms
proof (induction cs arbitrary: buffer n)
  case Nil
  then show ?case by (simp add: grown_def)
next
  case (Cons c cs)
  let ?b = "store_chunk (buffer @ replicate RECV_LEN None) n c"
  have b: "?b = buffer @ map Some c @ replicate (RECV_LEN - length c) None"
    using Cons.prems(3) by (simp add: store_chunk_def)
  show ?case
  proof (cases "cs = []")
    case True
    with b Cons.prems show ?thesis by (auto simp: grown_def)
  next
    case False
    then have "length c = RECV_LEN" using Cons.prems(1) by simp
    with b Cons.IH [of "buffer @ map Some c" "n + RECV_LEN"] Cons.prems False show ?thesis
      by (auto simp: grown_def)
  qed
qed

lemma NET_CONN_send_result:
  assumes "nc_initialized c" "nc_connected c" "net_send net (nc_cSSL c) (nc_socket c) data w = (True, w1)"
    "delivers net (nc_cSSL c) (nc_socket c) cs w1 w2" "collect cs [] 0 0 = (buffer, n)"
  shows "NET_CONN_send net c data w =
    Some (True, c\<lparr>nc_response := Some (take n buffer @ [Some NUL]), nc_response_len := n\<rparr>, w2)"
  using recv_loop_collect [OF assms(4), of "[]" 0 0] assms(1-3,5) by (simp add: NET_CONN_send_def)

lemma NET_CONN_send_full:
  assumes "nc_initialized c" "nc_connected c" "net_send net (nc_cSSL c) (nc_socket c) data w = (True, w1)"
    "delivers net (nc_cSSL c) (nc_socket c) cs w1 w2" "\<forall>b \<in> set (butlast cs). length b = RECV_LEN"
  shows "NET_CONN_send net c data w =
    Some (True, c\<lparr>nc_response := Some (map Some (concat cs) @ [Some NUL]),
                  nc_response_len := length (concat cs)\<rparr>, w2)"
proof -
  have "\<forall>b \<in> set cs. length b \<le> RECV_LEN"
    using assms(4) by (induction cs arbitrary: w1) auto
  with assms(5) collect_full [of cs "[]" 0]
  have "take (snd (collect cs [] 0 0)) (fst (collect cs [] 0 0)) = map Some (concat cs)"
    "snd (collect cs [] 0 0) = length (concat cs)" by auto
  with NET_CONN_send_result [OF assms(1-4) surjective_pairing] show ?thesis by simp
qed

text \<open>
  C23: the response is right when the peer's data arrives in full blocks: whenever all reads but the
  last return exactly 8192 bytes, \<open>NET_CONN_send\<close> succeeds and the response is the concatenation of
  what was read, followed by a zero byte, with its length.
\<close>

theorem response_of_full_blocks:
  assumes "nc_initialized c" "nc_connected c" "net_send net (nc_cSSL c) (nc_socket c) data w = (True, w1)"
    "delivers net (nc_cSSL c) (nc_socket c) cs w1 w2" "\<forall>b \<in> set (butlast cs). length b = RECV_LEN"
  shows "NET_CONN_send net c data w =
    Some (True, c\<lparr>nc_response := Some (map Some (concat cs) @ [Some NUL]),
                  nc_response_len := length (concat cs)\<rparr>, w2)"
  by (rule NET_CONN_send_full) (rule assms)+

text \<open>
  Short reads overwrite each other: two reads that together fit one block are both stored at its
  start, so the response begins with the second one, keeps only the end of the first if that is
  longer, and ends in bytes that were never written.
\<close>

theorem short_reads_overwrite:
  assumes "nc_initialized c" "nc_connected c" "net_send net (nc_cSSL c) (nc_socket c) data w = (True, w1)"
    "delivers net (nc_cSSL c) (nc_socket c) [a, b] w1 w2" "length a + length b \<le> RECV_LEN"
  shows "NET_CONN_send net c data w =
    Some (True, c\<lparr>nc_response := Some (map Some (b @ drop (length b) a) @
                                    replicate (min (length a) (length b)) None @ [Some NUL]),
                  nc_response_len := length a + length b\<rparr>, w2)"
proof -
  let ?L = RECV_LEN and ?N = "replicate RECV_LEN (None :: char option)"
  have ne: "a \<noteq> []" "b \<noteq> []" using assms(4) by auto
  then have lt: "length a < ?L" using assms(5) by (cases b) auto
  define buf where "buf = map Some b @ drop (length b) (map Some a @ replicate (?L - length a) None)"
  have a1: "store_chunk ?N 0 a = map Some a @ replicate (?L - length a) None"
    by (simp add: store_chunk_def)
  have a2: "store_chunk (map Some a @ replicate (?L - length a) None) 0 b = buf"
    by (simp add: store_chunk_def buf_def)
  have "length buf = ?L" using assms(5) by (simp add: buf_def)
  have c: "collect [a, b] [] 0 0 = (fst (grown buf (length a + length b) ?L), length a + length b)"
    using a1 a2 lt by (simp add: grown_def not_le)
  have "take (length a + length b) (fst (grown buf (length a + length b) ?L)) = take (length a + length b) buf"
    using \<open>length buf = ?L\<close> assms(5) by (simp add: grown_def)
  also have "\<dots> = map Some (b @ drop (length b) a) @ replicate (min (length a) (length b)) None"
  proof -
    let ?xs = "map Some (b @ drop (length b) a)" and ?k = "RECV_LEN - length a - (length b - length a)"
    have "buf = ?xs @ replicate ?k None"
      by (simp add: buf_def drop_map)
    moreover have "length ?xs = max (length a) (length b)" by simp
    moreover have "min (length a + length b - max (length a) (length b)) ?k = min (length a) (length b)"
      using assms(5) by linarith
    ultimately show ?thesis by (simp only: take_append take_replicate) simp
  qed
  finally show ?thesis
    unfolding NET_CONN_send_result [OF assms(1-4) c] by simp
qed

section \<open>Sockets of reports\<close>

text \<open>
  The operating system's side: \<open>opened\<close> is the set of open descriptors; a new socket is a fresh one,
  only closing removes one.
\<close>

definition tracks_sockets :: "'w net \<Rightarrow> ('w \<Rightarrow> int set) \<Rightarrow> bool" where
  "tracks_sockets net opened \<longleftrightarrow>
     (\<forall>w s w'. net_socket net w = (s, w') \<longrightarrow>
        (if s = - 1 then opened w' = opened w else s \<notin> opened w \<and> opened w' = insert s (opened w))) \<and>
     (\<forall>s h p w. opened (snd (net_connect net s h p w)) = opened w) \<and>
     (\<forall>b s d w. opened (snd (net_send net b s d w)) = opened w) \<and>
     (\<forall>b s n w. opened (snd (net_recv net b s n w)) = opened w) \<and>
     (\<forall>fd w. opened (os_close (net_os net) fd w) = opened w - {fd})"

lemma tracks_socket:
  "tracks_sockets net opened \<Longrightarrow> net_socket net w = (s, w') \<Longrightarrow>
   (if s = - 1 then opened w' = opened w else s \<notin> opened w \<and> opened w' = insert s (opened w))"
  unfolding tracks_sockets_def by (drule conjunct1, erule allE, erule allE, erule allE, erule mp)

lemma tracks_call:
  assumes "tracks_sockets net opened"
  shows "net_connect net s h p w = (ok, w') \<Longrightarrow> opened w' = opened w"
    and "net_send net b s d w = (ok, w') \<Longrightarrow> opened w' = opened w"
    and "net_recv net b s n w = (r, w') \<Longrightarrow> opened w' = opened w"
    and "opened (os_close (net_os net) fd w) = opened w - {fd}"
proof -
  note calls = assms [unfolded tracks_sockets_def, THEN conjunct2]
  have "opened (snd (net_connect net s h p w)) = opened w" using calls [THEN conjunct1] by simp
  then show "net_connect net s h p w = (ok, w') \<Longrightarrow> opened w' = opened w" by simp
  have "opened (snd (net_send net b s d w)) = opened w" using calls [THEN conjunct2, THEN conjunct1] by simp
  then show "net_send net b s d w = (ok, w') \<Longrightarrow> opened w' = opened w" by simp
  have "opened (snd (net_recv net b s n w)) = opened w"
    using calls [THEN conjunct2, THEN conjunct2, THEN conjunct1] by simp
  then show "net_recv net b s n w = (r, w') \<Longrightarrow> opened w' = opened w" by simp
  show "opened (os_close (net_os net) fd w) = opened w - {fd}"
    using calls [THEN conjunct2, THEN conjunct2, THEN conjunct2] by simp
qed

lemma recv_loop_opened:
  assumes "recv_loop net ssl s buffer n cur w = Some r"
  shows "tracks_sockets net opened \<longrightarrow> opened (snd (snd r)) = opened w"
proof (rule recv_loop.raw_induct
    [where P = "\<lambda>net ssl s buffer n cur w r. tracks_sockets net opened \<longrightarrow> opened (snd (snd r)) = opened w"],
    goal_cases)
  case (1 loop net ssl s buffer n cur w r)
  show "tracks_sockets net opened \<longrightarrow> opened (snd (snd r)) = opened w"
  proof
    assume t: "tracks_sockets net opened"
    obtain data v where d: "net_recv net ssl s RECV_LEN w = (data, v)" by fastforce
    then have "opened v = opened w" using tracks_call(3) [OF t] by blast
    with 1 t d show "opened (snd (snd r)) = opened w"
      by (auto simp: Let_def split: if_splits)
  qed
next
  case 2
  show "recv_loop net ssl s buffer n cur w = Some r" by (rule assms)
qed

lemma init_plain:
  "net_socket net w = (s, v) \<Longrightarrow> NET_CONN_init net c host port False w =
   (if s = - 1 then (False, c\<lparr>nc_initialized := False, nc_connected := False, nc_cSSL := False, nc_sslctx := False, nc_socket := s\<rparr>, v)
    else (True, (conn_target host port (c\<lparr>nc_initialized := False, nc_connected := False, nc_cSSL := False, nc_sslctx := False, nc_socket := s\<rparr>))
                   \<lparr>nc_initialized := True\<rparr>, v))"
  by (simp add: NET_CONN_init_def Let_def)

lemma init_result:
  "NET_CONN_init net c host port False w = (ok, c', w') \<Longrightarrow>
   net_socket net w = (nc_socket c', w') \<and> ok = (nc_socket c' \<noteq> - 1) \<and> (ok \<longrightarrow> nc_initialized c' \<and> \<not> nc_sslctx c')"
  by (cases "net_socket net w") (auto simp: init_plain conn_target_def split: if_splits)

lemma init_opened:
  assumes "tracks_sockets net opened" "NET_CONN_init net c host port False w = (ok, c', w')"
  shows "(if ok then nc_socket c' \<notin> opened w \<and> opened w' = insert (nc_socket c') (opened w)
          else opened w' = opened w) \<and> ok = (nc_socket c' \<noteq> - 1) \<and> (ok \<longrightarrow> nc_initialized c' \<and> \<not> nc_sslctx c')"
  using init_result [OF assms(2)] tracks_socket [OF assms(1), of w "nc_socket c'" w'] by presburger

lemma connect_plain:
  assumes "NET_CONN_connect net c host port False w = (ok, c', w')"
    "nc_initialized c" "\<not> nc_sslctx c"
  shows "nc_socket c' = nc_socket c \<and> net_connect net (nc_socket c) (fst (nc_server c)) (snd (nc_server c)) w = (ok, w')"
  using assms by (cases "net_connect net (nc_socket c) (fst (nc_server c)) (snd (nc_server c)) w")
    (simp add: NET_CONN_connect_def, auto simp: Let_def split: if_splits)

lemma send_opened:
  assumes "tracks_sockets net opened" "NET_CONN_send net c data w = Some (ok, c', w')"
  shows "nc_socket c' = nc_socket c \<and> opened w' = opened w"
proof -
  obtain sent v where n: "net_send net (nc_cSSL c) (nc_socket c) data w = (sent, v)" by fastforce
  have v: "opened v = opened w" using tracks_call(2) [OF assms(1) n] .
  show ?thesis
  proof (cases "nc_initialized c \<and> nc_connected c \<and> sent")
    case True
    with assms(2) n obtain r where r: "recv_loop net (nc_cSSL c) (nc_socket c) [] 0 0 v = Some r"
      by (cases "recv_loop net (nc_cSSL c) (nc_socket c) [] 0 0 v") (simp_all add: NET_CONN_send_def)
    have "opened (snd (snd r)) = opened v" using recv_loop_opened [OF r] assms(1) by simp
    moreover obtain b k u where "r = (b, k, u)" by (metis prod_cases3)
    ultimately show ?thesis using True assms(2) n v r by (simp add: NET_CONN_send_def) auto
  next
    case False
    with assms(2) n v show ?thesis by (auto simp: NET_CONN_send_def split: if_splits)
  qed
qed
lemma disconnect_opened:
  "tracks_sockets net opened \<Longrightarrow> NET_CONN_disconnect net c st w = (c', st', w') \<Longrightarrow>
   opened w' = opened w - {nc_socket c}"
  using tracks_call(4) [of net opened "nc_socket c" w]
  by (auto simp: NET_CONN_disconnect_def SOCKET_close_def Let_def)

text \<open>
  A report keeps the socket balance only when it succeeds: a delivered report closes what it
  opened, while a report that fails (no connection, or no data sent) leaves its socket open, one more
  descriptor per report as long as the LCS is down.
\<close>

theorem failed_reports_leak_sockets:
  assumes "tracks_sockets net opened" "LCS_REPORT_send net r action t st w = Some (ok, r', st', w')"
  shows "if ok then opened w' = opened w
         else if nc_socket (lr_conn r') = - 1 then opened w' = opened w
         else nc_socket (lr_conn r') \<notin> opened w \<and> opened w' = insert (nc_socket (lr_conn r')) (opened w)"
proof -
  let ?h = "the_text (lr_lcs_host r)" and ?p = "lr_lcs_port r"
  obtain ok1 c1 w1 where i: "NET_CONN_init net (lr_conn r) ?h ?p False w = (ok1, c1, w1)" by (metis prod_cases3)
  note o1 = init_opened [OF assms(1) i]
  obtain ok2 c2 w2 where k: "NET_CONN_connect net c1 ?h ?p False w1 = (ok2, c2, w2)" by (metis prod_cases3)
  have o2: "nc_socket c2 = nc_socket c1 \<and> opened w2 = opened w1" if ok1
    using connect_plain [OF k] o1 that tracks_call(1) [OF assms(1)] by blast
  show ?thesis
  proof (cases "ok1 \<and> ok2")
    case False
    then have "ok = False \<and> lr_conn r' = (if ok1 then c2 else c1) \<and> w' = (if ok1 then w2 else w1)"
      using i k assms(2) by (cases ok1) (auto simp: LCS_REPORT_send_def Let_def)
    with o1 o2 show ?thesis by (cases ok1) simp_all
  next
    case True
    with i k assms(2) obtain ok3 c3 w3
      where s: "NET_CONN_send net c2 (report_bytes r action t) w2 = Some (ok3, c3, w3)"
      by (cases "NET_CONN_send net c2 (report_bytes r action t) w2") (auto simp: LCS_REPORT_send_def)
    note o3 = send_opened [OF assms(1) s]
    obtain c4 st4 w4 where d: "NET_CONN_disconnect net c3 st w3 = (c4, st4, w4)" by (metis prod_cases3)
    note o4 = disconnect_opened [OF assms(1) d]
    have "ok = ok3 \<and> (if ok3 then w' = w4 else lr_conn r' = c3 \<and> w' = w3)"
      using True i k s d assms(2) by (cases ok3) (auto simp: LCS_REPORT_send_def Let_def)
    with o1 o2 o3 o4 True show ?thesis by (cases ok3) auto
  qed
qed


section \<open>The text of a report\<close>

lemma report_template_length: "length report_template = 56"
  by (simp add: report_template_def)

lemma sfmt_report:
  "sfmt report_template [a, b, c, d] =
     ''{'' @ DQ # ''app'' @ DQ # '': '' @ DQ # a @ DQ # '', '' @ DQ # ''ver'' @ DQ # '': '' @ DQ # b @ DQ # '', '' @
     DQ # ''action'' @ DQ # '': '' @ DQ # c @ DQ # '', '' @ DQ # ''type'' @ DQ # '': '' @ DQ # d @ DQ # ''}''"
  by (simp add: report_template_def)

lemma report_bytes_text:
  assumes "cstring (the_text (lr_component r))" "cstring (the_text (lr_version r))" "cstring action"
  shows "report_bytes r action t =
     sfmt report_template [the_text (lr_component r), the_text (lr_version r), action, type_text t] @
     replicate 8 NUL"
  by (simp add: report_bytes_def snprintf_s_fits sfmt_report report_template_length Let_def)

section \<open>Concrete inputs\<close>

text \<open>A network whose world is the data still to be read and the open descriptors.\<close>

definition fresh_fd :: "int list \<Rightarrow> int" where
  "fresh_fd os = foldr max os 3 + 1"

lemma fresh_fd: "d \<in> set os \<Longrightarrow> d < fresh_fd os" "3 < fresh_fd os"
proof -
  show "d \<in> set os \<Longrightarrow> d < fresh_fd os" by (induction os) (auto simp: fresh_fd_def)
  show "3 < fresh_fd os" by (induction os) (auto simp: fresh_fd_def)
qed

definition demo_net :: "bool \<Rightarrow> (string list \<times> int list) net" where
  "demo_net up =
     \<lparr>net_socket = (\<lambda>(d, os). (fresh_fd os, (d, fresh_fd os # os))),
      net_ctx = (\<lambda>w. (True, w)), net_connect = (\<lambda>s h p w. (up, w)), net_handshake = (\<lambda>s w. (True, w)),
      net_send = (\<lambda>b s d w. (True, w)),
      net_recv = (\<lambda>b s n (d, os). (case d of [] \<Rightarrow> ([], ([], os)) | x # xs \<Rightarrow> (take n x, (xs, os)))),
      net_os = \<lparr>os_select = (\<lambda>m w. ({}, w)), os_accept = (\<lambda>w. (- 1, [], w)), os_recv = (\<lambda>fd w. (Recv_data [], w)),
               os_send = (\<lambda>fd s w. (int (length s), w)), os_close = (\<lambda>fd (d, os). (d, filter (\<lambda>x. x \<noteq> fd) os))\<rparr>\<rparr>"

definition demo_conn :: NET_CONN where
  "demo_conn = \<lparr>nc_host = None, nc_port = 7777, nc_socket = 4, nc_server = (''10.0.0.1'', 7777), nc_response = None,
                nc_response_len = 0, nc_initialized = True, nc_connected = True, nc_sslctx = False, nc_cSSL = False\<rparr>"

theorem response_of_full_blocks_witness:
  "\<exists>c. NET_CONN_send (demo_net True) demo_conn ''q'' ([replicate 8192 CHR ''a'', ''b''], [4]) =
         Some (True, c, ([], [4])) \<and>
       nc_response c = Some (map Some (replicate 8192 CHR ''a'' @ ''b'') @ [Some NUL])"
proof -
  have "NET_CONN_send (demo_net True) demo_conn ''q'' ([replicate 8192 CHR ''a'', ''b''], [4]) =
    Some (True, demo_conn\<lparr>nc_response := Some (map Some (concat [replicate 8192 CHR ''a'', ''b'']) @ [Some NUL]),
                  nc_response_len := length (concat [replicate 8192 CHR ''a'', ''b''])\<rparr>, ([], [4]))"
    by (rule response_of_full_blocks [where ?w1.0 = "([replicate 8192 CHR ''a'', ''b''], [4])"])
      (simp_all add: demo_net_def demo_conn_def RECV_LEN_def)
  then show ?thesis by simp
qed

theorem short_reads_overwrite_witness:
  "\<exists>c. NET_CONN_send (demo_net True) demo_conn ''q'' ([''HTTP'', ''ok''], [4]) = Some (True, c, ([], [4])) \<and>
       nc_response c = Some [Some CHR ''o'', Some CHR ''k'', Some CHR ''T'', Some CHR ''P'', None, None, Some NUL]"
proof -
  have "NET_CONN_send (demo_net True) demo_conn ''q'' ([''HTTP'', ''ok''], [4]) =
    Some (True, demo_conn\<lparr>nc_response := Some (map Some (''ok'' @ drop (length ''ok'') ''HTTP'') @
            replicate (min (length ''HTTP'') (length ''ok'')) None @ [Some NUL]),
          nc_response_len := length ''HTTP'' + length ''ok''\<rparr>, ([], [4]))"
    by (rule short_reads_overwrite [where ?w1.0 = "([''HTTP'', ''ok''], [4])"])
      (simp_all add: demo_net_def demo_conn_def RECV_LEN_def)
  then show ?thesis by (simp add: eval_nat_numeral)
qed

definition demo_report :: LCS_REPORT where
  "demo_report = \<lparr>lr_conn = demo_conn, lr_address = None, lr_lcs_host = Some ''10.0.0.1'', lr_lcs_port = 7777,
                  lr_active = True, lr_component = Some ''ETL'', lr_version = Some ''1''\<rparr>"

lemma demo_net_tracks: "tracks_sockets (demo_net up) (\<lambda>(d, os). set os)"
proof -
  have "fresh_fd os \<notin> set os" for os using fresh_fd(1) by blast
  moreover have "fresh_fd os \<noteq> - 1" for os using fresh_fd(2) [of os] by simp
  ultimately show ?thesis
    by (auto simp: tracks_sockets_def demo_net_def split: list.splits)
qed

theorem failed_reports_leak_sockets_witness:
  "\<exists>r' st' w'. LCS_REPORT_send (demo_net False) demo_report ''Extract'' DCT_START demo_sock ([], []) =
       Some (False, r', st', w') \<and> set (snd w') = {nc_socket (lr_conn r')}"
proof -
  obtain r' st' w' where
    run: "LCS_REPORT_send (demo_net False) demo_report ''Extract'' DCT_START demo_sock ([], []) =
       Some (False, r', st', w')" and "nc_socket (lr_conn r') = 4"
    by (simp add: LCS_REPORT_send_def init_plain NET_CONN_connect_def demo_net_def demo_report_def conn_target_def
        fresh_fd_def)
  with failed_reports_leak_sockets [OF demo_net_tracks run] show ?thesis by (auto simp: split_def)
qed

end
