(* ===== verification/Etl_Worker.thy ===== *)
theory Etl_Worker
  imports Etl_Extract Etl_Transform Net_Client
begin

text \<open>
  \<open>src/core/db/worker.c\<close>: the watcher that runs one step of one data system under the process-wide
  mutex, the check before the first run, and the shutdown. The world \<open>'w\<close> carries the databases, the scripts
  and the reports sent to the LCS; a report is an effect on it. The threads are in \<open>Etl_Threads\<close>.
\<close>

record 'w worker_env =
  we_drv :: "'w drivers"
  we_rx :: regex_engine
  we_transform :: "'w transform_env"
  we_report :: "string \<Rightarrow> COMPONENT_ACTION_TYPE \<Rightarrow> 'w \<Rightarrow> 'w"
  we_popen :: "string \<Rightarrow> 'w \<Rightarrow> string option \<times> 'w"
  we_parse :: "string \<Rightarrow> json option"
  we_open_file :: "string \<Rightarrow> string option"

section \<open>Reports around an action\<close>

text \<open>A description in a buffer of the length of its format and arguments.\<close>

definition descr :: "string \<Rightarrow> string list \<Rightarrow> string" where
  "descr fmt args = snprintf_s (length fmt + sum_list (map length args) + 1) fmt args"

lemma descr_eq: "descr fmt args = sfmt fmt args"
  by (simp add: descr_def snprintf_s_fits)

definition with_report ::
  "'w worker_env \<Rightarrow> string \<Rightarrow> ('w \<Rightarrow> (bool \<times> 'w) outcome) \<Rightarrow> 'w \<Rightarrow> (bool \<times> 'w) outcome" where
  "with_report env d f w =
     obind (f (we_report env d DCT_START w)) (\<lambda>(ok, w). Inr (ok, we_report env d DCT_STOP w))"

text \<open>
  Three actions of a query: the first that fails ends the query (\<open>continue\<close>), with the failure noted.
\<close>

fun until_failure :: "('w \<Rightarrow> (bool \<times> 'w) outcome) list \<Rightarrow> 'w \<Rightarrow> (bool \<times> 'w) outcome" where
  "until_failure [] w = Inr (True, w)"
| "until_failure (f # fs) w = obind (f w) (\<lambda>(ok, w). if ok then until_failure fs w else Inr (False, w))"

definition q_name :: "DATABASE_SYSTEM_QUERY \<Rightarrow> string" where
  "q_name q = the_str (qu_name q)"

definition s_name :: "DATABASE_SYSTEM \<Rightarrow> string" where
  "s_name sy = the_str (sy_name sy)"

section \<open>Extract\<close>

definition target_db :: "DATABASE_SYSTEM \<Rightarrow> DATABASE_SYSTEM_DB" where
  "target_db sy = (case sy_staging_db sy of Some st \<Rightarrow> st | None \<Rightarrow> sy_dcpam_db sy)"

definition extract_query ::
  "'w worker_env \<Rightarrow> DATABASE_SYSTEM \<Rightarrow> DATABASE_SYSTEM_QUERY \<Rightarrow> 'w \<Rightarrow> (bool \<times> 'w) outcome" where
  "extract_query env sy q =
     (let etl = qu_etl_config q; drv = we_drv env; db = target_db sy;
          cb_i = (case etl_stage etl of Some st \<Rightarrow> ExtractInserted_callback drv st db
                  | None \<Rightarrow> LoadInserted_callback drv (etl_load etl) db);
          cb_d = (case etl_stage etl of Some st \<Rightarrow> ExtractDeleted_callback drv st db
                  | None \<Rightarrow> LoadDeleted_callback drv (etl_load etl) db);
          cb_m = (case etl_stage etl of Some st \<Rightarrow> ExtractModified_callback drv st db
                  | None \<Rightarrow> LoadModified_callback drv (etl_load etl) db);
          ex = Some (etl_extract etl); src = Some (sy_system_db sy); dw = Some (sy_dcpam_db sy)
      in until_failure
        [with_report env (descr ''[%s]: Extract Inserted: %s'' [s_name sy, q_name q])
           (DB_CDC_ExtractInserted drv (we_rx env) ex src dw cb_i),
         with_report env (descr ''[%s]: Extract Deleted: %s'' [s_name sy, q_name q])
           (DB_CDC_ExtractDeleted drv (we_rx env) ex src dw cb_d),
         with_report env (descr ''[%s]: Extract Modified: %s'' [s_name sy, q_name q])
           (DB_CDC_ExtractModified drv (we_rx env) ex src dw cb_m)])"

text \<open>Every query is tried; a failed one sets the failure flag and the next one still runs.\<close>

fun each_query ::
  "(DATABASE_SYSTEM_QUERY \<Rightarrow> 'w \<Rightarrow> (bool \<times> 'w) outcome) \<Rightarrow> DATABASE_SYSTEM_QUERY list \<Rightarrow> int \<times> 'w \<Rightarrow> (int \<times> 'w) outcome" where
  "each_query f [] st = Inr st"
| "each_query f (q # qs) (failure, w) =
     obind (f q w) (\<lambda>(ok, w). each_query f qs (if ok then failure else 1, w))"

definition run_sql ::
  "'w worker_env \<Rightarrow> DATABASE_SYSTEM_DB \<Rightarrow> string \<Rightarrow> 'w \<Rightarrow> (bool \<times> 'w) outcome" where
  "run_sql env db sql w =
     obind (DB_exec (we_drv env) db (Some sql) (length sql) None [] None w) (\<lambda>(ok, dst, w). Inr (ok, w))"

fun pre_actions_of ::
  "'w worker_env \<Rightarrow> DATABASE_SYSTEM \<Rightarrow> string list \<Rightarrow> 'w \<Rightarrow> 'w outcome" where
  "pre_actions_of env sy [] w = Inr w"
| "pre_actions_of env sy (sql # sqls) w =
     obind (with_report env (descr ''[%s]: PreETL Action: %s'' [s_name sy, sql]) (run_sql env (sy_dcpam_db sy) sql) w)
       (\<lambda>(ok, w). pre_actions_of env sy sqls w)"

fun pre_actions :: "'w worker_env \<Rightarrow> DATABASE_SYSTEM \<Rightarrow> DATABASE_SYSTEM_QUERY list \<Rightarrow> 'w \<Rightarrow> 'w outcome" where
  "pre_actions env sy [] w = Inr w"
| "pre_actions env sy (q # qs) w =
     obind (pre_actions_of env sy (etl_pre_actions (qu_etl_config q)) w) (pre_actions env sy qs)"

text \<open>
  The preprocessor of a flat file: \<open>pclose\<close> also gets the NULL of a failed \<open>popen\<close>; only the first byte
  of the answer is read, into a buffer that is never terminated. The flag it sets is overwritten by
  the import that always follows.
\<close>

definition preprocess :: "'w worker_env \<Rightarrow> DATABASE_SYSTEM_FLAT_FILE \<Rightarrow> 'w \<Rightarrow> 'w outcome" where
  "preprocess env ff w =
     (case ff_preprocessor ff of
        None \<Rightarrow> Inr w
      | Some cmd \<Rightarrow>
          (case we_popen env cmd w of
             (None, w) \<Rightarrow> Inl Null_pointer
           | (Some out, w) \<Rightarrow> Inr w))"

definition flat_file_step :: "'w worker_env \<Rightarrow> DATABASE_SYSTEM \<Rightarrow> 'w \<Rightarrow> (int \<times> 'w) outcome" where
  "flat_file_step env sy w =
     (case sy_flat_file sy of
        None \<Rightarrow> Inr (sy_failure sy, w)
      | Some ff \<Rightarrow>
          obind (preprocess env ff w) (\<lambda>w.
          obind (with_report env (descr ''[%s]: Flat file load: %s'' [s_name sy, ff_name ff])
                   (FILE_ETL_preload (we_drv env) (we_parse env) (we_open_file env) (Some sy) (ff_name ff)) w)
            (\<lambda>(ok, w). Inr (if ok then 0 else 1, w))))"

text \<open>The name of the first query is read before anything else.\<close>

definition extract_step :: "'w worker_env \<Rightarrow> DATABASE_SYSTEM \<Rightarrow> 'w \<Rightarrow> (int \<times> 'w) outcome" where
  "extract_step env sy w =
     (case sy_queries sy of
        [] \<Rightarrow> Inl Null_pointer
      | q0 # _ \<Rightarrow>
          if qu_name q0 = None then Inl Null_pointer
          else
            (let ex_descr = descr ''[%s]: Extract'' [s_name sy];
                 pre_descr = descr ''[%s]: PreETL Actions'' [s_name sy];
                 w = we_report env ex_descr DCT_START w;
                 w = we_report env pre_descr DCT_START w
             in obind (pre_actions env sy (sy_queries sy) w) (\<lambda>w.
                let w = we_report env pre_descr DCT_STOP w in
                obind (flat_file_step env sy w) (\<lambda>(failure, w).
                obind (if failure = 0 then each_query (extract_query env sy) (sy_queries sy) (failure, w)
                       else Inr (failure, w)) (\<lambda>(failure, w).
                  Inr (failure, we_report env ex_descr DCT_STOP w))))))"

section \<open>Transform and load\<close>

datatype action = Run_transform | Run_load

text \<open>Which of the two a query runs in a step.\<close>

fun action_of :: "DB_SYSTEM_MODE \<Rightarrow> DB_SYSTEM_ETL_STEP \<Rightarrow> action option" where
  "action_of m ETL_EXTRACT = None"
| "action_of M_ETL ETL_TRANSFORM = Some Run_transform"
| "action_of M_ELT ETL_LOAD = Some Run_transform"
| "action_of M_ETL ETL_LOAD = Some Run_load"
| "action_of M_ELT ETL_TRANSFORM = Some Run_load"
| "action_of M_other ETL_TRANSFORM = None"
| "action_of M_other ETL_LOAD = None"

text \<open>A failure ends the query before the STOP report of the whole step.\<close>

definition transform_query ::
  "'w worker_env \<Rightarrow> DATABASE_SYSTEM \<Rightarrow> DATABASE_SYSTEM_QUERY \<Rightarrow> 'w \<Rightarrow> (bool \<times> 'w) outcome" where
  "transform_query env sy q w =
     (let tr_descr = descr ''[%s]: Transform'' [s_name sy];
          te = we_transform env; dw = Some (sy_dcpam_db sy); src = Some (sy_system_db sy);
          w = we_report env tr_descr DCT_START w
      in obind
           (case etl_transform (qu_etl_config q) of
              None \<Rightarrow> Inr (True, w)
            | Some tr \<Rightarrow>
                until_failure
                  [with_report env (descr ''[%s]: Transform Inserted: %s'' [s_name sy, q_name q])
                     (DB_CDC_TransformInserted te (tr_inserted tr) dw src),
                   with_report env (descr ''[%s]: Transform Deleted: %s'' [s_name sy, q_name q])
                     (DB_CDC_TransformDeleted te (tr_deleted tr) dw src),
                   with_report env (descr ''[%s]: Transform Modified: %s'' [s_name sy, q_name q])
                     (DB_CDC_TransformModified te (tr_modified tr) dw src)] w)
           (\<lambda>(ok, w). if ok then Inr (True, we_report env tr_descr DCT_STOP w) else Inr (False, w)))"

text \<open>
  The post actions of all queries run inside the load of each query \<open>i\<close>. The START report prints the
  \<open>k\<close>-th post action of query \<open>i\<close>, the STOP report its \<open>k\<close>-th pre action, the statement run is the
  \<open>k\<close>-th post action of query \<open>j\<close>.
\<close>

fun post_actions_of ::
  "'w worker_env \<Rightarrow> DATABASE_SYSTEM \<Rightarrow> DB_SYSTEM_ETL \<Rightarrow> nat \<Rightarrow> string list \<Rightarrow> 'w \<Rightarrow> 'w outcome" where
  "post_actions_of env sy etl_i k [] w = Inr w"
| "post_actions_of env sy etl_i k (sql # sqls) w =
     (if length (etl_post_actions etl_i) \<le> k then Inl Out_of_bounds
      else
        (let w = we_report env (descr ''[%s]: PostETL Action: %s'' [s_name sy, etl_post_actions etl_i ! k]) DCT_START w in
         obind (run_sql env (sy_dcpam_db sy) sql w) (\<lambda>(ok, w).
           if length (etl_pre_actions etl_i) \<le> k then Inl Out_of_bounds
           else post_actions_of env sy etl_i (k + 1) sqls
                  (we_report env
                    (snprintf_s (length (s_name sy) + length (etl_post_actions etl_i ! k) +
                                 length ''[%s]: PostETL Action: %s'' + 1)
                       ''[%s]: PostETL Action: %s'' [s_name sy, etl_pre_actions etl_i ! k])
                    DCT_STOP w))))"

fun post_actions ::
  "'w worker_env \<Rightarrow> DATABASE_SYSTEM \<Rightarrow> DB_SYSTEM_ETL \<Rightarrow> DATABASE_SYSTEM_QUERY list \<Rightarrow> 'w \<Rightarrow> 'w outcome" where
  "post_actions env sy etl_i [] w = Inr w"
| "post_actions env sy etl_i (q # qs) w =
     obind (post_actions_of env sy etl_i 0 (etl_post_actions (qu_etl_config q)) w) (post_actions env sy etl_i qs)"

definition load_query ::
  "'w worker_env \<Rightarrow> DATABASE_SYSTEM \<Rightarrow> DATABASE_SYSTEM_QUERY \<Rightarrow> 'w \<Rightarrow> (bool \<times> 'w) outcome" where
  "load_query env sy q w =
     (let lo_descr = descr ''[%s]: Load'' [s_name sy];
          post_descr = descr ''[%s]: PostETL Actions'' [s_name sy];
          drv = we_drv env; ld = Some (etl_load (qu_etl_config q));
          src = Some (target_db sy); dw = Some (sy_dcpam_db sy);
          w = we_report env lo_descr DCT_START w
      in obind
           (until_failure
              [with_report env (descr ''[%s]: Load Inserted: %s'' [s_name sy, q_name q]) (DB_CDC_LoadInserted drv ld src dw),
               with_report env (descr ''[%s]: Load Deleted: %s'' [s_name sy, q_name q]) (DB_CDC_LoadDeleted drv ld src dw),
               with_report env (descr ''[%s]: Load Modified: %s'' [s_name sy, q_name q]) (DB_CDC_LoadModified drv ld src dw)] w)
           (\<lambda>(ok, w).
              if \<not> ok then Inr (False, w)
              else
                (let w = we_report env lo_descr DCT_STOP w;
                     w = we_report env post_descr DCT_START w
                 in obind (post_actions env sy (qu_etl_config q) (sy_queries sy) w)
                      (\<lambda>w. Inr (True, we_report env post_descr DCT_STOP w)))))"

definition later_step ::
  "'w worker_env \<Rightarrow> DB_SYSTEM_ETL_STEP \<Rightarrow> DATABASE_SYSTEM \<Rightarrow> 'w \<Rightarrow> (int \<times> 'w) outcome" where
  "later_step env step sy w =
     each_query
       (\<lambda>q. case action_of (qu_mode q) step of
              Some Run_transform \<Rightarrow> transform_query env sy q
            | Some Run_load \<Rightarrow> load_query env sy q
            | None \<Rightarrow> (\<lambda>w. Inr (True, w)))
       (sy_queries sy) (sy_failure sy, w)"

section \<open>The watcher\<close>

definition open_db ::
  "'w worker_env \<Rightarrow> DATABASE_SYSTEM_DB \<Rightarrow> 'w \<Rightarrow> bool \<times> DATABASE_SYSTEM_DB \<times> 'w" where
  "open_db env db w = DATABASE_SYSTEM_DB_init (we_drv env) db w"

definition close_db :: "'w worker_env \<Rightarrow> DATABASE_SYSTEM_DB \<Rightarrow> 'w \<Rightarrow> DATABASE_SYSTEM_DB \<times> 'w" where
  "close_db env db w = DATABASE_SYSTEM_DB_close (we_drv env) db w"

text \<open>The three connections in order: the data warehouse, the staging area if any, the source.\<close>

definition open_dbs :: "'w worker_env \<Rightarrow> DATABASE_SYSTEM \<Rightarrow> 'w \<Rightarrow> bool \<times> DATABASE_SYSTEM \<times> 'w" where
  "open_dbs env sy w =
     (case open_db env (sy_dcpam_db sy) w of
        (False, db, w) \<Rightarrow> (False, sy\<lparr>sy_dcpam_db := db\<rparr>, w)
      | (True, db, w) \<Rightarrow>
          (let sy = sy\<lparr>sy_dcpam_db := db\<rparr>;
               (ok, sy, w) = (case sy_staging_db sy of
                                None \<Rightarrow> (True, sy, w)
                              | Some st \<Rightarrow> (case open_db env st w of (ok, db, w) \<Rightarrow> (ok, sy\<lparr>sy_staging_db := Some db\<rparr>, w)))
           in if \<not> ok then (False, sy, w)
              else (case open_db env (sy_system_db sy) w of
                      (ok, db, w) \<Rightarrow> (ok, sy\<lparr>sy_system_db := db\<rparr>, w))))"

definition close_dbs :: "'w worker_env \<Rightarrow> DATABASE_SYSTEM \<Rightarrow> 'w \<Rightarrow> DATABASE_SYSTEM \<times> 'w" where
  "close_dbs env sy w =
     (if sy_name sy = None then (sy, w)
      else
        (let (d, w) = close_db env (sy_dcpam_db sy) w;
             (s, w) = close_db env (sy_system_db sy) w;
             (st, w) = (case sy_staging_db sy of
                          None \<Rightarrow> (None, w)
                        | Some x \<Rightarrow> (case close_db env x w of (x, w) \<Rightarrow> (Some x, w)))
         in (sy\<lparr>sy_dcpam_db := d, sy_system_db := s, sy_staging_db := st\<rparr>, w)))"

text \<open>
  \<open>DB_WORKER_watcher\<close> from its lock of the mutex to its unlock: whether it ends with the mutex locked, the data
  system, the world. The early exits (a data system on hold, a failed connection) do not unlock, and do not
  close what was opened; after an unlock the thread goes on with \<open>close_dbs\<close>.
\<close>

definition DB_WORKER_watcher ::
  "'w worker_env \<Rightarrow> DB_SYSTEM_ETL_STEP \<Rightarrow> DATABASE_SYSTEM \<Rightarrow> 'w \<Rightarrow> (bool \<times> DATABASE_SYSTEM \<times> 'w) outcome" where
  "DB_WORKER_watcher env step sy w =
     (if sy_failure sy = 1 then Inr (True, sy, w)
      else
        (case open_dbs env sy w of
           (False, sy, w) \<Rightarrow> Inr (True, sy, w)
         | (True, sy, w) \<Rightarrow>
             obind (if step = ETL_EXTRACT then extract_step env sy w else later_step env step sy w)
               (\<lambda>(failure, w). Inr (False, sy\<lparr>sy_failure := failure\<rparr>, w))))"

section \<open>The check before the first run, and shutdown\<close>

text \<open>The entry is closed either way; it is released too, except a source database that answered.\<close>

definition check_db :: "'w worker_env \<Rightarrow> bool \<Rightarrow> DATABASE_SYSTEM_DB \<Rightarrow> 'w \<Rightarrow> bool \<times> DATABASE_SYSTEM_DB \<times> 'w" where
  "check_db env keep db w =
     (let (ok, db, w) = open_db env db w; (db, w) = close_db env db w in
      if ok \<and> keep then (True, db, w)
      else (case DATABASE_SYSTEM_DB_free (we_drv env) db w of (db, w) \<Rightarrow> (ok, db, w)))"

fun check_systems :: "'w worker_env \<Rightarrow> DATABASE_SYSTEM list \<Rightarrow> 'w \<Rightarrow> bool \<times> DATABASE_SYSTEM list \<times> 'w" where
  "check_systems env [] w = (True, [], w)"
| "check_systems env (sy # sys) w =
     (if (case sy_flat_file sy of Some ff \<Rightarrow> we_open_file env (ff_name ff) = None | None \<Rightarrow> False)
      then (False, sy # sys, w)
      else
        (case check_db env True (sy_system_db sy) w of
           (False, db, w) \<Rightarrow> (False, sy\<lparr>sy_system_db := db\<rparr> # sys, w)
         | (True, db, w) \<Rightarrow>
             (case check_systems env sys w of (ok, sys, w) \<Rightarrow> (ok, sy\<lparr>sy_system_db := db\<rparr> # sys, w))))"

definition DB_WORKER_check_all ::
  "'w worker_env \<Rightarrow> DATABASE_SYSTEM_DB \<Rightarrow> DATABASE_SYSTEM_DB option \<Rightarrow> DATABASE_SYSTEM list \<Rightarrow> 'w \<Rightarrow>
   bool \<times> DATABASE_SYSTEM list \<times> 'w" where
  "DB_WORKER_check_all env app_db app_staging systems w =
     (case check_db env False app_db w of
        (False, _, w) \<Rightarrow> (False, systems, w)
      | (True, _, w) \<Rightarrow>
          (case app_staging of
             None \<Rightarrow> check_systems env systems w
           | Some st \<Rightarrow>
               (case check_db env False st w of
                  (False, _, w) \<Rightarrow> (False, systems, w)
                | (True, _, w) \<Rightarrow> check_systems env systems w)))"

fun DB_WORKER_shutdown :: "'w worker_env \<Rightarrow> DATABASE_SYSTEM list \<Rightarrow> 'w \<Rightarrow> (DATABASE_SYSTEM list \<times> 'w) outcome" where
  "DB_WORKER_shutdown env [] w = Inr ([], w)"
| "DB_WORKER_shutdown env (sy # sys) w =
     obind (DATABASE_SYSTEM_close (we_drv env) (Some sy) w) (\<lambda>(sy', w).
     obind (DB_WORKER_shutdown env sys w) (\<lambda>(sys', w). Inr ((case sy' of Some x \<Rightarrow> x | None \<Rightarrow> sy) # sys', w)))"

section \<open>A concrete environment\<close>

definition demo_env :: "string list worker_env" where
  "demo_env =
     \<lparr>we_drv = (demo_drivers (Rows \<lparr>rs_names = [], rs_tuples = []\<rparr>)), we_rx = (\<lambda>p. None),
      we_transform = demo_transform_env True (Some ''1''), we_report = (\<lambda>d s w. w @ [d]),
      we_popen = (\<lambda>c w. (None, w)), we_parse = (\<lambda>s. None), we_open_file = (\<lambda>n. None)\<rparr>"

section \<open>What a step of a query does\<close>

text \<open>
  The order of the two modes: over the transform and load phases a query runs exactly one
  transformation and one load, transformation first in ETL mode and load first in ELT mode, and
  neither of them in the extract phase; with any other number as its mode it runs neither.
\<close>

theorem mode_orders_actions:
  "List.map_filter (action_of m) [ETL_EXTRACT, ETL_TRANSFORM, ETL_LOAD] =
     (case m of M_ETL \<Rightarrow> [Run_transform, Run_load] | M_ELT \<Rightarrow> [Run_load, Run_transform] | M_other \<Rightarrow> [])"
  by (cases m) (simp_all add: map_filter_def)

lemma run_sql_total:
  assumes "db_driver db \<in> {None, Some D_POSTGRESQL, Some D_MYSQL, Some D_MARIADB}"
  shows "\<exists>r. run_sql env db sql w = Inr r"
proof (cases "contains sql [QM]")
  case True
  then have "DB_QUERY_format (Some sql) None 0 [] = Inr (False, None, 0)"
    by (simp add: DB_QUERY_format_def contains_QM)
  then show ?thesis by (simp add: run_sql_def DB_exec_def) blast
next
  case False
  then have f: "DB_QUERY_format (Some sql) None 0 [] = Inr (True, None, 0)"
    by (simp add: DB_QUERY_format_def)
  have pg: "\<exists>r. PG_exec lib c buf n None None w = Inr r" for lib :: "'a client_library" and c buf n
    by (cases "cn_connection c"; cases "lib_query lib (the (cn_connection c)) (cstr_of buf) w";
        cases "fst (lib_query lib (the (cn_connection c)) (cstr_of buf) w)")
      (auto simp: PG_exec_def run_rows_def Let_def)
  have my: "\<exists>r. MYSQL_exec lib c buf n None None w = Inr r" for lib :: "'a client_library" and c buf n
    by (cases "cn_connection c"; cases "lib_query lib (the (cn_connection c)) (take n buf) w";
        cases "fst (lib_query lib (the (cn_connection c)) (take n buf) w)")
      (auto simp: MYSQL_exec_def run_rows_def Let_def)
  have "\<exists>r. driver_exec (we_drv env) (db_driver db) (db_conn db)
      (sql @ replicate (length sql - length sql) NUL @ [NUL]) (length sql) None None w = Inr r"
    using assms pg my by (auto simp: driver_exec_def MARIADB_exec_def)
  with f show ?thesis by (auto simp: run_sql_def DB_exec_def)
qed

lemma post_actions_of_fault:
  "sqls \<noteq> [] \<Longrightarrow> length (etl_pre_actions etl_i) \<le> k \<Longrightarrow>
   db_driver (sy_dcpam_db sy) \<in> {None, Some D_POSTGRESQL, Some D_MYSQL, Some D_MARIADB} \<Longrightarrow>
   post_actions_of env sy etl_i k sqls w = Inl Out_of_bounds"
proof (cases sqls)
  case (Cons sql rest)
  assume k: "length (etl_pre_actions etl_i) \<le> k"
    and drv: "db_driver (sy_dcpam_db sy) \<in> {None, Some D_POSTGRESQL, Some D_MYSQL, Some D_MARIADB}"
  let ?w = "we_report env (descr ''[%s]: PostETL Action: %s'' [s_name sy, etl_post_actions etl_i ! k]) DCT_START w"
  obtain ok w' where r: "run_sql env (sy_dcpam_db sy) sql ?w = Inr (ok, w')"
    using run_sql_total [OF drv, of env sql ?w] by auto
  show ?thesis
  proof (cases "length (etl_post_actions etl_i) \<le> k")
    case False
    then have "post_actions_of env sy etl_i k (sql # rest) w =
        obind (run_sql env (sy_dcpam_db sy) sql ?w) (\<lambda>(ok, w). Inl Out_of_bounds)"
      using k by (simp only: post_actions_of.simps Let_def if_True if_False)
    with r Cons show ?thesis by simp
  qed (simp add: Cons)
qed simp

text \<open>
  Post actions need as many pre actions: when a query with post actions but no pre action reaches
  the end of its load, the STOP report of the first post action reads outside its pre actions, after
  the statement has run.
\<close>

theorem post_action_without_pre_action:
  assumes "etl_pre_actions (qu_etl_config q) = []" "etl_post_actions (qu_etl_config q) \<noteq> []"
    "sy_queries sy = q # qs"
    "db_driver (sy_dcpam_db sy) \<in> {None, Some D_POSTGRESQL, Some D_MYSQL, Some D_MARIADB}"
  shows "post_actions env sy (qu_etl_config q) (sy_queries sy) w = Inl Out_of_bounds"
  using post_actions_of_fault [OF assms(2), of "qu_etl_config q" 0 sy env w] assms by simp

definition demo_post_query :: DATABASE_SYSTEM_QUERY where
  "demo_post_query =
     \<lparr>qu_name = Some ''q'', qu_mode = M_ETL,
      qu_etl_config = (demo_etl [])\<lparr>etl_pre_actions := [], etl_post_actions := [''DROP TABLE tmp'']\<rparr>\<rparr>"

theorem post_action_without_pre_action_witness:
  "post_actions demo_env (demo_slot\<lparr>sy_queries := [demo_post_query]\<rparr>) (qu_etl_config demo_post_query)
     (sy_queries (demo_slot\<lparr>sy_queries := [demo_post_query]\<rparr>)) [] = Inl Out_of_bounds"
  by (rule post_action_without_pre_action [where qs = "[]"])
    (simp_all add: demo_post_query_def demo_slot_def demo_db_def)

end
