(* ===== verification/Transition_Systems.thy ===== *)
theory Transition_Systems
  imports Main
begin

text \<open>
  What the step relations of the development share: an invariant of the steps and a measure that every step
  decreases. The step relations of the ETL worker and of the watcher of the LCS are interpretations.
\<close>

section \<open>Images of the reachable states\<close>

lemma image_constant: "\<exists>x. P x \<Longrightarrow> (\<And>x. P x \<Longrightarrow> f x = c) \<Longrightarrow> f ` {x. P x} = {c}"
  by auto

lemma image_avoids: "(\<And>x. P x \<Longrightarrow> f x \<noteq> c) \<Longrightarrow> c \<notin> f ` {x. P x}"
  by auto

section \<open>Invariants\<close>

locale preserved =
  fixes step :: "'s \<Rightarrow> 's \<Rightarrow> bool" and inv :: "'s \<Rightarrow> bool"
  assumes preserves: "inv s \<Longrightarrow> step s t \<Longrightarrow> inv t"
begin

lemma reach: "step\<^sup>*\<^sup>* s t \<Longrightarrow> inv s \<Longrightarrow> inv t"
  by (induction rule: rtranclp_induct) (auto intro: preserves)

lemma steps: "(step ^^ n) s t \<Longrightarrow> inv s \<Longrightarrow> inv t"
  by (rule reach) (auto intro: relpowp_imp_rtranclp)

text \<open>What no step leaves holds from then on.\<close>

lemma never: "inv s \<Longrightarrow> (\<And>t. inv t \<Longrightarrow> P t) \<Longrightarrow> step\<^sup>*\<^sup>* s t \<Longrightarrow> P t"
  using reach by blast

end

section \<open>Measures\<close>

locale decreasing = preserved step inv for step :: "'s \<Rightarrow> 's \<Rightarrow> bool" and inv +
  fixes weight :: "'s \<Rightarrow> nat"
  assumes decreases: "inv s \<Longrightarrow> step s t \<Longrightarrow> weight t < weight s"
begin

lemma run_length: "(step ^^ n) s t \<Longrightarrow> inv s \<Longrightarrow> n + weight t \<le> weight s"
proof (induction n arbitrary: t)
  case (Suc n)
  then obtain u where u: "(step ^^ n) s u" "step u t" by auto
  with Suc decreases [OF steps [OF u(1)] u(2)] show ?case by fastforce
qed simp

text \<open>So every run ends where no step is possible.\<close>

lemma ends: "inv s \<Longrightarrow> \<exists>t. step\<^sup>*\<^sup>* s t \<and> (\<forall>u. \<not> step t u)"
proof (induction "weight s" arbitrary: s rule: less_induct)
  case less
  show ?case
  proof (cases "\<exists>t. step s t")
    case True
    then obtain t where t: "step s t" by blast
    from less.hyps [OF decreases [OF less.prems t] preserves [OF less.prems t]] t show ?thesis
      by (meson converse_rtranclp_into_rtranclp)
  qed blast
qed

end

end
