(* ===== verification/Etl_Threads.thy ===== *)
theory Etl_Threads
  imports Etl_Worker Transition_Systems
begin

text \<open>
  The threads of \<open>DB_WORKER_init\<close> (\<open>src/core/db/worker.c\<close>) as a step relation over the mutex \<open>watcher_mutex\<close> and
  the failure flags, which the main thread reads without the mutex. Three phases repeat: extract, transform, load.
  In each the main thread creates a watcher for every data system without failure and then joins, in index order,
  those that have no failure when their turn comes.
\<close>

section \<open>The state\<close>

text \<open>
  A watcher waits for the mutex; runs, with what its run will leave: whether the mutex stays locked, the failure
  flag, and whether that flag is already stored; closes its connections after the unlock; has ended.
\<close>

datatype watcher_pc = Waiting | Running bool int bool | Closing | Ended

record watcher =
  wa_step :: DB_SYSTEM_ETL_STEP
  wa_pc :: watcher_pc

datatype main_pc = Spawning DB_SYSTEM_ETL_STEP nat | Joining DB_SYSTEM_ETL_STEP nat | Finished

text \<open>The watchers created for a data system, the newest first: it is the one in \<open>w_watcher_thread\<close>.\<close>

record 'w run_state =
  rs_pc :: main_pc
  rs_locked :: bool
  rs_threads :: "nat \<Rightarrow> watcher list"
  rs_systems :: "DATABASE_SYSTEM list"
  rs_world :: 'w

fun next_phase :: "DB_SYSTEM_ETL_STEP \<Rightarrow> DB_SYSTEM_ETL_STEP" where
  "next_phase ETL_EXTRACT = ETL_TRANSFORM"
| "next_phase ETL_TRANSFORM = ETL_LOAD"
| "next_phase ETL_LOAD = ETL_EXTRACT"

abbreviation failed :: "'w run_state \<Rightarrow> nat \<Rightarrow> bool" where
  "failed s i \<equiv> sy_failure (rs_systems s ! i) \<noteq> 0"

definition set_failure :: "nat \<Rightarrow> int \<Rightarrow> DATABASE_SYSTEM list \<Rightarrow> DATABASE_SYSTEM list" where
  "set_failure i f sys = sys[i := (sys ! i)\<lparr>sy_failure := f\<rparr>]"

definition thread_at :: "'w run_state \<Rightarrow> nat \<Rightarrow> nat \<Rightarrow> watcher_pc \<Rightarrow> bool" where
  "thread_at s i j pc \<longleftrightarrow> i < length (rs_systems s) \<and> j < length (rs_threads s i) \<and> wa_pc (rs_threads s i ! j) = pc"

definition move :: "nat \<Rightarrow> nat \<Rightarrow> watcher_pc \<Rightarrow> (nat \<Rightarrow> watcher list) \<Rightarrow> nat \<Rightarrow> watcher list" where
  "move i j pc ts = ts(i := (ts i)[j := (ts i ! j)\<lparr>wa_pc := pc\<rparr>])"

text \<open>A flat file with a preprocessor, whose verdict is stored and then overwritten by that of the import.\<close>

definition preprocessed :: "DATABASE_SYSTEM \<Rightarrow> bool" where
  "preprocessed sy = (case sy_flat_file sy of Some ff \<Rightarrow> ff_preprocessor ff \<noteq> None | None \<Rightarrow> False)"

section \<open>The steps\<close>

text \<open>
  What a watcher does under the mutex is one step, as no other watcher can hold it in between. In the program another
  watcher, after its unlock, may close its connections in between: here its closing falls before or after the whole step,
  an assumption of the model that only concerns the order of the two on the world. The failure flag of a watcher
  becomes visible at any time before the unlock: its last value with \<open>publish\<close>, that of a preprocessor with
  \<open>preprocess\<close>. Every \<open>pthread_create\<close> succeeds. After a load the worker finishes, with \<open>run_once\<close> or when a signal has asked
  for the end, or else starts over.
\<close>

inductive worker_step :: "'w worker_env \<Rightarrow> bool \<Rightarrow> 'w run_state \<Rightarrow> 'w run_state \<Rightarrow> bool"
  for env run_once where
  spawn: "rs_pc s = Spawning p k \<Longrightarrow> k < length (rs_systems s) \<Longrightarrow> \<not> failed s k \<Longrightarrow>
    worker_step env run_once s
      (s\<lparr>rs_pc := Spawning p (k + 1),
         rs_threads := (rs_threads s)(k := \<lparr>wa_step = p, wa_pc = Waiting\<rparr> # rs_threads s k)\<rparr>)"
| pass_over: "rs_pc s = Spawning p k \<Longrightarrow> k < length (rs_systems s) \<Longrightarrow> failed s k \<Longrightarrow>
    worker_step env run_once s (s\<lparr>rs_pc := Spawning p (k + 1)\<rparr>)"
| spawned: "rs_pc s = Spawning p (length (rs_systems s)) \<Longrightarrow>
    worker_step env run_once s (s\<lparr>rs_pc := Joining p 0\<rparr>)"
| joins: "rs_pc s = Joining p k \<Longrightarrow> k < length (rs_systems s) \<Longrightarrow> failed s k \<or> thread_at s k 0 Ended \<Longrightarrow>
    worker_step env run_once s (s\<lparr>rs_pc := Joining p (k + 1)\<rparr>)"
| phase_end: "rs_pc s = Joining p (length (rs_systems s)) \<Longrightarrow> p \<noteq> ETL_LOAD \<or> \<not> run_once \<Longrightarrow>
    worker_step env run_once s (s\<lparr>rs_pc := Spawning (next_phase p) 0\<rparr>)"
| finish: "rs_pc s = Joining ETL_LOAD (length (rs_systems s)) \<Longrightarrow>
    worker_step env run_once s (s\<lparr>rs_pc := Finished\<rparr>)"
| enter: "thread_at s i j Waiting \<Longrightarrow> \<not> rs_locked s \<Longrightarrow>
    DB_WORKER_watcher env (wa_step (rs_threads s i ! j)) (rs_systems s ! i) (rs_world s) = Inr (keeps, sy, w) \<Longrightarrow>
    worker_step env run_once s
      (s\<lparr>rs_locked := True, rs_threads := move i j (Running keeps (sy_failure sy) False) (rs_threads s),
         rs_systems := (rs_systems s)[i := sy\<lparr>sy_failure := sy_failure (rs_systems s ! i)\<rparr>], rs_world := w\<rparr>)"
| preprocess: "thread_at s i j (Running keeps f False) \<Longrightarrow> wa_step (rs_threads s i ! j) = ETL_EXTRACT \<Longrightarrow>
    preprocessed (rs_systems s ! i) \<Longrightarrow>
    worker_step env run_once s (s\<lparr>rs_systems := set_failure i 1 (rs_systems s)\<rparr>)"
| publish: "thread_at s i j (Running keeps f False) \<Longrightarrow>
    worker_step env run_once s
      (s\<lparr>rs_threads := move i j (Running keeps f True) (rs_threads s), rs_systems := set_failure i f (rs_systems s)\<rparr>)"
| leave: "thread_at s i j (Running keeps f True) \<Longrightarrow>
    worker_step env run_once s
      (s\<lparr>rs_locked := keeps, rs_threads := move i j (if keeps then Ended else Closing) (rs_threads s)\<rparr>)"
| close: "thread_at s i j Closing \<Longrightarrow> close_dbs env (rs_systems s ! i) (rs_world s) = (sy, w) \<Longrightarrow>
    worker_step env run_once s
      (s\<lparr>rs_threads := move i j Ended (rs_threads s), rs_systems := (rs_systems s)[i := sy], rs_world := w\<rparr>)"

inductive_cases worker_stepE: "worker_step env run_once s s'"

definition initial_run :: "DATABASE_SYSTEM list \<Rightarrow> 'w \<Rightarrow> 'w run_state" where
  "initial_run systems w =
     \<lparr>rs_pc = Spawning ETL_EXTRACT 0, rs_locked = False, rs_threads = (\<lambda>i. []), rs_systems = systems, rs_world = w\<rparr>"

section \<open>What the parts of a watcher leave alone\<close>

lemma open_dbs_keeps:
  "open_dbs env sy w = (ok, sy', w') \<Longrightarrow>
   sy_failure sy' = sy_failure sy \<and> sy_flat_file sy' = sy_flat_file sy"
  by (auto simp: open_dbs_def Let_def split: prod.splits option.splits bool.splits if_splits)

lemma close_dbs_keeps:
  "close_dbs env sy w = (sy', w') \<Longrightarrow> sy_failure sy' = sy_failure sy \<and> sy_flat_file sy' = sy_flat_file sy"
  by (auto simp: close_dbs_def Let_def split: prod.splits option.splits if_splits)

lemma watcher_keeps:
  "DB_WORKER_watcher env p sy w = Inr (keeps, sy', w') \<Longrightarrow> sy_flat_file sy' = sy_flat_file sy"
  by (auto simp: DB_WORKER_watcher_def split: if_splits prod.splits bool.splits dest!: open_dbs_keeps)

text \<open>A watcher that keeps the mutex leaves the flag as it was.\<close>

lemma watcher_keeping:
  "DB_WORKER_watcher env p sy w = Inr (True, sy', w') \<Longrightarrow> sy_failure sy' = sy_failure sy"
  by (auto simp: DB_WORKER_watcher_def split: if_splits prod.splits bool.splits dest!: open_dbs_keeps)

text \<open>A property of the data systems that watchers and closings keep, whatever the failure flag is.\<close>

lemma systems_step:
  assumes "worker_step env run_once s s'" "\<forall>sy \<in> set (rs_systems s). P sy" "\<And>sy f. P sy \<Longrightarrow> P (sy\<lparr>sy_failure := f\<rparr>)"
    "\<And>sy w sy' w'. P sy \<Longrightarrow> close_dbs env sy w = (sy', w') \<Longrightarrow> P sy'"
    "\<And>i j keeps sy w. thread_at s i j Waiting \<Longrightarrow>
       DB_WORKER_watcher env (wa_step (rs_threads s i ! j)) (rs_systems s ! i) (rs_world s) = Inr (keeps, sy, w) \<Longrightarrow> P sy"
  shows "\<forall>sy \<in> set (rs_systems s'). P sy"
proof -
  have at: "P (rs_systems s ! i)" if "thread_at s i j pc" for i j pc
    using that assms(2) by (simp add: thread_at_def)
  have upd: "\<forall>sy \<in> set ((rs_systems s)[i := x]). P sy" if "P x" for i x
    using that assms(2) set_update_subset_insert [of "rs_systems s" i x] by auto
  from assms(1) show ?thesis
  proof cases
    case (enter i j keeps sy w)
    from upd [OF assms(3) [OF assms(5) [OF enter(2,4)]]] show ?thesis by (simp add: enter(1))
  next
    case (preprocess i j keeps f)
    from upd [OF assms(3) [OF at [OF preprocess(2)]]] show ?thesis by (simp add: preprocess(1) set_failure_def)
  next
    case (publish i j keeps f)
    from upd [OF assms(3) [OF at [OF publish(2)]]] show ?thesis by (simp add: publish(1) set_failure_def)
  next
    case (close i j sy w)
    from upd [OF assms(4) [OF at [OF close(2)] close(3)]] show ?thesis by (simp add: close(1))
  qed (use assms(2) in simp_all)
qed

section \<open>The invariant of the threads\<close>

text \<open>The newest watcher of a data system; there is nothing to wait for when none was created.\<close>

definition now :: "(nat \<Rightarrow> watcher list) \<Rightarrow> nat \<Rightarrow> watcher_pc" where
  "now ts i = (case ts i of [] \<Rightarrow> Ended | th # _ \<Rightarrow> wa_pc th)"

definition now_step :: "(nat \<Rightarrow> watcher list) \<Rightarrow> nat \<Rightarrow> DB_SYSTEM_ETL_STEP" where
  "now_step ts i = wa_step (hd (ts i))"

lemma move_simps [simp]:
  "move i j pc ts k = [] \<longleftrightarrow> ts k = []"
  "tl (move i 0 pc ts k) = tl (ts k)"
  by (simp_all add: move_def) (cases "ts i"; simp)

lemma now_move [simp]:
  assumes "ts i \<noteq> []"
  shows "now (move i 0 pc ts) k = (if k = i then pc else now ts k)" "now_step (move i 0 pc ts) k = now_step ts k"
proof -
  obtain th ths where "ts i = th # ths" using assms by (cases "ts i") auto
  then show "now (move i 0 pc ts) k = (if k = i then pc else now ts k)" "now_step (move i 0 pc ts) k = now_step ts k"
    by (simp_all add: move_def now_def now_step_def)
qed

lemma now_spawn [simp]:
  "now (ts(i := th # ts i)) k = (if k = i then wa_pc th else now ts k)"
  "now_step (ts(i := th # ts i)) k = (if k = i then wa_step th else now_step ts k)"
  by (simp_all add: now_def now_step_def)

lemma set_failure_simps [simp]:
  "length (set_failure i f sys) = length sys"
  "k < length sys \<Longrightarrow> sy_failure (set_failure i f sys ! k) = (if k = i then f else sy_failure (sys ! k))"
  by (auto simp: set_failure_def nth_list_update)

text \<open>Where the main thread is: a watcher of the current phase is created and not yet joined.\<close>

definition in_phase :: "main_pc \<Rightarrow> nat \<Rightarrow> DB_SYSTEM_ETL_STEP \<Rightarrow> bool" where
  "in_phase pc i p =
     (case pc of Spawning p' k \<Rightarrow> p = p' \<and> i < k | Joining p' k \<Rightarrow> p = p' \<and> k \<le> i | Finished \<Rightarrow> False)"

definition was_spawned :: "main_pc \<Rightarrow> nat \<Rightarrow> bool" where
  "was_spawned pc i = (case pc of Spawning p k \<Rightarrow> i < k | _ \<Rightarrow> True)"

definition main_ok :: "main_pc \<Rightarrow> nat \<Rightarrow> bool" where
  "main_ok pc n = (case pc of Spawning p k \<Rightarrow> k \<le> n | Joining p k \<Rightarrow> k \<le> n | Finished \<Rightarrow> True)"

lemmas pc_defs = in_phase_def was_spawned_def main_ok_def

text \<open>
  A waiting watcher belongs to the current phase and to a data system without failure. One that runs or closes
  does so too, or the failure of its data system is visible, and nobody waits for it any more.
\<close>

fun watcher_ok :: "main_pc \<Rightarrow> bool \<Rightarrow> int \<Rightarrow> nat \<Rightarrow> DB_SYSTEM_ETL_STEP \<Rightarrow> watcher_pc \<Rightarrow> bool" where
  "watcher_ok pc locked failure i p Waiting = (failure = 0 \<and> in_phase pc i p)"
| "watcher_ok pc locked failure i p (Running keeps f shown) =
     (locked \<and> (in_phase pc i p \<or> failure \<noteq> 0) \<and> failure = (if shown then f else 0))"
| "watcher_ok pc locked failure i p Closing = (in_phase pc i p \<or> failure \<noteq> 0)"
| "watcher_ok pc locked failure i p Ended = True"

definition is_running :: "watcher_pc \<Rightarrow> bool" where
  "is_running pc = (case pc of Running _ _ _ \<Rightarrow> True | _ \<Rightarrow> False)"

lemma is_running_simps [simp]:
  "is_running (Running keeps f shown)" "\<not> is_running Waiting" "\<not> is_running Closing" "\<not> is_running Ended"
  by (simp_all add: is_running_def)

definition thread_inv :: "'w run_state \<Rightarrow> bool" where
  "thread_inv s \<longleftrightarrow>
     main_ok (rs_pc s) (length (rs_systems s)) \<and>
     (\<forall>i < length (rs_systems s).
        \<not> preprocessed (rs_systems s ! i) \<and>
        (\<forall>th \<in> set (tl (rs_threads s i)). wa_pc th = Ended) \<and>
        watcher_ok (rs_pc s) (rs_locked s) (sy_failure (rs_systems s ! i)) i (now_step (rs_threads s) i) (now (rs_threads s) i) \<and>
        (was_spawned (rs_pc s) i \<longrightarrow> \<not> failed s i \<longrightarrow> rs_threads s i \<noteq> []) \<and>
        (\<forall>j < length (rs_systems s). is_running (now (rs_threads s) i) \<longrightarrow> is_running (now (rs_threads s) j) \<longrightarrow> i = j))"

lemma thread_invD:
  assumes "thread_inv s" "i < length (rs_systems s)"
  shows "\<not> preprocessed (rs_systems s ! i)" "\<forall>th \<in> set (tl (rs_threads s i)). wa_pc th = Ended"
    "watcher_ok (rs_pc s) (rs_locked s) (sy_failure (rs_systems s ! i)) i (now_step (rs_threads s) i) (now (rs_threads s) i)"
    "was_spawned (rs_pc s) i \<Longrightarrow> \<not> failed s i \<Longrightarrow> rs_threads s i \<noteq> []"
    "is_running (now (rs_threads s) i) \<Longrightarrow> is_running (now (rs_threads s) j) \<Longrightarrow> j < length (rs_systems s) \<Longrightarrow> i = j"
  using assms by (auto simp: thread_inv_def)

text \<open>Every watcher but the newest has ended.\<close>

lemma live_is_newest:
  assumes "thread_inv s" "thread_at s i j pc" "pc \<noteq> Ended"
  shows "j = 0 \<and> i < length (rs_systems s) \<and> rs_threads s i \<noteq> [] \<and> now (rs_threads s) i = pc \<and>
    now_step (rs_threads s) i = wa_step (rs_threads s i ! j)"
proof (cases "rs_threads s i")
  case (Cons th ths)
  from assms(1,2) Cons have "\<forall>th \<in> set ths. wa_pc th = Ended" by (auto simp: thread_at_def dest: thread_invD(2))
  with assms(2,3) Cons have "j = 0" by (cases j) (auto simp: thread_at_def)
  with assms(2) Cons show ?thesis by (simp add: thread_at_def now_def now_step_def)
qed (use assms in \<open>simp add: thread_at_def\<close>)

lemma thread_inv_initial:
  "\<forall>sy \<in> set systems. \<not> preprocessed sy \<Longrightarrow> thread_inv (initial_run systems w)"
  by (auto simp: thread_inv_def initial_run_def now_def pc_defs)

text \<open>The four kinds of a step: of the main thread, or of the newest watcher of one data system.\<close>

lemma inv_main:
  assumes "thread_inv s" "main_ok pc (length (rs_systems s))"
    "\<And>i. i < length (rs_systems s) \<Longrightarrow> was_spawned pc i \<Longrightarrow> \<not> failed s i \<Longrightarrow> rs_threads s i \<noteq> []"
    "\<And>i. i < length (rs_systems s) \<Longrightarrow> now (rs_threads s) i \<noteq> Ended \<Longrightarrow> failed s i \<or> in_phase pc i (now_step (rs_threads s) i)"
  shows "thread_inv (s\<lparr>rs_pc := pc\<rparr>)"
proof -
  have "watcher_ok pc (rs_locked s) (sy_failure (rs_systems s ! i)) i (now_step (rs_threads s) i) (now (rs_threads s) i)"
    if "i < length (rs_systems s)" for i
    using thread_invD(3) [OF assms(1) that] assms(4) [OF that] by (cases "now (rs_threads s) i") auto
  with assms show ?thesis by (simp add: thread_inv_def)
qed

lemma inv_watcher:
  assumes "thread_inv s" "i < length (rs_systems s)" "rs_threads s i \<noteq> []"
    "length sys = length (rs_systems s)" "\<And>k. k < length sys \<Longrightarrow> k \<noteq> i \<Longrightarrow> sys ! k = rs_systems s ! k" "\<not> preprocessed (sys ! i)"
    "watcher_ok (rs_pc s) locked (sy_failure (sys ! i)) i (now_step (rs_threads s) i) pc"
    "rs_locked s \<Longrightarrow> \<not> locked \<Longrightarrow> is_running (now (rs_threads s) i)"
    "is_running pc \<Longrightarrow> is_running (now (rs_threads s) i) \<or> \<not> rs_locked s"
  shows "thread_inv (s\<lparr>rs_locked := locked, rs_threads := move i 0 pc (rs_threads s), rs_systems := sys, rs_world := w\<rparr>)"
proof -
  have others: "watcher_ok (rs_pc s) locked (sy_failure (rs_systems s ! k)) k (now_step (rs_threads s) k) (now (rs_threads s) k)"
    if "k < length (rs_systems s)" "k \<noteq> i" for k
    using thread_invD(3,5) [OF assms(1) that(1)] assms(2,8) that by (cases "now (rs_threads s) k") auto
  have lone: "\<not> is_running (now (rs_threads s) k)" if "k < length (rs_systems s)" "k \<noteq> i" "is_running pc" for k
    using thread_invD(3,5) [OF assms(1) that(1)] assms(2,9) that by (cases "now (rs_threads s) k") auto
  have "watcher_ok (rs_pc s) locked (sy_failure (sys ! k)) k (now_step (rs_threads s) k)
      (if k = i then pc else now (rs_threads s) k)" if "k < length (rs_systems s)" for k
    using others [OF that] assms(4,5,7) that by auto
  moreover have "\<not> preprocessed (sys ! k)" if "k < length (rs_systems s)" for k
    using thread_invD(1) [OF assms(1) that] assms(4-6) that by (cases "k = i") auto
  moreover have "j = k" if "j < length (rs_systems s)" "k < length (rs_systems s)"
    "is_running (if j = i then pc else now (rs_threads s) j)" "is_running (if k = i then pc else now (rs_threads s) k)" for j k
    using that lone thread_invD(5) [OF assms(1) that(1) _ _ that(2)] by (auto split: if_splits)
  moreover have "rs_threads s k \<noteq> []" if "k < length (rs_systems s)" "was_spawned (rs_pc s) k" "sy_failure (sys ! k) = 0" for k
    using thread_invD(4) [OF assms(1) that(1,2)] assms(3-5) that by (cases "k = i") auto
  ultimately show ?thesis
    using assms(1,3,4) by (simp add: thread_inv_def)
qed

lemma live_in_phase:
  "thread_inv s \<Longrightarrow> i < length (rs_systems s) \<Longrightarrow> now (rs_threads s) i \<noteq> Ended \<Longrightarrow> \<not> failed s i \<Longrightarrow>
   in_phase (rs_pc s) i (now_step (rs_threads s) i)"
  using thread_invD(3) [of s i] by (cases "now (rs_threads s) i") auto

lemma waiting_in_phase:
  "thread_inv s \<Longrightarrow> i < length (rs_systems s) \<Longrightarrow> now (rs_threads s) i = Waiting \<Longrightarrow>
   \<not> failed s i \<and> in_phase (rs_pc s) i (now_step (rs_threads s) i)"
  using thread_invD(3) [of s i] by auto

lemma thread_inv_step:
  assumes "thread_inv s" "worker_step env run_once s s'"
  shows "thread_inv s'"
  using assms(2)
proof cases
  case (spawn p k)
  have idle: "now (rs_threads s) k = Ended"
    using live_in_phase [OF assms(1), of k] spawn by (auto simp: pc_defs)
  have "\<forall>th \<in> set (rs_threads s k). wa_pc th = Ended"
    using idle thread_invD(2) [OF assms(1), of k] spawn(3) by (cases "rs_threads s k") (auto simp: now_def)
  moreover have "watcher_ok (Spawning p (k + 1)) (rs_locked s) (sy_failure (rs_systems s ! i)) i (now_step (rs_threads s) i) (now (rs_threads s) i)"
    if "i < length (rs_systems s)" for i
    using thread_invD(3) [OF assms(1) that] spawn(2) by (cases "now (rs_threads s) i") (auto simp: pc_defs)
  ultimately show ?thesis
    using assms(1) spawn by (auto simp: thread_inv_def pc_defs less_Suc_eq)
next
  case (pass_over p k)
  show ?thesis unfolding pass_over(1)
  proof (rule inv_main [OF assms(1)], goal_cases)
    case (2 i)
    with pass_over thread_invD(4) [OF assms(1), of i] show ?case by (auto simp: pc_defs less_Suc_eq)
  next
    case (3 i)
    with pass_over live_in_phase [OF assms(1), of i] show ?case by (auto simp: pc_defs)
  qed (use pass_over in \<open>simp add: pc_defs\<close>)
next
  case (spawned p)
  show ?thesis unfolding spawned(1)
  proof (rule inv_main [OF assms(1)], goal_cases)
    case (2 i)
    with spawned thread_invD(4) [OF assms(1), of i] show ?case by (auto simp: pc_defs)
  next
    case (3 i)
    with spawned live_in_phase [OF assms(1), of i] show ?case by (auto simp: pc_defs)
  qed (use spawned in \<open>simp add: pc_defs\<close>)
next
  case (joins p k)
  show ?thesis unfolding joins(1)
  proof (rule inv_main [OF assms(1)], goal_cases)
    case (2 i)
    with joins thread_invD(4) [OF assms(1), of i] show ?case by (auto simp: pc_defs)
  next
    case (3 i)
    have "i \<noteq> k \<or> failed s i"
      using 3 joins(4) by (cases "rs_threads s k") (auto simp: thread_at_def now_def)
    with 3 joins live_in_phase [OF assms(1), of i] show ?case by (cases "i = k") (auto simp: pc_defs)
  qed (use joins in \<open>simp add: pc_defs\<close>)
next
  case (phase_end p)
  show ?thesis unfolding phase_end(1)
  proof (rule inv_main [OF assms(1)], goal_cases)
    case (3 i)
    with phase_end live_in_phase [OF assms(1), of i] show ?case by (auto simp: pc_defs)
  qed (simp_all add: pc_defs)
next
  case finish
  show ?thesis unfolding finish(1)
  proof (rule inv_main [OF assms(1)], goal_cases)
    case (2 i)
    with finish thread_invD(4) [OF assms(1), of i] show ?case by (auto simp: pc_defs)
  next
    case (3 i)
    with finish live_in_phase [OF assms(1), of i] show ?case by (auto simp: pc_defs)
  qed (simp add: pc_defs)
next
  case (enter i j keeps sy w)
  note t = live_is_newest [OF assms(1) enter(2)]
  have "now_step (rs_threads s) i = wa_step (rs_threads s i ! j)" "j = 0" using t by auto
  with enter t thread_invD(1) [OF assms(1)] waiting_in_phase [OF assms(1), of i] watcher_keeps [OF enter(4)]
  show ?thesis unfolding enter(1) \<open>j = 0\<close>
    by (intro inv_watcher [OF assms(1)]) (auto simp: preprocessed_def)
next
  case (preprocess i j keeps f)
  with live_is_newest [OF assms(1) preprocess(2)] thread_invD(1) [OF assms(1), of i] show ?thesis by simp
next
  case (publish i j keeps f)
  note t = live_is_newest [OF assms(1) publish(2)]
  have "thread_inv (s\<lparr>rs_locked := rs_locked s, rs_threads := move i 0 (Running keeps f True) (rs_threads s),
      rs_systems := set_failure i f (rs_systems s), rs_world := rs_world s\<rparr>)"
    using t thread_invD(1,3) [OF assms(1), of i]
    by (intro inv_watcher [OF assms(1)]) (auto simp: set_failure_def preprocessed_def)
  with t show ?thesis by (simp add: publish(1))
next
  case (leave i j keeps f)
  note t = live_is_newest [OF assms(1) leave(2)]
  have "thread_inv (s\<lparr>rs_locked := keeps, rs_threads := move i 0 (if keeps then Ended else Closing) (rs_threads s),
      rs_systems := rs_systems s, rs_world := rs_world s\<rparr>)"
    using t thread_invD(1,3) [OF assms(1), of i] by (intro inv_watcher [OF assms(1)]) auto
  with t show ?thesis by (simp add: leave(1))
next
  case (close i j sy w)
  note t = live_is_newest [OF assms(1) close(2)]
  have "thread_inv (s\<lparr>rs_locked := rs_locked s, rs_threads := move i 0 Ended (rs_threads s),
      rs_systems := (rs_systems s)[i := sy], rs_world := w\<rparr>)"
    using t thread_invD(1) [OF assms(1), of i] close_dbs_keeps [OF close(3)]
    by (intro inv_watcher [OF assms(1)]) (auto simp: preprocessed_def)
  with t show ?thesis by (simp add: close(1))
qed

interpretation threads: preserved "worker_step env run_once" thread_inv for env run_once
  by unfold_locales (rule thread_inv_step)

lemma thread_inv_reach:
  "\<forall>sy \<in> set systems. \<not> preprocessed sy \<Longrightarrow> (worker_step env run_once)\<^sup>*\<^sup>* (initial_run systems w) s \<Longrightarrow> thread_inv s"
  by (rule threads.reach [OF _ thread_inv_initial])

text \<open>
  C1: the phases are separated by a barrier and one watcher runs at a time. In every reachable state a watcher that
  waits for the mutex belongs to the phase the main thread is in and to a data system without failure, so that no
  transformation or load is under way before every extraction has run; one that runs or closes its connections
  belongs to that phase too, unless the failure of its data system is visible; and whoever runs is alone and
  holds the mutex. A preprocessor of a flat file is excluded, whose flag is shown and taken back.
\<close>

theorem phases_are_separated:
  assumes "\<forall>sy \<in> set systems. \<not> preprocessed sy" "(worker_step env run_once)\<^sup>*\<^sup>* (initial_run systems w) s"
    "thread_at s i j pc" "pc \<noteq> Ended"
  shows "(pc = Waiting \<longrightarrow> \<not> failed s i) \<and> (failed s i \<or> in_phase (rs_pc s) i (wa_step (rs_threads s i ! j))) \<and>
         (is_running pc \<longrightarrow> rs_locked s \<and> (\<forall>i' j' pc'. thread_at s i' j' pc' \<and> is_running pc' \<longrightarrow> i' = i \<and> j' = j))"
proof -
  have inv: "thread_inv s" using thread_inv_reach [OF assms(1,2)] .
  note t = live_is_newest [OF inv assms(3,4)]
  have "i' = i \<and> j' = j" if "is_running pc" "thread_at s i' j' pc'" "is_running pc'" for i' j' pc'
  proof -
    have "pc' \<noteq> Ended" using that(3) by auto
    with live_is_newest [OF inv that(2)] t thread_invD(5) [OF inv, of i' i] that show ?thesis by auto
  qed
  moreover have "rs_locked s" if "is_running pc"
    using that thread_invD(3) [OF inv, of i] t by (cases pc) auto
  moreover have "pc = Waiting \<longrightarrow> \<not> failed s i" using waiting_in_phase [OF inv, of i] t by auto
  moreover have "failed s i \<or> in_phase (rs_pc s) i (wa_step (rs_threads s i ! j))"
    using live_in_phase [OF inv, of i] t assms(4) by auto
  ultimately show ?thesis by blast
qed

section \<open>Progress\<close>

text \<open>Nobody holds the mutex but a watcher that runs.\<close>

definition mutex_held :: "'w run_state \<Rightarrow> bool" where
  "mutex_held s \<longleftrightarrow> rs_locked s \<longrightarrow> (\<exists>i j pc. thread_at s i j pc \<and> is_running pc)"

lemma is_running_cases:
  assumes "is_running pc"
  obtains keeps f where "pc = Running keeps f False" | keeps f where "pc = Running keeps f True"
  using assms by (cases pc) auto

lemma running_steps: "thread_at s i j pc \<Longrightarrow> is_running pc \<Longrightarrow> \<exists>s'. worker_step env run_once s s'"
  by (erule is_running_cases) (blast intro: worker_step.publish worker_step.leave)+

lemma live_steps:
  assumes "thread_at s i j pc" "pc \<noteq> Ended" "mutex_held s"
    "pc = Waiting \<Longrightarrow> \<exists>r. DB_WORKER_watcher env (wa_step (rs_threads s i ! j)) (rs_systems s ! i) (rs_world s) = Inr r"
  shows "\<exists>s'. worker_step env run_once s s'"
proof (cases pc)
  case Waiting
  show ?thesis
  proof (cases "rs_locked s")
    case True
    with assms(3) running_steps show ?thesis by (auto simp: mutex_held_def)
  next
    case False
    from assms(4) [OF Waiting] obtain keeps sy w where
      "DB_WORKER_watcher env (wa_step (rs_threads s i ! j)) (rs_systems s ! i) (rs_world s) = Inr (keeps, sy, w)"
      by (metis prod_cases3)
    with assms(1) Waiting False show ?thesis by (blast intro: worker_step.enter)
  qed
next
  case Closing
  with assms(1) show ?thesis by (metis prod.exhaust worker_step.close)
next
  case (Running keeps f shown)
  with running_steps [OF assms(1)] show ?thesis by simp
qed (use assms(2) in simp)

lemma progress:
  assumes inv: "thread_inv s" and "rs_pc s \<noteq> Finished" "mutex_held s"
    "\<And>i j. thread_at s i j Waiting \<Longrightarrow>
       \<exists>r. DB_WORKER_watcher env (wa_step (rs_threads s i ! j)) (rs_systems s ! i) (rs_world s) = Inr r"
  shows "\<exists>s'. worker_step env run_once s s'"
proof (cases "rs_pc s")
  case (Spawning p k)
  with inv have "k < length (rs_systems s) \<or> k = length (rs_systems s)" by (auto simp: thread_inv_def pc_defs)
  with Spawning show ?thesis by (metis worker_step.spawn worker_step.pass_over worker_step.spawned)
next
  case (Joining p k)
  with inv consider "k = length (rs_systems s)" | "k < length (rs_systems s)" by (fastforce simp: thread_inv_def pc_defs)
  then show ?thesis
  proof cases
    case 1
    with Joining show ?thesis by (cases p) (blast intro: worker_step.phase_end worker_step.finish)+
  next
    case 2
    show ?thesis
    proof (cases "failed s k")
      case False
      with thread_invD(4) [OF inv 2] Joining have "rs_threads s k \<noteq> []" by (auto simp: pc_defs)
      with 2 have at: "thread_at s k 0 (wa_pc (rs_threads s k ! 0))" by (simp add: thread_at_def)
      show ?thesis
      proof (cases "wa_pc (rs_threads s k ! 0) = Ended")
        case True
        with at Joining 2 show ?thesis by (metis worker_step.joins)
      next
        case False
        from live_steps [OF at False assms(3)] assms(4) at show ?thesis by metis
      qed
    qed (use Joining 2 in \<open>blast intro: worker_step.joins\<close>)
  qed
qed (use assms(2) in simp)

text \<open>
  C7: short of a held mutex and of undefined behaviour in a watcher, the run never blocks: every
  reachable state that is not finished has a next step.
\<close>

theorem worker_progress:
  assumes "\<forall>sy \<in> set systems. \<not> preprocessed sy" "(worker_step env run_once)\<^sup>*\<^sup>* (initial_run systems w) s"
    "rs_pc s \<noteq> Finished" "mutex_held s"
    "\<And>i j. thread_at s i j Waiting \<Longrightarrow>
       \<exists>r. DB_WORKER_watcher env (wa_step (rs_threads s i ! j)) (rs_systems s ! i) (rs_world s) = Inr r"
  shows "\<exists>s'. worker_step env run_once s s'"
  by (rule progress [OF thread_inv_reach [OF assms(1,2)] assms(3-5)])

section \<open>The end of a run\<close>

fun thread_weight :: "watcher_pc \<Rightarrow> nat" where
  "thread_weight Waiting = 4"
| "thread_weight (Running keeps f shown) = (if shown then 2 else 3)"
| "thread_weight Closing = 1"
| "thread_weight Ended = 0"

fun phases_left :: "DB_SYSTEM_ETL_STEP \<Rightarrow> nat" where
  "phases_left ETL_EXTRACT = 2"
| "phases_left ETL_TRANSFORM = 1"
| "phases_left ETL_LOAD = 0"

text \<open>A phase of \<open>n\<close> data systems takes at most \<open>6 * n + 2\<close> steps.\<close>

fun main_weight :: "nat \<Rightarrow> main_pc \<Rightarrow> nat" where
  "main_weight n (Spawning p k) = phases_left p * (6 * n + 2) + 5 * (n - k) + n + 2"
| "main_weight n (Joining p k) = phases_left p * (6 * n + 2) + (n - k) + 1"
| "main_weight n Finished = 0"

definition threads_weight :: "nat \<Rightarrow> (nat \<Rightarrow> watcher list) \<Rightarrow> nat" where
  "threads_weight n ts = (\<Sum>i<n. \<Sum>th\<leftarrow>ts i. thread_weight (wa_pc th))"

definition run_weight :: "'w run_state \<Rightarrow> nat" where
  "run_weight s = (let n = length (rs_systems s) in main_weight n (rs_pc s) + threads_weight n (rs_threads s))"

lemma threads_weight_upd:
  "i < n \<Longrightarrow> threads_weight n (ts(i := ths)) + (\<Sum>th\<leftarrow>ts i. thread_weight (wa_pc th)) =
     threads_weight n ts + (\<Sum>th\<leftarrow>ths. thread_weight (wa_pc th))"
  by (simp add: threads_weight_def sum.remove [of "{..<n}" i])

lemma sum_list_upd: "j < length xs \<Longrightarrow> (\<Sum>x\<leftarrow>xs[j := y]. f x) + f (xs ! j) = (\<Sum>x\<leftarrow>xs. f x) + (f y :: nat)"
proof (induction xs arbitrary: j)
  case (Cons x xs)
  then show ?case by (cases j) auto
qed simp

lemma threads_weight_spawn:
  "k < n \<Longrightarrow> threads_weight n (ts(k := th # ts k)) = threads_weight n ts + thread_weight (wa_pc th)"
  using threads_weight_upd [of k n ts "th # ts k"] by simp

lemma threads_weight_move:
  assumes "thread_at s i j pc"
  shows "threads_weight (length (rs_systems s)) (move i j pc' (rs_threads s)) + thread_weight pc =
    threads_weight (length (rs_systems s)) (rs_threads s) + thread_weight pc'"
  using threads_weight_upd [of i "length (rs_systems s)" "rs_threads s" "(rs_threads s i)[j := (rs_threads s i ! j)\<lparr>wa_pc := pc'\<rparr>]"]
    sum_list_upd [of j "rs_threads s i" "\<lambda>th. thread_weight (wa_pc th)" "(rs_threads s i ! j)\<lparr>wa_pc := pc'\<rparr>"] assms
  by (simp add: move_def thread_at_def)

lemma run_weight_step:
  assumes "thread_inv s" "worker_step env True s s'"
  shows "run_weight s' < run_weight s"
  using assms(2)
proof cases
  case (spawn p k)
  then show ?thesis by (simp add: run_weight_def Let_def threads_weight_spawn)
next
  case (phase_end p)
  then show ?thesis by (cases p) (simp_all add: run_weight_def Let_def)
next
  case (enter i j keeps sy w)
  then show ?thesis
    using threads_weight_move [OF enter(2), of "Running keeps (sy_failure sy) False"] by (simp add: run_weight_def Let_def)
next
  case (preprocess i j keeps f)
  with live_is_newest [OF assms(1) preprocess(2)] thread_invD(1) [OF assms(1), of i] show ?thesis by simp
next
  case (publish i j keeps f)
  then show ?thesis
    using threads_weight_move [OF publish(2), of "Running keeps f True"] by (simp add: run_weight_def Let_def)
next
  case (leave i j keeps f)
  then show ?thesis
    using threads_weight_move [OF leave(2), of "if keeps then Ended else Closing"]
    by (cases keeps) (simp_all add: run_weight_def Let_def)
next
  case (close i j sy w)
  then show ?thesis
    using threads_weight_move [OF close(2), of Ended] by (simp add: run_weight_def Let_def)
qed (auto simp: run_weight_def Let_def)

interpretation run: decreasing "worker_step env True" thread_inv run_weight for env
  by unfold_locales (rule run_weight_step)

lemma initial_weight: "run_weight (initial_run systems w) = 18 * length systems + 6"
  by (simp add: run_weight_def initial_run_def threads_weight_def)

text \<open>The mutex is held by a running watcher as long as every watcher unlocks it.\<close>

definition unlocking :: "'w run_state \<Rightarrow> bool" where
  "unlocking s \<longleftrightarrow> mutex_held s \<and> (\<forall>i j f shown. \<not> thread_at s i j (Running True f shown))"

lemma thread_at_move:
  assumes "rs_threads s' = move i j pc (rs_threads s)" "length (rs_systems s') = length (rs_systems s)" "thread_at s i j pc0"
  shows "thread_at s' i' j' pc' \<longleftrightarrow> (if i' = i \<and> j' = j then pc' = pc else thread_at s i' j' pc')"
  using assms by (auto simp: thread_at_def move_def nth_list_update)

lemma thread_at_same:
  "rs_threads s' = rs_threads s \<Longrightarrow> length (rs_systems s') = length (rs_systems s) \<Longrightarrow> thread_at s' i j pc = thread_at s i j pc"
  by (simp add: thread_at_def)

lemma thread_at_spawn:
  "rs_threads s' = (rs_threads s)(k := th # rs_threads s k) \<Longrightarrow> length (rs_systems s') = length (rs_systems s) \<Longrightarrow>
   k < length (rs_systems s) \<Longrightarrow>
   thread_at s' i j pc \<longleftrightarrow>
     (if i = k then (case j of 0 \<Rightarrow> pc = wa_pc th | Suc j \<Rightarrow> thread_at s i j pc) else thread_at s i j pc)"
  by (auto simp: thread_at_def split: nat.split)

lemma unlockingI:
  "(rs_locked s \<Longrightarrow> thread_at s i j pc \<and> is_running pc) \<Longrightarrow> (\<And>i j f shown. \<not> thread_at s i j (Running True f shown)) \<Longrightarrow>
   unlocking s"
  by (auto simp: unlocking_def mutex_held_def)

lemma unlockingD: "unlocking s \<Longrightarrow> \<not> thread_at s i j (Running True f shown)"
  by (simp add: unlocking_def)

lemma unlocking_step:
  assumes "unlocking s" "worker_step env run_once s s'"
    "\<And>i j. thread_at s i j Waiting \<Longrightarrow>
       \<exists>sy w. DB_WORKER_watcher env (wa_step (rs_threads s i ! j)) (rs_systems s ! i) (rs_world s) = Inr (False, sy, w)"
  shows "unlocking s'"
  using assms(2)
proof cases
  case (spawn p k)
  have at: "thread_at s' i j pc \<longleftrightarrow>
      (if i = k then (case j of 0 \<Rightarrow> pc = Waiting | Suc j \<Rightarrow> thread_at s i j pc) else thread_at s i j pc)" for i j pc
    using thread_at_spawn [of s' s k "\<lparr>wa_step = p, wa_pc = Waiting\<rparr>"] spawn by (simp split: nat.split)
  have "thread_at s' i (if i = k then Suc j else j) pc = thread_at s i j pc" for i j pc
    by (simp add: at)
  moreover have "\<not> thread_at s' i j (Running True f shown)" for i j f shown
    using assms(1) by (auto simp: at unlocking_def split: if_splits nat.splits)
  moreover have "rs_locked s' = rs_locked s" by (simp add: spawn(1))
  ultimately show ?thesis using assms(1) unfolding unlocking_def mutex_held_def by metis
next
  case (enter i j keeps sy w)
  with assms(3) [OF enter(2)] have "\<not> keeps" by auto
  moreover have at: "thread_at s' i' j' pc' \<longleftrightarrow> (if i' = i \<and> j' = j then pc' = Running keeps (sy_failure sy) False else thread_at s i' j' pc')"
    for i' j' pc' by (rule thread_at_move [OF _ _ enter(2)]) (simp_all add: enter(1))
  ultimately show ?thesis
    using unlockingD [OF assms(1)] by (intro unlockingI [of _ i j "Running keeps (sy_failure sy) False"]) auto
next
  case (preprocess i j keeps f)
  have "thread_at s' = thread_at s" by (intro ext thread_at_same) (simp_all add: preprocess(1))
  with assms(1) preprocess(1) show ?thesis by (simp add: unlocking_def mutex_held_def)
next
  case (publish i j keeps f)
  have at: "thread_at s' i' j' pc' \<longleftrightarrow> (if i' = i \<and> j' = j then pc' = Running keeps f True else thread_at s i' j' pc')"
    for i' j' pc' by (rule thread_at_move [OF _ _ publish(2)]) (simp_all add: publish(1))
  moreover have "\<not> keeps" using unlockingD [OF assms(1)] publish(2) by auto
  ultimately show ?thesis
    using unlockingD [OF assms(1)] by (intro unlockingI [of _ i j "Running keeps f True"]) auto
next
  case (leave i j keeps f)
  have at: "thread_at s' i' j' pc' \<longleftrightarrow> (if i' = i \<and> j' = j then pc' = (if keeps then Ended else Closing) else thread_at s i' j' pc')"
    for i' j' pc' by (rule thread_at_move [OF _ _ leave(2)]) (simp_all add: leave(1))
  have "\<not> keeps" using unlockingD [OF assms(1)] leave(2) by auto
  with at unlockingD [OF assms(1)] show ?thesis by (intro unlockingI) (simp_all add: leave(1))
next
  case (close i j sy w)
  have at: "thread_at s' i' j' pc' \<longleftrightarrow> (if i' = i \<and> j' = j then pc' = Ended else thread_at s i' j' pc')"
    for i' j' pc' by (rule thread_at_move [OF _ _ close(2)]) (simp_all add: close(1))
  show ?thesis
  proof (cases "rs_locked s")
    case True
    then obtain i' j' pc where run: "thread_at s i' j' pc" "is_running pc" using assms(1) by (auto simp: unlocking_def mutex_held_def)
    then have "(i', j') \<noteq> (i, j)" using close(2) by (auto simp: thread_at_def)
    with at run unlockingD [OF assms(1)] show ?thesis by (intro unlockingI [of _ i' j' pc]) auto
  next
    case False
    with at unlockingD [OF assms(1)] show ?thesis by (intro unlockingI) (simp_all add: close(1))
  qed
qed (use assms(1) in \<open>simp_all add: unlocking_def mutex_held_def thread_at_def\<close>)

lemma unlocking_initial: "unlocking (initial_run systems w)"
  by (simp add: unlocking_def mutex_held_def initial_run_def thread_at_def)

lemma run_once_ends:
  assumes "\<forall>sy \<in> set systems. \<not> preprocessed sy" "(worker_step env True ^^ m) (initial_run systems w) s"
    "\<And>t i j. (worker_step env True)\<^sup>*\<^sup>* (initial_run systems w) t \<Longrightarrow> thread_at t i j Waiting \<Longrightarrow>
       \<exists>sy v. DB_WORKER_watcher env (wa_step (rs_threads t i ! j)) (rs_systems t ! i) (rs_world t) = Inr (False, sy, v)"
  shows "m \<le> 18 * length systems + 6 \<and> (\<exists>t. (worker_step env True)\<^sup>*\<^sup>* s t \<and> rs_pc t = Finished)"
proof -
  have inv: "thread_inv (initial_run systems w)" using assms(1) by (rule thread_inv_initial)
  have unlocking: "unlocking t" if "(worker_step env True)\<^sup>*\<^sup>* (initial_run systems w) t" for t
    using that
  proof (induction rule: rtranclp_induct)
    case base
    show ?case by (rule unlocking_initial)
  next
    case (step t u)
    show ?case by (rule unlocking_step [OF step.IH step.hyps(2) assms(3) [OF step.hyps(1)]])
  qed
  have s: "(worker_step env True)\<^sup>*\<^sup>* (initial_run systems w) s" by (rule relpowp_imp_rtranclp [OF assms(2)])
  obtain t where t: "(worker_step env True)\<^sup>*\<^sup>* s t" "\<forall>u. \<not> worker_step env True t u"
    using run.ends [OF threads.reach [OF s inv]] by blast
  have reach: "(worker_step env True)\<^sup>*\<^sup>* (initial_run systems w) t" using s t(1) by (rule rtranclp_trans)
  have "rs_pc t = Finished"
  proof (rule ccontr)
    assume "rs_pc t \<noteq> Finished"
    from progress [OF threads.reach [OF reach inv] this] unlocking [OF reach] assms(3) [OF reach] t(2)
    show False by (fastforce simp: unlocking_def)
  qed
  with t(1) run.run_length [OF assms(2) inv] show ?thesis by (auto simp: initial_weight)
qed

text \<open>
  C8: a worker that runs once ends. When no watcher runs into undefined behaviour or leaves the mutex locked, every
  run of the threads can be continued until the main thread has finished, and no run has more than
  \<open>18 * n + 6\<close> steps for \<open>n\<close> data systems, however the threads are scheduled.
\<close>

theorem run_once_finishes:
  assumes "\<forall>sy \<in> set systems. \<not> preprocessed sy" "(worker_step env True ^^ m) (initial_run systems w) s"
    "\<And>t i j. (worker_step env True)\<^sup>*\<^sup>* (initial_run systems w) t \<Longrightarrow> thread_at t i j Waiting \<Longrightarrow>
       \<exists>sy v. DB_WORKER_watcher env (wa_step (rs_threads t i ! j)) (rs_systems t ! i) (rs_world t) = Inr (False, sy, v)"
  shows "m \<le> 18 * length systems + 6 \<and> (\<exists>t. (worker_step env True)\<^sup>*\<^sup>* s t \<and> rs_pc t = Finished)"
  by (rule run_once_ends [OF assms])

section \<open>The deadlock after a failed connection\<close>

text \<open>A mutex that nobody will unlock, and a watcher that waits for it.\<close>

definition stuck :: "nat \<Rightarrow> 'w run_state \<Rightarrow> bool" where
  "stuck i s \<longleftrightarrow> thread_inv s \<and> rs_locked s \<and> (\<forall>k j pc. thread_at s k j pc \<longrightarrow> \<not> is_running pc) \<and> thread_at s i 0 Waiting"

lemma stuck_step:
  assumes "stuck i s" "worker_step env run_once s s'"
  shows "stuck i s'"
proof -
  have inv: "thread_inv s" and inv': "thread_inv s'" using assms thread_inv_step by (auto simp: stuck_def)
  have quiet: "\<not> thread_at s k j (Running keeps f shown)" for k j keeps f shown
    using assms(1) is_running_simps(1) unfolding stuck_def by blast
  have here: "thread_at s i 0 Waiting" using assms(1) by (simp add: stuck_def)
  then have i: "i < length (rs_systems s)" "now (rs_threads s) i = Waiting" using live_is_newest [OF inv here] by auto
  have "rs_locked s' \<and> (\<forall>k j pc. thread_at s' k j pc \<longrightarrow> \<not> is_running pc) \<and> thread_at s' i 0 Waiting"
    using assms(2)
  proof cases
    case (spawn p k)
    have at: "thread_at s' i' j pc \<longleftrightarrow>
        (if i' = k then (case j of 0 \<Rightarrow> pc = Waiting | Suc j \<Rightarrow> thread_at s i' j pc) else thread_at s i' j pc)" for i' j pc
      using thread_at_spawn [of s' s k "\<lparr>wa_step = p, wa_pc = Waiting\<rparr>"] spawn by (simp split: nat.split)
    with assms(1) show ?thesis by (auto simp: stuck_def spawn(1) split: if_splits nat.splits)
  next
    case (close k j sy w)
    have at: "thread_at s' i' j' pc' \<longleftrightarrow> (if i' = k \<and> j' = j then pc' = Ended else thread_at s i' j' pc')" for i' j' pc'
      by (rule thread_at_move [OF _ _ close(2)]) (simp_all add: close(1))
    have "(i, 0) \<noteq> (k, j)"
    proof
      assume "(i, 0) = (k, j)"
      with close(2) here show False by (simp add: thread_at_def)
    qed
    with at assms(1) show ?thesis by (auto simp: stuck_def close(1) split: if_splits)
  next
    case (publish k j keeps f)
    with quiet show ?thesis by blast
  next
    case (leave k j keeps f)
    with quiet show ?thesis by blast
  qed (use assms(1) in \<open>simp_all add: stuck_def thread_at_def\<close>)
  with inv' show ?thesis by (simp add: stuck_def)
qed

interpretation deadlock: preserved "worker_step env run_once" "stuck i" for env run_once i
  by unfold_locales (rule stuck_step)

lemma stuck_not_finished: "stuck i s \<Longrightarrow> rs_pc s \<noteq> Finished"
  using live_is_newest [of s i 0 Waiting] waiting_in_phase [of s i] by (auto simp: stuck_def in_phase_def)

text \<open>A watcher that keeps the mutex enters, stores its flag and ends.\<close>

lemma keeping_run:
  assumes "thread_at s i j Waiting" "\<not> rs_locked s"
    "DB_WORKER_watcher env (wa_step (rs_threads s i ! j)) (rs_systems s ! i) (rs_world s) = Inr (True, sy, w)"
  shows "\<exists>s'. (worker_step env run_once)\<^sup>*\<^sup>* s s' \<and> rs_locked s' \<and>
    (\<forall>i' j' pc. thread_at s' i' j' pc \<longleftrightarrow> (if i' = i \<and> j' = j then pc = Ended else thread_at s i' j' pc))"
proof -
  let ?f = "sy_failure sy"
  obtain s1 where s1: "worker_step env run_once s s1" "rs_threads s1 = move i j (Running True ?f False) (rs_threads s)"
    "length (rs_systems s1) = length (rs_systems s)"
    using worker_step.enter [OF assms, of run_once] by fastforce
  have at1: "thread_at s1 i' j' pc \<longleftrightarrow> (if i' = i \<and> j' = j then pc = Running True ?f False else thread_at s i' j' pc)" for i' j' pc
    by (rule thread_at_move [OF s1(2,3) assms(1)])
  then have here1: "thread_at s1 i j (Running True ?f False)" by simp
  obtain s2 where s2: "worker_step env run_once s1 s2" "rs_threads s2 = move i j (Running True ?f True) (rs_threads s1)"
    "length (rs_systems s2) = length (rs_systems s1)"
    using worker_step.publish [OF here1, of env run_once] by fastforce
  have at2: "thread_at s2 i' j' pc \<longleftrightarrow> (if i' = i \<and> j' = j then pc = Running True ?f True else thread_at s1 i' j' pc)" for i' j' pc
    by (rule thread_at_move [OF s2(2,3) here1])
  then have here2: "thread_at s2 i j (Running True ?f True)" by simp
  obtain s3 where s3: "worker_step env run_once s2 s3" "rs_threads s3 = move i j Ended (rs_threads s2)"
    "length (rs_systems s3) = length (rs_systems s2)" "rs_locked s3"
    using worker_step.leave [OF here2, of env run_once] by fastforce
  have at3: "thread_at s3 i' j' pc \<longleftrightarrow> (if i' = i \<and> j' = j then pc = Ended else thread_at s2 i' j' pc)" for i' j' pc
    by (rule thread_at_move [OF s3(2,3) here2])
  have "(worker_step env run_once)\<^sup>*\<^sup>* s s3"
    using s1(1) s2(1) s3(1) by (meson converse_rtranclp_into_rtranclp rtranclp.rtrancl_refl)
  moreover have "thread_at s3 i' j' pc \<longleftrightarrow> (if i' = i \<and> j' = j then pc = Ended else thread_at s i' j' pc)" for i' j' pc
    unfolding at3 at2 at1 by simp
  ultimately show ?thesis using s3(4) by blast
qed

text \<open>
  C11: a watcher that cannot open one of its databases deadlocks the program: it leaves the mutex
  locked, so from then on no watcher still waiting ever runs and the main thread, which joins it,
  never finishes. The hypothesis is the state right before such a watcher runs, with another waiting.
\<close>

theorem failed_connection_deadlocks:
  assumes "\<forall>sy \<in> set systems. \<not> preprocessed sy" "(worker_step env run_once)\<^sup>*\<^sup>* (initial_run systems w0) s"
    "thread_at s i 0 Waiting" "thread_at s k 0 Waiting" "i \<noteq> k" "\<not> rs_locked s"
    "open_dbs env (rs_systems s ! i) (rs_world s) = (False, sy, w)"
  shows "\<exists>s'. (worker_step env run_once)\<^sup>*\<^sup>* s s' \<and>
           (\<forall>t. (worker_step env run_once)\<^sup>*\<^sup>* s' t \<longrightarrow> rs_pc t \<noteq> Finished \<and> thread_at t k 0 Waiting)"
proof -
  have inv: "thread_inv s" using thread_inv_reach [OF assms(1,2)] .
  note t = live_is_newest [OF inv assms(3)]
  have f: "sy_failure sy = 0" "sy_failure (rs_systems s ! i) = 0"
    using open_dbs_keeps [OF assms(7)] waiting_in_phase [OF inv, of i] t by auto
  have watch: "DB_WORKER_watcher env p (rs_systems s ! i) (rs_world s) = Inr (True, sy, w)" for p
    using assms(7) f by (simp add: DB_WORKER_watcher_def)
  obtain s3 where s3: "(worker_step env run_once)\<^sup>*\<^sup>* s s3" "rs_locked s3"
    "\<And>i' j' pc. thread_at s3 i' j' pc \<longleftrightarrow> (if i' = i \<and> j' = 0 then pc = Ended else thread_at s i' j' pc)"
    using keeping_run [OF assms(3,6) watch] by blast
  have "\<not> is_running pc" if "thread_at s i' j' pc" for i' j' pc
  proof
    assume r: "is_running pc"
    then have "pc \<noteq> Ended" by auto
    from live_is_newest [OF inv that this] thread_invD(3) [OF inv, of i'] r assms(6) show False by (cases pc) auto
  qed
  then have stuck: "stuck k s3"
    unfolding stuck_def using threads.reach [OF s3(1) inv] s3(2) assms(4,5) by (auto simp: s3(3) split: if_splits)
  have "rs_pc t \<noteq> Finished \<and> thread_at t k 0 Waiting" if "(worker_step env run_once)\<^sup>*\<^sup>* s3 t" for t
  proof -
    have "stuck k t" using deadlock.reach [OF that stuck] .
    with stuck_not_finished [OF this] show ?thesis by (simp add: stuck_def)
  qed
  with s3(1) show ?thesis by blast
qed

section \<open>What was run\<close>

text \<open>
  The watchers of a data system are kept with their steps, so that a state tells what was run. The phases of a worker in
  their order, and the number of phases that have begun for a data system when the main thread is in its \<open>m\<close>-th one.
\<close>

definition phase :: "nat \<Rightarrow> DB_SYSTEM_ETL_STEP" where
  "phase m = [ETL_EXTRACT, ETL_TRANSFORM, ETL_LOAD] ! (m mod 3)"

lemma phase_next: "phase (Suc m) = next_phase (phase m)"
proof -
  have "m mod 3 = 0 \<or> m mod 3 = 1 \<or> m mod 3 = 2" by linarith
  then show ?thesis by (auto simp: phase_def mod_Suc)
qed

lemma phase_load: "phase m = ETL_LOAD \<longleftrightarrow> m mod 3 = 2"
proof -
  have "m mod 3 = 0 \<or> m mod 3 = 1 \<or> m mod 3 = 2" by linarith
  then show ?thesis by (auto simp: phase_def)
qed

definition steps_of :: "watcher list \<Rightarrow> DB_SYSTEM_ETL_STEP list" where
  "steps_of ts = map wa_step (rev ts)"

lemma steps_of_simps [simp]: "steps_of [] = []" "steps_of (th # ts) = steps_of ts @ [wa_step th]"
  by (simp_all add: steps_of_def)

lemma steps_of_move [simp]: "steps_of (move i j pc ts k) = steps_of (ts k)"
proof (cases "j < length (ts i)")
  case True
  then have "map wa_step ((ts i)[j := (ts i ! j)\<lparr>wa_pc := pc\<rparr>]) = map wa_step (ts i)"
    by (simp add: map_update list_update_same_conv)
  then show ?thesis by (simp add: steps_of_def move_def rev_map [symmetric])
next
  case False
  then have "(ts i)[j := x] = ts i" for x by (simp add: list_update_beyond)
  then show ?thesis by (simp add: steps_of_def move_def)
qed

fun begun :: "main_pc \<Rightarrow> nat \<Rightarrow> nat \<Rightarrow> nat" where
  "begun (Spawning p k) m i = (if i < k then Suc m else m)"
| "begun (Joining p k) m i = Suc m"
| "begun Finished m i = Suc m"

definition pc_phase :: "main_pc \<Rightarrow> nat \<Rightarrow> bool" where
  "pc_phase pc m = (case pc of Spawning p k \<Rightarrow> p = phase m | Joining p k \<Rightarrow> p = phase m | Finished \<Rightarrow> phase m = ETL_LOAD)"

definition has_run :: "DB_SYSTEM_ETL_STEP list \<Rightarrow> nat \<Rightarrow> bool \<Rightarrow> bool" where
  "has_run steps n broken \<longleftrightarrow> (\<exists>c \<le> n. steps = map phase [0..<c] \<and> (\<not> broken \<longrightarrow> c = n))"

text \<open>A data system without failure has a watcher for every phase that has begun; another one for the first of them.\<close>

definition history_inv :: "nat \<Rightarrow> bool \<Rightarrow> 'w run_state \<Rightarrow> bool" where
  "history_inv n run_once s \<longleftrightarrow>
     thread_inv s \<and> length (rs_systems s) = n \<and>
     (\<exists>m. (run_once \<longrightarrow> m < 3) \<and> pc_phase (rs_pc s) m \<and>
          (\<forall>i < n. has_run (steps_of (rs_threads s i)) (begun (rs_pc s) m i) (failed s i)))"

lemma history_initial:
  "\<forall>sy \<in> set systems. \<not> preprocessed sy \<Longrightarrow> history_inv (length systems) run_once (initial_run systems w)"
  using thread_inv_initial [of systems w]
  by (auto simp: history_inv_def initial_run_def pc_phase_def phase_def has_run_def intro!: exI [of _ 0])

text \<open>A watcher changes no step, and hides no failure.\<close>

lemma history_watcher:
  assumes "history_inv n run_once s" "thread_inv s'" "rs_pc s' = rs_pc s" "length (rs_systems s') = length (rs_systems s)"
    "\<And>i. i < n \<Longrightarrow> steps_of (rs_threads s' i) = steps_of (rs_threads s i)" "\<And>i. i < n \<Longrightarrow> failed s i \<Longrightarrow> failed s' i"
  shows "history_inv n run_once s'"
proof -
  from assms(1) obtain m where m: "run_once \<longrightarrow> m < 3" "pc_phase (rs_pc s) m"
    "\<forall>i < n. has_run (steps_of (rs_threads s i)) (begun (rs_pc s) m i) (failed s i)" "length (rs_systems s) = n"
    by (auto simp: history_inv_def)
  have "has_run (steps_of (rs_threads s' i)) (begun (rs_pc s) m i) (failed s' i)" if "i < n" for i
    using m(3) that assms(5,6) [OF that] by (auto simp: has_run_def)
  with m assms(2-4) show ?thesis by (auto simp: history_inv_def)
qed

lemma history_main:
  assumes "history_inv n run_once s" "thread_inv (s\<lparr>rs_pc := pc\<rparr>)"
    "\<And>m. run_once \<longrightarrow> m < 3 \<Longrightarrow> pc_phase (rs_pc s) m \<Longrightarrow>
       \<exists>m'. (run_once \<longrightarrow> m' < 3) \<and> pc_phase pc m' \<and>
            (\<forall>i < n. begun pc m' i = begun (rs_pc s) m i \<or> (begun pc m' i = Suc (begun (rs_pc s) m i) \<and> failed s i))"
  shows "history_inv n run_once (s\<lparr>rs_pc := pc\<rparr>)"
proof -
  from assms(1) obtain m where m: "run_once \<longrightarrow> m < 3" "pc_phase (rs_pc s) m"
    "\<forall>i < n. has_run (steps_of (rs_threads s i)) (begun (rs_pc s) m i) (failed s i)" "length (rs_systems s) = n"
    by (auto simp: history_inv_def)
  from assms(3) [OF m(1,2)] obtain m' where m': "run_once \<longrightarrow> m' < 3" "pc_phase pc m'"
    "\<forall>i < n. begun pc m' i = begun (rs_pc s) m i \<or> (begun pc m' i = Suc (begun (rs_pc s) m i) \<and> failed s i)" by blast
  have "has_run (steps_of (rs_threads s i)) (begun pc m' i) (failed s i)" if "i < n" for i
  proof -
    have "has_run (steps_of (rs_threads s i)) (begun (rs_pc s) m i) (failed s i)" using m(3) that by blast
    moreover have "has_run ps (Suc k) True" if "has_run ps k True" for ps k using that by (auto simp: has_run_def intro: le_SucI)
    ultimately show ?thesis using m'(3) that by (metis (full_types))
  qed
  with m(4) m'(1,2) assms(2) show ?thesis by (auto simp: history_inv_def)
qed

lemma history_spawn:
  assumes "history_inv n run_once s" "rs_pc s = Spawning p k" "k < n" "\<not> failed s k"
    "s' = s\<lparr>rs_pc := Spawning p (k + 1), rs_threads := (rs_threads s)(k := \<lparr>wa_step = p, wa_pc = Waiting\<rparr> # rs_threads s k)\<rparr>"
    "thread_inv s'"
  shows "history_inv n run_once s'"
proof -
  from assms(1,2) obtain m where m: "run_once \<longrightarrow> m < 3" "p = phase m" "length (rs_systems s) = n"
    "\<forall>i < n. has_run (steps_of (rs_threads s i)) (if i < k then Suc m else m) (failed s i)"
    by (auto simp: history_inv_def pc_phase_def)
  have "steps_of (rs_threads s k) = map phase [0..<m]" using m(4) assms(3,4) by (auto simp: has_run_def)
  then have "has_run (steps_of (rs_threads s' i)) (if i < k + 1 then Suc m else m) (failed s' i)" if "i < n" for i
  proof (cases "i = k")
    case True
    with \<open>steps_of (rs_threads s k) = _\<close> m(2) assms(5) show ?thesis by (auto simp: has_run_def)
  next
    case False
    with m(4) that assms(5) have "has_run (steps_of (rs_threads s' i)) (if i < k then Suc m else m) (failed s' i)" by simp
    with False show ?thesis by (auto split: if_splits)
  qed
  moreover have pc: "length (rs_systems s') = n" "rs_pc s' = Spawning p (k + 1)" using assms(5) m(3) by simp_all
  ultimately have "\<forall>i < n. has_run (steps_of (rs_threads s' i)) (begun (rs_pc s') m i) (failed s' i)" by simp
  moreover have "pc_phase (rs_pc s') m" using pc(2) m(2) by (simp add: pc_phase_def)
  ultimately show ?thesis using m(1) pc(1) assms(6) unfolding history_inv_def by blast
qed

lemma history_step:
  assumes "history_inv n run_once s" "worker_step env run_once s s'"
  shows "history_inv n run_once s'"
proof -
  have inv: "thread_inv s" and len: "length (rs_systems s) = n" using assms(1) by (auto simp: history_inv_def)
  have inv': "thread_inv s'" by (rule thread_inv_step [OF inv assms(2)])
  from assms(2) show ?thesis
  proof cases
    case (spawn p k)
    show ?thesis by (rule history_spawn [OF assms(1) spawn(2) _ spawn(4) spawn(1) inv']) (use spawn(3) len in simp)
  next
    case (pass_over p k)
    show ?thesis unfolding pass_over(1)
    proof (rule history_main [OF assms(1) inv' [unfolded pass_over(1)]], goal_cases)
      case (1 m)
      with pass_over(2,4) show ?case by (intro exI [of _ m]) (auto simp: pc_phase_def less_Suc_eq)
    qed
  next
    case (spawned p)
    show ?thesis unfolding spawned(1)
    proof (rule history_main [OF assms(1) inv' [unfolded spawned(1)]], goal_cases)
      case (1 m)
      with spawned(2) len show ?case by (intro exI [of _ m]) (auto simp: pc_phase_def)
    qed
  next
    case (joins p k)
    show ?thesis unfolding joins(1)
    proof (rule history_main [OF assms(1) inv' [unfolded joins(1)]], goal_cases)
      case (1 m)
      with joins(2) show ?case by (intro exI [of _ m]) (auto simp: pc_phase_def)
    qed
  next
    case (phase_end p)
    show ?thesis unfolding phase_end(1)
    proof (rule history_main [OF assms(1) inv' [unfolded phase_end(1)]], goal_cases)
      case (1 m)
      have "m = 0 \<or> m = 1" if "m < 3" "phase m \<noteq> ETL_LOAD" using that phase_load [of m] by auto
      with 1 phase_end(2,3) phase_next [of m] show ?case by (intro exI [of _ "Suc m"]) (auto simp: pc_phase_def)
    qed
  next
    case finish
    show ?thesis unfolding finish(1)
    proof (rule history_main [OF assms(1) inv' [unfolded finish(1)]], goal_cases)
      case (1 m)
      with finish(2) show ?case by (intro exI [of _ m]) (auto simp: pc_phase_def)
    qed
  next
    case (enter i j keeps sy w)
    have "i < n" using enter(2) len by (simp add: thread_at_def)
    then show ?thesis by (intro history_watcher [OF assms(1) inv']) (auto simp: enter(1) nth_list_update len split: if_splits)
  next
    case (preprocess i j keeps f)
    with live_is_newest [OF inv preprocess(2)] thread_invD(1) [OF inv, of i] show ?thesis by simp
  next
    case (publish i j keeps f)
    with live_is_newest [OF inv publish(2)] thread_invD(3) [OF inv, of i] have "\<not> failed s i" by auto
    then show ?thesis by (intro history_watcher [OF assms(1) inv']) (auto simp: publish(1) len)
  next
    case (leave i j keeps f)
    show ?thesis by (rule history_watcher [OF assms(1) inv']) (auto simp: leave(1))
  next
    case (close i j sy w)
    have "i < n" using close(2) len by (simp add: thread_at_def)
    with close_dbs_keeps [OF close(3)] show ?thesis
      by (intro history_watcher [OF assms(1) inv']) (auto simp: close(1) nth_list_update len split: if_splits)
  qed
qed

interpretation history: preserved "worker_step env run_once" "history_inv n run_once" for env run_once n
  by unfold_locales (rule history_step)

text \<open>
  C2: Every phase is run, in order and once a round: when the main thread has finished, there is a number of rounds, one
  with \<open>run_once\<close>, such that the watchers of every data system were created for extract, transform, load, extract and so
  on, none left out and none twice; each of them has entered the mutex. A data system that has no failure at the end has
  had all three phases of every round, and all its watchers have ended; another one has had the first of them. Data
  systems with a preprocessor are excluded, and so is a failure of \<open>pthread_create\<close>.
\<close>

theorem every_phase_runs:
  assumes "\<forall>sy \<in> set systems. \<not> preprocessed sy" "(worker_step env run_once)\<^sup>*\<^sup>* (initial_run systems w) s" "rs_pc s = Finished"
  shows "\<exists>rounds > 0. (run_once \<longrightarrow> rounds = 1) \<and>
    (\<forall>i < length systems. \<exists>c \<le> 3 * rounds.
       map wa_step (rev (rs_threads s i)) = map (\<lambda>k. [ETL_EXTRACT, ETL_TRANSFORM, ETL_LOAD] ! (k mod 3)) [0..<c] \<and>
       (\<forall>th \<in> set (rs_threads s i). wa_pc th \<noteq> Waiting) \<and>
       (\<not> failed s i \<longrightarrow> c = 3 * rounds \<and> (\<forall>th \<in> set (rs_threads s i). wa_pc th = Ended)))"
proof -
  have h: "history_inv (length systems) run_once s" by (rule history.reach [OF assms(2) history_initial [OF assms(1)]])
  then have inv: "thread_inv s" and len: "length (rs_systems s) = length systems" by (auto simp: history_inv_def)
  from h assms(3) obtain m where m: "run_once \<longrightarrow> m < 3" "phase m = ETL_LOAD"
    "\<forall>i < length systems. has_run (steps_of (rs_threads s i)) (Suc m) (failed s i)"
    by (auto simp: history_inv_def pc_phase_def)
  have sum: "Suc m = 3 * (m div 3 + 1)" using m(2) phase_load [of m] by presburger
  have run: "wa_pc th \<noteq> Waiting \<and> (failed s i \<or> wa_pc th = Ended)" if i: "i < length systems" "th \<in> set (rs_threads s i)" for i th
  proof -
    obtain x xs where x: "rs_threads s i = x # xs" using i(2) by (cases "rs_threads s i") auto
    have "wa_pc th = Ended \<or> th = x" using thread_invD(2) [OF inv, of i] i len x by auto
    moreover have "wa_pc x \<noteq> Waiting \<and> (failed s i \<or> wa_pc x = Ended)"
      using waiting_in_phase [OF inv, of i] live_in_phase [OF inv, of i] i(1) len x assms(3) by (auto simp: now_def pc_defs)
    ultimately show ?thesis by auto
  qed
  have "\<exists>c \<le> Suc m. map wa_step (rev (rs_threads s i)) = map (\<lambda>k. [ETL_EXTRACT, ETL_TRANSFORM, ETL_LOAD] ! (k mod 3)) [0..<c] \<and>
      (\<forall>th \<in> set (rs_threads s i). wa_pc th \<noteq> Waiting) \<and>
      (\<not> failed s i \<longrightarrow> c = Suc m \<and> (\<forall>th \<in> set (rs_threads s i). wa_pc th = Ended))" if "i < length systems" for i
    using m(3) run [OF that] that unfolding has_run_def steps_of_def phase_def by blast
  then show ?thesis
    unfolding sum using m(1) by (intro exI [of _ "m div 3 + 1"]) auto
qed

section \<open>A preprocessor breaks the barrier\<close>

text \<open>
  C12: with a preprocessor the phases overlap: while the extraction of a data system still runs, the main thread, which
  has read the flag of the preprocessor, has already gone on and, once the import has cleared the flag, started
  the transformation of the same data system.
\<close>

theorem preprocessor_breaks_barrier:
  assumes "preprocessed sy" "sy_failure sy = 0"
    "DB_WORKER_watcher env ETL_EXTRACT sy w = Inr (False, sy', w')" "sy_failure sy' = 0"
  shows "\<exists>s keeps f shown. (worker_step env run_once)\<^sup>*\<^sup>* (initial_run [sy] w) s \<and>
    thread_at s 0 1 (Running keeps f shown) \<and> wa_step (rs_threads s 0 ! 1) = ETL_EXTRACT \<and>
    thread_at s 0 0 Waiting \<and> wa_step (rs_threads s 0 ! 0) = ETL_TRANSFORM"
proof -
  let ?th = "\<lambda>p pc. \<lparr>wa_step = p, wa_pc = pc\<rparr>"
  let ?s = "\<lambda>pc locked ths x v. \<lparr>rs_pc = pc, rs_locked = locked, rs_threads = (\<lambda>i. [])(0 := ths), rs_systems = [x], rs_world = v\<rparr>"
  let ?run = "?th ETL_EXTRACT (Running False 0 False)" and ?x = "sy'\<lparr>sy_failure := 1\<rparr>"
  have pre: "preprocessed sy'" using watcher_keeps [OF assms(3)] assms(1) by (simp add: preprocessed_def)
  have id: "sy'\<lparr>sy_failure := 0\<rparr> = sy'" using assms(4) by (cases sy') simp
  have "worker_step env run_once (initial_run [sy] w) (?s (Spawning ETL_EXTRACT 1) False [?th ETL_EXTRACT Waiting] sy w)"
    using worker_step.spawn [of "initial_run [sy] w" ETL_EXTRACT 0 env run_once] assms(2) by (simp add: initial_run_def)
  moreover have "worker_step env run_once (?s (Spawning ETL_EXTRACT 1) False [?th ETL_EXTRACT Waiting] sy w)
      (?s (Joining ETL_EXTRACT 0) False [?th ETL_EXTRACT Waiting] sy w)"
    using worker_step.spawned [of "?s (Spawning ETL_EXTRACT 1) False [?th ETL_EXTRACT Waiting] sy w" ETL_EXTRACT env run_once] by simp
  moreover have "worker_step env run_once (?s (Joining ETL_EXTRACT 0) False [?th ETL_EXTRACT Waiting] sy w)
      (?s (Joining ETL_EXTRACT 0) True [?run] sy' w')"
    using worker_step.enter [of "?s (Joining ETL_EXTRACT 0) False [?th ETL_EXTRACT Waiting] sy w" 0 0 env False sy' w' run_once] assms
    by (simp add: thread_at_def move_def id)
  moreover have "worker_step env run_once (?s (Joining ETL_EXTRACT 0) True [?run] sy' w') (?s (Joining ETL_EXTRACT 0) True [?run] ?x w')"
    using worker_step.preprocess [of "?s (Joining ETL_EXTRACT 0) True [?run] sy' w'" 0 0 False 0 env run_once] pre
    by (simp add: thread_at_def set_failure_def)
  moreover have "worker_step env run_once (?s (Joining ETL_EXTRACT 0) True [?run] ?x w') (?s (Joining ETL_EXTRACT 1) True [?run] ?x w')"
    using worker_step.joins [of "?s (Joining ETL_EXTRACT 0) True [?run] ?x w'" ETL_EXTRACT 0 env run_once] by simp
  moreover have "worker_step env run_once (?s (Joining ETL_EXTRACT 1) True [?run] ?x w') (?s (Spawning ETL_TRANSFORM 0) True [?run] ?x w')"
    using worker_step.phase_end [of "?s (Joining ETL_EXTRACT 1) True [?run] ?x w'" ETL_EXTRACT run_once env] by simp
  moreover have "worker_step env run_once (?s (Spawning ETL_TRANSFORM 0) True [?run] ?x w')
      (?s (Spawning ETL_TRANSFORM 0) True [?th ETL_EXTRACT (Running False 0 True)] sy' w')"
    using worker_step.publish [of "?s (Spawning ETL_TRANSFORM 0) True [?run] ?x w'" 0 0 False 0 env run_once]
    by (simp add: thread_at_def move_def set_failure_def id)
  moreover have "worker_step env run_once (?s (Spawning ETL_TRANSFORM 0) True [?th ETL_EXTRACT (Running False 0 True)] sy' w')
      (?s (Spawning ETL_TRANSFORM 1) True [?th ETL_TRANSFORM Waiting, ?th ETL_EXTRACT (Running False 0 True)] sy' w')"
    using worker_step.spawn [of "?s (Spawning ETL_TRANSFORM 0) True [?th ETL_EXTRACT (Running False 0 True)] sy' w'" ETL_TRANSFORM 0 env run_once]
      assms(4) by simp
  ultimately have "(worker_step env run_once)\<^sup>*\<^sup>* (initial_run [sy] w)
      (?s (Spawning ETL_TRANSFORM 1) True [?th ETL_TRANSFORM Waiting, ?th ETL_EXTRACT (Running False 0 True)] sy' w')"
    by (meson converse_rtranclp_into_rtranclp rtranclp.rtrancl_refl)
  then show ?thesis
    by (intro exI [of _ "?s (Spawning ETL_TRANSFORM 1) True [?th ETL_TRANSFORM Waiting, ?th ETL_EXTRACT (Running False 0 True)] sy' w'"]
        exI [of _ False] exI [of _ "0::int"] exI [of _ True] conjI) (simp_all add: thread_at_def)
qed

section \<open>Concrete runs\<close>

text \<open>A data system whose warehouse has no known driver, so that its connection fails, and two of them spawned.\<close>

definition demo_broken :: DATABASE_SYSTEM where
  "demo_broken = demo_slot\<lparr>sy_name := Some ''s'', sy_dcpam_db := (demo_db D_MYSQL)\<lparr>db_driver := None\<rparr>\<rparr>"

definition demo_spawned :: "nat \<Rightarrow> string list run_state" where
  "demo_spawned k =
     \<lparr>rs_pc = Spawning ETL_EXTRACT k, rs_locked = False,
      rs_threads = (\<lambda>i. if i < k then [\<lparr>wa_step = ETL_EXTRACT, wa_pc = Waiting\<rparr>] else []),
      rs_systems = [demo_broken, demo_broken], rs_world = []\<rparr>"

lemma demo_broken_facts: "sy_failure demo_broken = 0" "\<not> preprocessed demo_broken" "sy_flat_file demo_broken = None"
  by (simp_all add: demo_broken_def demo_slot_def preprocessed_def)

lemma demo_no_preprocessor: "\<forall>sy \<in> set [demo_broken, demo_broken]. \<not> preprocessed sy"
  by (simp add: demo_broken_facts)

lemma demo_spawn:
  assumes "k < 2"
  shows "worker_step demo_env True (demo_spawned k) (demo_spawned (Suc k))"
proof -
  have "k = 0 \<or> k = 1" using assms by auto
  then have "\<not> failed (demo_spawned k) k" by (auto simp: demo_spawned_def demo_broken_facts)
  moreover have "(rs_threads (demo_spawned k))(k := \<lparr>wa_step = ETL_EXTRACT, wa_pc = Waiting\<rparr> # rs_threads (demo_spawned k) k) =
      rs_threads (demo_spawned (Suc k))" by (auto simp: demo_spawned_def less_Suc_eq)
  ultimately show ?thesis
    using worker_step.spawn [of "demo_spawned k" ETL_EXTRACT k demo_env True] assms by (simp add: demo_spawned_def)
qed

lemma demo_reach: "(worker_step demo_env True)\<^sup>*\<^sup>* (initial_run [demo_broken, demo_broken] []) (demo_spawned 2)"
proof -
  have "initial_run [demo_broken, demo_broken] [] = demo_spawned 0"
    by (simp add: initial_run_def demo_spawned_def)
  moreover have "worker_step demo_env True (demo_spawned 0) (demo_spawned 1)" "worker_step demo_env True (demo_spawned 1) (demo_spawned 2)"
    using demo_spawn [of 0] demo_spawn [of 1] by (simp_all add: numeral_2_eq_2)
  ultimately show ?thesis by (metis r_into_rtranclp rtranclp.rtrancl_into_rtrancl)
qed

lemma demo_waiting: "thread_at (demo_spawned 2) i j pc \<longleftrightarrow> (i = 0 \<or> i = 1) \<and> j = 0 \<and> pc = Waiting"
  by (auto simp: thread_at_def demo_spawned_def less_2_cases_iff)

lemma demo_systems: "i = 0 \<or> i = 1 \<Longrightarrow> rs_systems (demo_spawned 2) ! i = demo_broken"
  by (auto simp: demo_spawned_def)

lemma demo_fails: "open_dbs demo_env demo_broken w = (False, demo_broken, w)"
  by (simp add: open_dbs_def open_db_def DATABASE_SYSTEM_DB_init_def demo_broken_def demo_slot_def)

theorem phases_are_separated_witness:
  "\<not> failed (demo_spawned 2) 1 \<and> in_phase (rs_pc (demo_spawned 2)) 1 (wa_step (rs_threads (demo_spawned 2) 1 ! 0))"
  using phases_are_separated [OF demo_no_preprocessor demo_reach, of 1 0 Waiting] by (simp add: demo_waiting)

theorem worker_progress_witness: "\<exists>s'. worker_step demo_env True (demo_spawned 2) s'"
proof (rule worker_progress [OF demo_no_preprocessor demo_reach])
  show "\<exists>r. DB_WORKER_watcher demo_env (wa_step (rs_threads (demo_spawned 2) i ! j)) (rs_systems (demo_spawned 2) ! i)
      (rs_world (demo_spawned 2)) = Inr r" if "thread_at (demo_spawned 2) i j Waiting" for i j
    using that demo_systems [of i] by (auto simp: demo_waiting DB_WORKER_watcher_def demo_fails demo_broken_facts)
qed (simp_all add: demo_spawned_def mutex_held_def)

theorem failed_connection_deadlocks_witness:
  "\<exists>s'. (worker_step demo_env True)\<^sup>*\<^sup>* (demo_spawned 2) s' \<and> Finished \<notin> rs_pc ` {t. (worker_step demo_env True)\<^sup>*\<^sup>* s' t}"
proof -
  have "\<not> rs_locked (demo_spawned 2)" by (simp add: demo_spawned_def)
  then obtain s' where s': "(worker_step demo_env True)\<^sup>*\<^sup>* (demo_spawned 2) s'"
    "\<And>t. (worker_step demo_env True)\<^sup>*\<^sup>* s' t \<Longrightarrow> rs_pc t \<noteq> Finished"
    using failed_connection_deadlocks [OF demo_no_preprocessor demo_reach, of 0 1 demo_broken "rs_world (demo_spawned 2)"]
      demo_systems [of 0] by (auto simp: demo_waiting demo_fails)
  then show ?thesis using image_avoids [of "\<lambda>t. (worker_step demo_env True)\<^sup>*\<^sup>* s' t" rs_pc Finished] by blast
qed

text \<open>A data system whose steps all succeed, over drivers that answer every statement with an empty column.\<close>

definition ready_env :: "string list worker_env" where
  "ready_env = demo_env\<lparr>we_drv :=
     (demo_drivers Query_failed)\<lparr>
       drv_other_exec := (\<lambda>d c sql n dst cb w. Inr (True, Some \<lparr>q_row_count = 0, q_field_count = 1, q_records = [], q_sql = None\<rparr>, w)),
       drv_other_connect := (\<lambda>d db w. (True, db_conn db, w))\<rparr>,
     we_popen := (\<lambda>c w. (Some ''1'', w)), we_open_file := (\<lambda>n. Some (''a'' @ [NL]))\<rparr>"

definition ready_file :: DATABASE_SYSTEM_FLAT_FILE where
  "ready_file = (demo_flat_file (CHR '';'') FFT_CSV)\<lparr>ff_preprocessor := Some ''prepare'', ff_csv_delimiter := Some (CHR '';'')\<rparr>"

definition ready_query :: DATABASE_SYSTEM_QUERY where
  "ready_query =
     \<lparr>qu_name = Some ''q'', qu_mode = M_other,
      qu_etl_config = (demo_etl [])\<lparr>etl_pre_actions := [],
        etl_extract := (let e = demo_extract\<lparr>eq_secondary_db_sql := Some ''SELECT v FROM s WHERE id IN(%s)''\<rparr>
                        in \<lparr>ex_inserted = e, ex_deleted = e, ex_modified = e\<rparr>)\<rparr>\<rparr>"

definition ready_slot :: DATABASE_SYSTEM where
  "ready_slot = demo_slot\<lparr>sy_name := Some ''s'', sy_dcpam_db := demo_db D_ODBC, sy_system_db := demo_db D_ODBC, sy_queries := [ready_query]\<rparr>"

definition ready :: "DATABASE_SYSTEM \<Rightarrow> bool" where
  "ready sy \<longleftrightarrow> sy_queries sy = [ready_query] \<and> sy_flat_file sy \<in> {None, Some ready_file} \<and> sy_staging_db sy = None \<and>
     db_driver (sy_dcpam_db sy) = Some D_ODBC \<and> db_driver (sy_system_db sy) = Some D_ODBC"

lemma ready_open: "ready sy \<Longrightarrow> \<exists>sy'. open_dbs ready_env sy w = (True, sy', w) \<and> ready sy' \<and> sy_failure sy' = sy_failure sy"
  by (simp add: ready_def open_dbs_def open_db_def DATABASE_SYSTEM_DB_init_def ready_env_def)

lemma ready_close: "ready sy \<Longrightarrow> close_dbs ready_env sy w = (sy', w') \<Longrightarrow> ready sy'"
  by (auto simp: ready_def close_dbs_def close_db_def DATABASE_SYSTEM_DB_close_def Let_def split: prod.splits if_splits)

lemma ready_select:
  "db_driver db = Some D_ODBC \<Longrightarrow> \<not> contains sql [QM] \<Longrightarrow>
   DB_exec (we_drv ready_env) db (Some sql) n dst [] cb w = Inr (True, Some \<lparr>q_row_count = 0, q_field_count = 1, q_records = [], q_sql = None\<rparr>, w)"
  by (simp add: DB_exec_def DB_QUERY_format_def driver_exec_def ready_env_def)

lemma ready_extract:
  assumes "db_driver src = Some D_ODBC" "db_driver dw = Some D_ODBC"
  shows "CDC_ExtractGeneric (we_drv ready_env) rx (demo_extract\<lparr>eq_secondary_db_sql := Some ''SELECT v FROM s WHERE id IN(%s)''\<rparr>) src dw cb w = Inr (True, w)"
proof -
  have valid: "CDC_ExtractQueryTypeValid ''SELECT id FROM s''" "CDC_ExtractQueryTypeValid ''SELECT v FROM s WHERE id IN(%s)''"
    by code_simp+
  have q: "\<not> contains ''SELECT id FROM s'' [QM]" by code_simp
  show ?thesis
    using assms valid ready_select [OF assms(1) q] ready_select [OF assms(2) q]
    by (simp add: CDC_ExtractGeneric_def demo_extract_def Let_def)
qed

lemma ready_report: "with_report ready_env d (\<lambda>w. Inr (True, w)) w = Inr (True, w @ [d] @ [d])"
  by (simp add: with_report_def ready_env_def demo_env_def)

lemma ready_flat_file:
  assumes "ready sy" "sy_failure sy = 0"
  shows "\<exists>w'. flat_file_step ready_env sy w = Inr (0, w')"
proof (cases "sy_flat_file sy")
  case (Some ff)
  with assms(1) have ff: "ff = ready_file" by (auto simp: ready_def)
  have csv: "CSV_parse_line (''a'' @ [NL]) (CHR '';'') = Inr [Some ''a'']" "fgets_lines 8192 (''a'' @ [NL]) = [''a'' @ [NL]]"
    by code_simp+
  have "FILE_ETL_preload (we_drv ready_env) (we_parse ready_env) (we_open_file ready_env) (Some sy) f = (\<lambda>w. Inr (True, w))" for f
    using csv by (auto simp: FILE_ETL_preload_def Some ff ready_file_def is_csv_def demo_flat_file_def CSV_FILE_load_def ready_env_def)
  then show ?thesis
    by (simp add: flat_file_step_def Some preprocess_def ff ready_report) (simp add: ready_file_def ready_env_def)
qed (simp add: flat_file_step_def assms(2))

lemma ready_watch:
  assumes "ready sy" "sy_failure sy = 0"
  shows "\<exists>sy' w'. DB_WORKER_watcher ready_env p sy w = Inr (False, sy', w') \<and> ready sy' \<and> sy_failure sy' = 0"
proof -
  obtain sy1 where o: "open_dbs ready_env sy w = (True, sy1, w)" "ready sy1" "sy_failure sy1 = 0"
    using ready_open [OF assms(1)] assms(2) by auto
  have run: "\<exists>w'. (if p = ETL_EXTRACT then extract_step ready_env sy1 w else later_step ready_env p sy1 w) = Inr (0, w')"
  proof (cases "p = ETL_EXTRACT")
    case True
    have steps: "DB_CDC_ExtractInserted (we_drv ready_env) rx ex src dw cb = (\<lambda>w. Inr (True, w))"
      "DB_CDC_ExtractDeleted (we_drv ready_env) rx ex src dw cb = (\<lambda>w. Inr (True, w))"
      "DB_CDC_ExtractModified (we_drv ready_env) rx ex src dw cb = (\<lambda>w. Inr (True, w))"
      if "ex = Some (etl_extract (qu_etl_config ready_query))" "src = Some (sy_system_db sy1)" "dw = Some (sy_dcpam_db sy1)" for rx ex src dw cb
      using that o(2) by (auto simp: DB_CDC_ExtractInserted_def DB_CDC_ExtractDeleted_def DB_CDC_ExtractModified_def
          ready_query_def ready_def ready_extract Let_def)
    have "\<exists>w'. extract_query ready_env sy1 ready_query v = Inr (True, w')" for v
      by (simp add: extract_query_def Let_def steps ready_report)
    moreover have "pre_actions ready_env sy1 [ready_query] v = Inr v" for v by (simp add: ready_query_def)
    moreover have "qu_name ready_query = Some ''q''" by (simp add: ready_query_def)
    ultimately have pre: "pre_actions ready_env sy1 [ready_query] v = Inr v" "qu_name ready_query = Some ''q''"
      and ex: "\<exists>w'. extract_query ready_env sy1 ready_query v = Inr (True, w')" for v by auto
    let ?w = "we_report ready_env (descr ''[%s]: PreETL Actions'' [s_name sy1]) DCT_STOP
        (we_report ready_env (descr ''[%s]: PreETL Actions'' [s_name sy1]) DCT_START
          (we_report ready_env (descr ''[%s]: Extract'' [s_name sy1]) DCT_START w))"
    obtain w1 where w1: "flat_file_step ready_env sy1 ?w = Inr (0, w1)" using ready_flat_file [OF o(2,3)] by blast
    obtain w2 where w2: "extract_query ready_env sy1 ready_query w1 = Inr (True, w2)" using ex by blast
    have "sy_queries sy1 = [ready_query]" using o(2) by (simp add: ready_def)
    with True w1 w2 pre show ?thesis by (simp add: extract_step_def Let_def)
  next
    case False
    with o(2,3) show ?thesis by (cases p) (simp_all add: later_step_def ready_def ready_query_def)
  qed
  then obtain w' where "(if p = ETL_EXTRACT then extract_step ready_env sy1 w else later_step ready_env p sy1 w) = Inr (0, w')" ..
  with assms(2) o show ?thesis by (simp add: DB_WORKER_watcher_def ready_def)
qed

lemma ready_initial: "\<forall>sy \<in> set [ready_slot, ready_slot]. \<not> preprocessed sy \<and> ready sy"
  by (simp add: ready_slot_def demo_slot_def preprocessed_def ready_def demo_db_def)

lemma ready_reach:
  assumes "(worker_step ready_env True)\<^sup>*\<^sup>* (initial_run [ready_slot, ready_slot] w) s"
  shows "thread_inv s \<and> (\<forall>sy \<in> set (rs_systems s). ready sy)"
  using assms
proof (induction rule: rtranclp_induct)
  case base
  have "thread_inv (initial_run [ready_slot, ready_slot] w)" using ready_initial by (intro thread_inv_initial) blast
  then show ?case using ready_initial by (simp add: initial_run_def)
next
  case (step s t)
  then have inv: "thread_inv s" and sys: "\<forall>sy \<in> set (rs_systems s). ready sy" by auto
  have "\<forall>sy \<in> set (rs_systems t). ready sy"
  proof (rule systems_step [OF step.hyps(2) sys])
    show "ready sy" if "thread_at s i j Waiting"
      "DB_WORKER_watcher ready_env (wa_step (rs_threads s i ! j)) (rs_systems s ! i) (rs_world s) = Inr (keeps, sy, v)" for i j keeps sy v
    proof -
      have "i < length (rs_systems s)" "sy_failure (rs_systems s ! i) = 0"
        using live_is_newest [OF inv that(1)] waiting_in_phase [OF inv, of i] by auto
      with ready_watch [of "rs_systems s ! i" "wa_step (rs_threads s i ! j)" "rs_world s"] sys that(2) show ?thesis by auto
    qed
  next
    show "ready sy'" if "ready sy" "close_dbs ready_env sy v = (sy', v')" for sy v sy' v' using ready_close that .
  qed (simp add: ready_def)
  with thread_inv_step [OF inv step.hyps(2)] show ?case by blast
qed

lemma ready_waiting:
  assumes "(worker_step ready_env True)\<^sup>*\<^sup>* (initial_run [ready_slot, ready_slot] w) s" "thread_at s i j Waiting"
  shows "\<exists>sy v. DB_WORKER_watcher ready_env (wa_step (rs_threads s i ! j)) (rs_systems s ! i) (rs_world s) = Inr (False, sy, v)"
proof -
  have inv: "thread_inv s" and sys: "\<forall>sy \<in> set (rs_systems s). ready sy" using ready_reach [OF assms(1)] by auto
  have "i < length (rs_systems s)" "sy_failure (rs_systems s ! i) = 0"
    using live_is_newest [OF inv assms(2)] waiting_in_phase [OF inv, of i] by auto
  with ready_watch [of "rs_systems s ! i" "wa_step (rs_threads s i ! j)" "rs_world s"] sys show ?thesis by auto
qed

theorem run_once_finishes_witness:
  "\<exists>t. (worker_step ready_env True)\<^sup>*\<^sup>* (initial_run [ready_slot, ready_slot] []) t \<and> rs_pc t = Finished"
  using run_once_finishes [where m = 0 and systems = "[ready_slot, ready_slot]" and env = ready_env and w = "[]"] ready_initial ready_waiting
  by auto

lemma ready_fine:
  assumes "(worker_step ready_env True)\<^sup>*\<^sup>* (initial_run [ready_slot, ready_slot] w) s"
  shows "(\<forall>i < length (rs_systems s). \<not> failed s i) \<and> (\<forall>i j keeps f shown. thread_at s i j (Running keeps f shown) \<longrightarrow> f = 0)"
  using assms
proof (induction rule: rtranclp_induct)
  case base
  show ?case by (auto simp: initial_run_def thread_at_def ready_slot_def demo_slot_def less_Suc_eq)
next
  case (step s t)
  then have fine: "\<forall>i < length (rs_systems s). \<not> failed s i" "\<And>i j keeps f shown. thread_at s i j (Running keeps f shown) \<Longrightarrow> f = 0"
    by blast+
  have inv: "thread_inv s" and sys: "\<forall>sy \<in> set (rs_systems s). ready sy" using ready_reach [OF step.hyps(1)] by auto
  from step.hyps(2) show ?case
  proof cases
    case (spawn p k)
    have "thread_at t i j pc \<longleftrightarrow> (if i = k then (case j of 0 \<Rightarrow> pc = Waiting | Suc j \<Rightarrow> thread_at s i j pc) else thread_at s i j pc)"
      for i j pc using thread_at_spawn [of t s k "\<lparr>wa_step = p, wa_pc = Waiting\<rparr>"] spawn by (simp split: nat.split)
    then have "f = 0" if "thread_at t i j (Running keeps f shown)" for i j keeps f shown
      using that fine(2) by (cases j) (auto split: if_splits)
    with fine(1) show ?thesis by (auto simp: spawn(1))
  next
    case (enter i j keeps sy v)
    have i: "i < length (rs_systems s)" using enter(2) by (simp add: thread_at_def)
    with ready_watch [of "rs_systems s ! i" "wa_step (rs_threads s i ! j)" "rs_world s"] sys fine(1) enter(4) have "sy_failure sy = 0"
      by auto
    moreover have "thread_at t i' j' pc' \<longleftrightarrow> (if i' = i \<and> j' = j then pc' = Running keeps (sy_failure sy) False else thread_at s i' j' pc')"
      for i' j' pc' by (rule thread_at_move [OF _ _ enter(2)]) (simp_all add: enter(1))
    ultimately show ?thesis using fine i by (auto simp: enter(1) nth_list_update split: if_splits)
  next
    case (preprocess i j keeps f)
    with live_is_newest [OF inv preprocess(2)] thread_invD(1) [OF inv, of i] show ?thesis by simp
  next
    case (publish i j keeps f)
    have "thread_at t i' j' pc' \<longleftrightarrow> (if i' = i \<and> j' = j then pc' = Running keeps f True else thread_at s i' j' pc')" for i' j' pc'
      by (rule thread_at_move [OF _ _ publish(2)]) (simp_all add: publish(1))
    with fine(2) [OF publish(2)] fine show ?thesis by (auto simp: publish(1) split: if_splits)
  next
    case (leave i j keeps f)
    have "thread_at t i' j' pc' \<longleftrightarrow> (if i' = i \<and> j' = j then pc' = (if keeps then Ended else Closing) else thread_at s i' j' pc')"
      for i' j' pc' by (rule thread_at_move [OF _ _ leave(2)]) (simp_all add: leave(1))
    with fine show ?thesis by (auto simp: leave(1) split: if_splits)
  next
    case (close i j sy v)
    have "thread_at t i' j' pc' \<longleftrightarrow> (if i' = i \<and> j' = j then pc' = Ended else thread_at s i' j' pc')" for i' j' pc'
      by (rule thread_at_move [OF _ _ close(2)]) (simp_all add: close(1))
    moreover have "i < length (rs_systems s)" using close(2) by (simp add: thread_at_def)
    ultimately show ?thesis
      using fine close_dbs_keeps [OF close(3)] by (auto simp: close(1) nth_list_update split: if_splits)
  qed (use fine in \<open>auto simp: thread_at_def\<close>)
qed

theorem every_phase_runs_witness:
  "\<exists>s. (worker_step ready_env True)\<^sup>*\<^sup>* (initial_run [ready_slot, ready_slot] []) s \<and> rs_pc s = Finished \<and>
     map wa_step (rev (rs_threads s 0)) = [ETL_EXTRACT, ETL_TRANSFORM, ETL_LOAD] \<and>
     map wa_step (rev (rs_threads s 1)) = [ETL_EXTRACT, ETL_TRANSFORM, ETL_LOAD]"
proof -
  have np: "\<forall>sy \<in> set [ready_slot, ready_slot]. \<not> preprocessed sy" using ready_initial by blast
  obtain s where s: "(worker_step ready_env True)\<^sup>*\<^sup>* (initial_run [ready_slot, ready_slot] []) s" "rs_pc s = Finished"
    using run_once_ends [where m = 0 and systems = "[ready_slot, ready_slot]" and env = ready_env and w = "[]"] np ready_waiting
    by auto
  have "length (rs_systems s) = 2"
    using history.reach [OF s(1) history_initial [OF np]] by (simp add: history_inv_def)
  then have "\<not> failed s 0" "\<not> failed s 1" using ready_fine [OF s(1)] by auto
  moreover have "[0..<3] = [0, 1, 2]" by (simp add: upt_rec)
  ultimately have "map wa_step (rev (rs_threads s i)) = [ETL_EXTRACT, ETL_TRANSFORM, ETL_LOAD]" if "i = 0 \<or> i = 1" for i
    using every_phase_runs [OF np s] that by fastforce
  with s show ?thesis by blast
qed

theorem preprocessor_breaks_barrier_witness:
  "\<exists>s keeps f shown. (worker_step ready_env True)\<^sup>*\<^sup>* (initial_run [ready_slot\<lparr>sy_flat_file := Some ready_file\<rparr>] []) s \<and>
    thread_at s 0 1 (Running keeps f shown) \<and> thread_at s 0 0 Waiting"
proof -
  let ?sy = "ready_slot\<lparr>sy_flat_file := Some ready_file\<rparr>"
  have sy: "preprocessed ?sy" "sy_failure ?sy = 0" "ready ?sy"
    by (simp_all add: preprocessed_def ready_file_def ready_slot_def demo_slot_def ready_def demo_db_def)
  from ready_watch [OF sy(3,2), of ETL_EXTRACT "[]"] obtain sy' w' where
    w: "DB_WORKER_watcher ready_env ETL_EXTRACT ?sy [] = Inr (False, sy', w')" "sy_failure sy' = 0" by auto
  from preprocessor_breaks_barrier [OF sy(1,2) w, of True] show ?thesis by blast
qed

end
