(* ===== verification/Lcs_Server.thy ===== *)
theory Lcs_Server
  imports Flat_Parsers Net_Client
begin

text \<open>
  \<open>src/core/component.c\<close>, \<open>src/DCPAM_LCS/dcpam-lcs.c\<close> and \<open>src/DCPAM_LCS/lcs_worker.c\<close>: the components
  the LCS watches, the log of their actions, the reports about them, the request handler and the
  periodic check. \<open>cJSON_Parse\<close> and \<open>cJSON_Print\<close> are parameters; the text of the clock is an argument.
  The configuration file is read in \<open>Server_Config\<close>.
\<close>

section \<open>Access to parsed JSON\<close>

definition to_lower :: "char \<Rightarrow> char" where
  "to_lower c = (if 65 \<le> (of_char c :: nat) \<and> (of_char c :: nat) \<le> 90 then char_of ((of_char c :: nat) + 32) else c)"

text \<open>\<open>cJSON_GetObjectItem\<close>: the first child whose key is the name, whatever the case of its letters.\<close>

fun find_key :: "string \<Rightarrow> (string option \<times> json) list \<Rightarrow> json option" where
  "find_key name [] = None"
| "find_key name ((k, j) # cs) =
     (case k of
        Some s \<Rightarrow> if map to_lower s = map to_lower name then Some j else find_key name cs
      | None \<Rightarrow> find_key name cs)"

definition cJSON_GetObjectItem :: "json \<Rightarrow> string \<Rightarrow> json option" where
  "cJSON_GetObjectItem j name = find_key name (json_children j)"

text \<open>
  \<open>valuestring\<close> is NULL for everything but a string; the code passes it to \<open>strcmp\<close> and \<open>strlen\<close> as it
  is, which \<open>deref\<close> stands for.
\<close>

definition valuestring :: "json \<Rightarrow> string option" where
  "valuestring j = (case j of JString s \<Rightarrow> Some s | _ \<Rightarrow> None)"

definition deref :: "'a option \<Rightarrow> 'a outcome" where
  "deref p = (case p of Some x \<Rightarrow> Inr x | None \<Rightarrow> Inl Null_pointer)"

lemma deref_simps [simp]: "deref (Some x) = Inr x" "deref None = Inl Null_pointer"
  by (simp_all add: deref_def)

definition strcmp_eq :: "string option \<Rightarrow> string option \<Rightarrow> bool outcome" where
  "strcmp_eq a b = obind (deref a) (\<lambda>x. obind (deref b) (\<lambda>y. Inr (x = y)))"

lemma strcmp_eq_Some [simp]: "strcmp_eq (Some x) (Some y) = Inr (x = y)"
  by (simp add: strcmp_eq_def)

section \<open>Components\<close>

record COMPONENT_ACTION =
  ac_description :: string
  ac_timestamp :: string
  ac_type :: COMPONENT_ACTION_TYPE

record DCPAM_COMPONENT =
  co_ip :: "string option"
  co_port :: int
  co_name :: "string option"
  co_version :: "string option"
  co_active :: bool
  co_timestamp :: string
  co_actions :: "COMPONENT_ACTION list"

text \<open>\<open>now\<close> is the text of \<open>TIME_get_gmt\<close>, whose 19 characters fit the 20 bytes of the time stamp.\<close>

definition LCS_COMPONENT_ACTION_register ::
  "string \<Rightarrow> DCPAM_COMPONENT \<Rightarrow> string \<Rightarrow> COMPONENT_ACTION_TYPE \<Rightarrow> DCPAM_COMPONENT" where
  "LCS_COMPONENT_ACTION_register now dst description t =
     dst\<lparr>co_actions := co_actions dst @
           [\<lparr>ac_description = description, ac_timestamp = take 21 now, ac_type = t\<rparr>]\<rparr>"

definition json_text :: "string option \<Rightarrow> string \<Rightarrow> (string \<times> json) list" where
  "json_text v key = (case v of Some s \<Rightarrow> [(key, JString s)] | None \<Rightarrow> [])"

definition LCS_COMPONENT_get_states :: "DCPAM_COMPONENT list \<Rightarrow> json" where
  "LCS_COMPONENT_get_states components =
     JObject
       [(''data'', JArray (map (\<lambda>c. JObject
           (json_text (co_name c) ''name'' @ json_text (co_version c) ''version'' @ json_text (co_ip c) ''ip'' @
            [(''port'', JNumber (co_port c)), (''active'', JBool (co_active c))])) components)),
        (''success'', JBool True),
        (''length'', JNumber (int (length components)))]"

definition action_json :: "COMPONENT_ACTION \<Rightarrow> json" where
  "action_json a =
     JObject [(''description'', JString (ac_description a)), (''timestamp'', JString (ac_timestamp a)),
              (''type'', JString (type_text (ac_type a)))]"

text \<open>The first component of the name; without one the answer is an empty object.\<close>

fun LCS_COMPONENT_get_actions :: "DCPAM_COMPONENT list \<Rightarrow> string option \<Rightarrow> json outcome" where
  "LCS_COMPONENT_get_actions [] name = Inr (JObject [])"
| "LCS_COMPONENT_get_actions (c # cs) name =
     obind (strcmp_eq (co_name c) name) (\<lambda>same.
          if same
          then Inr (JObject [(''data'', JArray (map action_json (co_actions c))), (''success'', JBool True),
                             (''length'', JNumber (int (length (co_actions c))))])
          else LCS_COMPONENT_get_actions cs name)"

text \<open>
  The answer, and whether the request has been deleted: a report of actions without a component name
  deletes it.
\<close>

definition LCS_COMPONENT_process_report ::
  "json \<Rightarrow> DCPAM_COMPONENT list \<Rightarrow> (json option \<times> bool) outcome" where
  "LCS_COMPONENT_process_report json_request components =
     (case cJSON_GetObjectItem json_request ''report'' of
        None \<Rightarrow> Inr (None, False)
      | Some report \<Rightarrow>
          obind (deref (valuestring report)) (\<lambda>r.
            if r = ''component_state'' then Inr (Some (LCS_COMPONENT_get_states components), False)
            else if r = ''component_actions''
            then (case cJSON_GetObjectItem json_request ''name'' of
                    Some name \<Rightarrow>
                      obind (LCS_COMPONENT_get_actions components (valuestring name)) (\<lambda>j. Inr (Some j, False))
                  | None \<Rightarrow> Inr (None, True))
            else Inr (None, False)))"

section \<open>The check of a component\<close>

text \<open>The C string at the start of a response; a byte never written is read as it is.\<close>

fun response_text :: "char option list \<Rightarrow> string outcome" where
  "response_text [] = Inl Out_of_bounds"
| "response_text (None # bs) = Inl Uninitialised"
| "response_text (Some c # bs) = (if c = NUL then Inr [] else obind (response_text bs) (\<lambda>s. Inr (c # s)))"

definition ping_text :: string where "ping_text = ''{'' @ DQ # ''msg'' @ DQ # '': '' @ DQ # ''ping'' @ DQ # ''}''"

definition is_pong :: "(string \<Rightarrow> json option) \<Rightarrow> NET_CONN \<Rightarrow> bool outcome" where
  "is_pong parse c =
     (case nc_response c of
        None \<Rightarrow> Inr False
      | Some bytes \<Rightarrow>
          if nc_response_len c = 0 then Inr False
          else obind (response_text bytes) (\<lambda>s.
            case parse s of
              None \<Rightarrow> Inr False
            | Some resp \<Rightarrow>
                (case cJSON_GetObjectItem resp ''msg'' of
                   None \<Rightarrow> Inr False
                 | Some msg \<Rightarrow> strcmp_eq (valuestring msg) (Some ''pong''))))"

fun disconnect_times ::
  "nat \<Rightarrow> 'w net \<Rightarrow> NET_CONN \<Rightarrow> sock_state \<Rightarrow> 'w \<Rightarrow> sock_state \<times> 'w" where
  "disconnect_times 0 net c st w = (st, w)"
| "disconnect_times (Suc n) net c st w =
     (case NET_CONN_disconnect net c st w of (c, st, w) \<Rightarrow> disconnect_times n net c st w)"

text \<open>
  Every level of the nested tests that was entered disconnects once more on the way out. The fields of
  the fresh connection are those of \<open>fresh\<close>; \<open>None\<close> means that the peer never closes.
\<close>

definition LCS_COMPONENT_check ::
  "'w net \<Rightarrow> (string \<Rightarrow> json option) \<Rightarrow> NET_CONN \<Rightarrow> DCPAM_COMPONENT \<Rightarrow> sock_state \<Rightarrow> 'w \<Rightarrow>
   (bool \<times> sock_state \<times> 'w) outcome option" where
  "LCS_COMPONENT_check net parse fresh dst st w =
     (case co_ip dst of
        None \<Rightarrow> Some (Inl Null_pointer)
      | Some ip \<Rightarrow>
          (case NET_CONN_init net fresh ip (co_port dst) False w of
             (False, c, w) \<Rightarrow> Some (Inr (False, disconnect_times 1 net c st w))
           | (True, c, w) \<Rightarrow>
               (case NET_CONN_connect net c ip (co_port dst) False w of
                  (False, c, w) \<Rightarrow> Some (Inr (False, disconnect_times 2 net c st w))
                | (True, c, w) \<Rightarrow>
                    (case NET_CONN_send net c ping_text w of
                       None \<Rightarrow> None
                     | Some (False, c, w) \<Rightarrow> Some (Inr (False, disconnect_times 2 net c st w))
                     | Some (True, c, w) \<Rightarrow>
                         Some (obind (is_pong parse c) (\<lambda>pong.
                           if pong then Inr (True, disconnect_times 1 net c st w)
                           else Inr (False, disconnect_times 3 net c st w)))))))"

text \<open>Registration succeeds only for a component that answers, but fills the entry either way.\<close>

definition LCS_COMPONENT_register ::
  "'w net \<Rightarrow> (string \<Rightarrow> json option) \<Rightarrow> NET_CONN \<Rightarrow> string \<Rightarrow> DCPAM_COMPONENT \<Rightarrow> string \<Rightarrow> string \<Rightarrow> string \<Rightarrow> int \<Rightarrow>
   sock_state \<Rightarrow> 'w \<Rightarrow> (bool \<times> DCPAM_COMPONENT \<times> sock_state \<times> 'w) outcome option" where
  "LCS_COMPONENT_register net parse fresh now dst name version ip port st w =
     (let dst = dst\<lparr>co_port := port, co_name := Some name, co_version := Some version, co_ip := Some ip,
                    co_active := True,
                    co_actions := [\<lparr>ac_description = ''Component registration.'',
                                    ac_timestamp = take 20 now, ac_type = DCT_START\<rparr>]\<rparr>
      in map_option (\<lambda>r. obind r (\<lambda>(ok, st, w). Inr (ok, dst, st, w)))
           (LCS_COMPONENT_check net parse fresh dst st w))"

definition LCS_COMPONENT_free :: "DCPAM_COMPONENT \<Rightarrow> DCPAM_COMPONENT" where
  "LCS_COMPONENT_free src =
     src\<lparr>co_actions := [], co_name := None, co_version := None, co_ip := None, co_timestamp := [], co_active := False\<rparr>"

text \<open>One pass of the watcher over the components.\<close>

fun LCS_WORKER_pass ::
  "'w net \<Rightarrow> (string \<Rightarrow> json option) \<Rightarrow> NET_CONN \<Rightarrow> string \<Rightarrow> DCPAM_COMPONENT list \<Rightarrow> sock_state \<Rightarrow> 'w \<Rightarrow>
   (DCPAM_COMPONENT list \<times> sock_state \<times> 'w) outcome option" where
  "LCS_WORKER_pass net parse fresh now [] st w = Some (Inr ([], st, w))"
| "LCS_WORKER_pass net parse fresh now (c # cs) st w =
     (case LCS_COMPONENT_check net parse fresh c st w of
        None \<Rightarrow> None
      | Some (Inl e) \<Rightarrow> Some (Inl e)
      | Some (Inr (ok, st, w)) \<Rightarrow>
          map_option (\<lambda>r. obind r (\<lambda>(cs, st, w). Inr (c\<lparr>co_timestamp := take 20 now, co_active := ok\<rparr> # cs, st, w)))
            (LCS_WORKER_pass net parse fresh now cs st w))"

section \<open>The request handler\<close>

record L_DCPAM_APP =
  la_components :: "DCPAM_COMPONENT list"
  la_allowed_hosts :: "(string \<times> string) list"

fun COMPONENT_get :: "DCPAM_COMPONENT list \<Rightarrow> string option \<Rightarrow> string option \<Rightarrow> string \<Rightarrow> nat option outcome" where
  "COMPONENT_get [] name version ip = Inr None"
| "COMPONENT_get (c # cs) name version ip =
     obind (strcmp_eq name (co_name c)) (\<lambda>n.
     obind (if n then strcmp_eq version (co_version c) else Inr False) (\<lambda>v.
     obind (if v then strcmp_eq (Some ip) (co_ip c) else Inr False) (\<lambda>found.
       if found then Inr (Some 0)
       else obind (COMPONENT_get cs name version ip) (\<lambda>i. Inr (map_option Suc i)))))"

text \<open>Only the entries of the client's own address are compared; a host that is not listed passes.\<close>

fun key_allowed :: "(string \<times> string) list \<Rightarrow> string \<Rightarrow> string option \<Rightarrow> bool outcome" where
  "key_allowed [] ip key = Inr True"
| "key_allowed ((h, k) # hosts) ip key =
     (if ip = h
      then obind (strcmp_eq key (Some k)) (\<lambda>same. if same then key_allowed hosts ip key else Inr False)
      else key_allowed hosts ip key)"

lemma key_allowed_iff:
  "key_allowed hosts ip (Some k) = Inr (\<forall>(h, a) \<in> set hosts. h = ip \<longrightarrow> a = k)"
  by (induction hosts) (auto simp: case_prod_beta)

definition error_text :: string where
  "error_text =
     ''{'' @ DQ # ''success'' @ DQ # '':false,'' @ DQ # ''data'' @ DQ # '':[],'' @ DQ # ''length'' @ DQ # '':0}''"

text \<open>The three calls that end most branches: disconnect, unregister, close.\<close>

definition finish :: "'w os \<Rightarrow> nat \<Rightarrow> sock_state \<Rightarrow> 'w \<Rightarrow> sock_state \<times> 'w" where
  "finish sys client st w =
     (let (st, w) = SOCKET_disconnect_client sys st w;
          st = SOCKET_unregister_client (fst (so_clients st ! client)) st
      in SOCKET_close sys (so_session st) st w)"

text \<open>The macro \<open>WDS_RESPONSE_ERROR\<close> of the LCS.\<close>

definition response_error :: "'w os \<Rightarrow> nat \<Rightarrow> sock_state \<Rightarrow> 'w \<Rightarrow> (sock_state \<times> 'w) outcome" where
  "response_error sys client st w =
     obind (SOCKET_send sys client (error_text @ [NUL]) 38 st w) (\<lambda>(st, w).
       case SOCKET_disconnect_client sys st w of
         (st, w) \<Rightarrow> Inr (SOCKET_close sys (fst (so_clients st ! client)) st w))"

definition lcs_action ::
  "'w os \<Rightarrow> string \<Rightarrow> L_DCPAM_APP \<Rightarrow> string option \<Rightarrow> string option \<Rightarrow> string \<Rightarrow> string option \<Rightarrow> nat \<Rightarrow>
   sock_state \<Rightarrow> 'w \<Rightarrow> (L_DCPAM_APP \<times> sock_state \<times> 'w) outcome" where
  "lcs_action sys now app name version action type client st w =
     (let cs = la_components app in
      obind (COMPONENT_get cs name version (so_ip st)) (\<lambda>component.
        case component of
          Some i \<Rightarrow>
            obind (strcmp_eq type (Some ''stop'')) (\<lambda>stop.
              let t = (if stop then DCT_STOP else DCT_START);
                  app = app\<lparr>la_components := cs[i := LCS_COMPONENT_ACTION_register now (cs ! i) action t]\<rparr>
              in obind (SOCKET_send sys client ''1'' 1 st w) (\<lambda>(st, w). Inr (app, finish sys client st w)))
        | None \<Rightarrow>
            obind (SOCKET_send sys client ''-1'' 2 st w) (\<lambda>(st, w). Inr (app, finish sys client st w))))"

definition lcs_report ::
  "'w os \<Rightarrow> (json \<Rightarrow> string) \<Rightarrow> L_DCPAM_APP \<Rightarrow> json \<Rightarrow> string option \<Rightarrow> nat \<Rightarrow> sock_state \<Rightarrow> 'w \<Rightarrow>
   (sock_state \<times> 'w) outcome" where
  "lcs_report sys print app request key client st w =
     obind (key_allowed (la_allowed_hosts app) (so_ip st) key) (\<lambda>allowed.
       if \<not> allowed
       then obind (SOCKET_send sys client ''-1'' 2 st w) (\<lambda>(st, w). Inr (finish sys client st w))
       else
         obind (LCS_COMPONENT_process_report request (la_components app)) (\<lambda>(response, deleted).
           case response of
             Some j \<Rightarrow>
               obind (SOCKET_send sys client (print j) (length (print j)) st w)
                 (\<lambda>(st, w). Inr (finish sys client st w))
           | None \<Rightarrow>
               obind (response_error sys client st w)
                 (\<lambda>(st, w). if deleted then Inl Double_free else Inr (st, w))))"

text \<open>
  \<open>DCPAM_LCS_listener\<close> as the handler of \<open>SOCKET_run\<close>. A request about an action ends the connection
  three times: in its branch, after the branch, and after the whole test.
\<close>

definition DCPAM_LCS_listener ::
  "'w os \<Rightarrow> (string \<Rightarrow> json option) \<Rightarrow> (json \<Rightarrow> string) \<Rightarrow> string \<Rightarrow> L_DCPAM_APP \<Rightarrow>
   string \<Rightarrow> nat \<Rightarrow> sock_state \<Rightarrow> 'w \<Rightarrow> (L_DCPAM_APP \<times> sock_state \<times> 'w) outcome" where
  "DCPAM_LCS_listener sys parse print now app content client st w =
     (if content = [] then Inr (app, st, w)
      else case parse (cstr_of content) of
        None \<Rightarrow> obind (response_error sys client st w) (\<lambda>(st, w). Inr (app, st, w))
      | Some request \<Rightarrow>
          (case (cJSON_GetObjectItem request ''app'', cJSON_GetObjectItem request ''ver'',
                 cJSON_GetObjectItem request ''action'', cJSON_GetObjectItem request ''type'') of
             (Some ja, Some jv, Some jc, Some jt) \<Rightarrow>
               obind (deref (valuestring jc)) (\<lambda>action.
               obind (lcs_action sys now app (valuestring ja) (valuestring jv) action (valuestring jt) client st w)
                 (\<lambda>(app, st, w).
                   let (st, w) = finish sys client st w;
                       (st, w) = finish sys client st w
                   in Inr (app, st, w)))
           | _ \<Rightarrow>
               (case cJSON_GetObjectItem request ''key'' of
                  None \<Rightarrow> obind (response_error sys client st w) (\<lambda>(st, w). Inr (app, st, w))
                | Some jk \<Rightarrow>
                    obind (lcs_report sys print app request (valuestring jk) client st w)
                      (\<lambda>(st, w). Inr (app, st, w)))))"

definition DCPAM_LCS_free_components :: "L_DCPAM_APP \<Rightarrow> L_DCPAM_APP" where
  "DCPAM_LCS_free_components app = app\<lparr>la_components := []\<rparr>"

section \<open>What a request does\<close>

lemma close_fields:
  "SOCKET_close sys fd st w = (st', w') \<Longrightarrow> - 2 \<le> so_count st \<Longrightarrow>
   so_count st' = max (- 2) (so_count st - 1) \<and> so_session st' = so_session st \<and> so_clients st' = so_clients st"
  by (auto simp: SOCKET_close_def SOCKET_modify_clients_count_def)

lemma disconnect_fields:
  "SOCKET_disconnect_client sys st w = (st', w') \<Longrightarrow> - 2 \<le> so_count st \<Longrightarrow> so_session st \<noteq> - 1 \<Longrightarrow>
   so_count st' = max (- 2) (so_count st - 1) \<and> so_session st' = so_session st \<and> so_clients st' = so_clients st"
  by (auto simp: SOCKET_disconnect_client_def split: prod.splits dest!: close_fields)

lemma finish_fields:
  assumes "finish sys client st w = (st', w')" "- 2 \<le> so_count st" "so_session st \<noteq> - 1"
  shows "so_count st' = max (- 2) (so_count st - 2) \<and> so_session st' = so_session st \<and>
         so_clients st' = unregister_slot (fst (so_clients st ! client)) (so_clients st)"
proof -
  obtain st1 w1 where d: "SOCKET_disconnect_client sys st w = (st1, w1)" by fastforce
  note f = disconnect_fields [OF d assms(2,3)]
  let ?st2 = "SOCKET_unregister_client (fst (so_clients st1 ! client)) st1"
  have "SOCKET_close sys (so_session ?st2) ?st2 w1 = (st', w')"
    using assms(1) d by (simp add: finish_def Let_def)
  from close_fields [OF this] f show ?thesis by (auto simp: SOCKET_unregister_client_def)
qed

lemma send_ok:
  "length data = n \<Longrightarrow> client < length (so_clients st) \<Longrightarrow> so_session st \<noteq> 0 \<Longrightarrow>
   os_send sys (fst (so_clients st ! client)) data w = (k, w') \<Longrightarrow> 0 < k \<Longrightarrow>
   SOCKET_send sys client data n st w = Inr (st, w')"
  by (simp add: SOCKET_send_def)

lemma send_total:
  assumes "n \<le> length data" "client < length (so_clients st)"
  obtains st' w' where "SOCKET_send sys client data n st w = Inr (st', w')"
proof (cases "so_session st = 0")
  case True
  with assms show ?thesis by (intro that [of st w]) (simp add: SOCKET_send_def)
next
  case False
  obtain k v where "os_send sys (fst (so_clients st ! client)) (take n data) w = (k, v)" by fastforce
  moreover obtain st' w' where "(if k \<le> 0 then SOCKET_disconnect_client sys st v else (st, v)) = (st', w')"
    by fastforce
  ultimately show ?thesis using assms False by (intro that [of st' w']) (simp add: SOCKET_send_def)
qed

text \<open>
  A report about an action of a known component is appended to that component's log, with the
  time and the type of the report, leaves the other components alone, and is answered with \<open>1\<close>; the
  connection is then closed six times, so that the connection counter drops by six, down to its
  bound of -2.
\<close>

theorem lcs_action_is_logged:
  assumes "parse (cstr_of content) = Some req"
    "cJSON_GetObjectItem req ''app'' = Some (JString name)" "cJSON_GetObjectItem req ''ver'' = Some (JString version)"
    "cJSON_GetObjectItem req ''action'' = Some (JString action)" "cJSON_GetObjectItem req ''type'' = Some (JString t)"
    "COMPONENT_get (la_components app) (Some name) (Some version) (so_ip st) = Inr (Some i)"
    "client < length (so_clients st)" "so_session st \<noteq> 0" "so_session st \<noteq> - 1" "- 2 \<le> so_count st"
    "os_send sys (fst (so_clients st ! client)) ''1'' w = (1, w1)" "content \<noteq> []"
  shows "\<exists>st' w'. DCPAM_LCS_listener sys parse print now app content client st w =
      Inr (app\<lparr>la_components := (la_components app)[i :=
             LCS_COMPONENT_ACTION_register now (la_components app ! i) action
               (if t = ''stop'' then DCT_STOP else DCT_START)]\<rparr>, st', w') \<and>
    so_count st' = max (- 2) (so_count st - 6)"
proof -
  obtain st1 v1 where f1: "finish sys client st w1 = (st1, v1)" by fastforce
  obtain st2 v2 where f2: "finish sys client st1 v1 = (st2, v2)" by fastforce
  obtain st3 v3 where f3: "finish sys client st2 v2 = (st3, v3)" by fastforce
  note g1 = finish_fields [OF f1 assms(10,9)]
  have "- 2 \<le> so_count st1" "so_session st1 \<noteq> - 1" using g1 assms(9) by auto
  note g2 = finish_fields [OF f2 this]
  have "- 2 \<le> so_count st2" "so_session st2 \<noteq> - 1" using g1 g2 assms(9) by auto
  note g3 = finish_fields [OF f3 this]
  have s: "SOCKET_send sys client ''1'' 1 st w = Inr (st, w1)"
    using send_ok [of "''1''" 1 client st sys w 1 w1] assms(7,8,11) by simp
  have "so_count st3 = max (- 2) (so_count st - 6)" using g1 g2 g3 by simp
  moreover have "DCPAM_LCS_listener sys parse print now app content client st w =
      Inr (app\<lparr>la_components := (la_components app)[i :=
             LCS_COMPONENT_ACTION_register now (la_components app ! i) action
               (if t = ''stop'' then DCT_STOP else DCT_START)]\<rparr>, st3, v3)"
    using s f1 f2 f3 assms(1-6,12)
    by (simp add: DCPAM_LCS_listener_def lcs_action_def valuestring_def Let_def)
  ultimately show ?thesis by blast
qed

text \<open>
  An authorised request for the actions of a component that does not name the component makes
  the server release the parsed request twice.
\<close>

theorem unnamed_actions_double_free:
  assumes "parse (cstr_of content) = Some req" "cJSON_GetObjectItem req ''app'' = None"
    "cJSON_GetObjectItem req ''key'' = Some jk"
    "key_allowed (la_allowed_hosts app) (so_ip st) (valuestring jk) = Inr True"
    "cJSON_GetObjectItem req ''report'' = Some (JString ''component_actions'')"
    "cJSON_GetObjectItem req ''name'' = None"
    "client < length (so_clients st)" "content \<noteq> []"
  shows "DCPAM_LCS_listener sys parse print now app content client st w = Inl Double_free"
proof -
  have "LCS_COMPONENT_process_report req (la_components app) = Inr (None, True)"
    using assms(5,6) by (simp add: LCS_COMPONENT_process_report_def valuestring_def)
  moreover have "38 \<le> length (error_text @ [NUL])" by (simp add: error_text_def)
  then obtain st' w' where "SOCKET_send sys client (error_text @ [NUL]) 38 st w = Inr (st', w')"
    using assms(7) by (rule send_total)
  then have "\<exists>r. response_error sys client st w = Inr r"
    by (auto simp: response_error_def split: prod.splits)
  ultimately show ?thesis
    using assms(1-4,8) by (auto simp: DCPAM_LCS_listener_def lcs_report_def)
qed

text \<open>
  A request that is not JSON is answered with an error and its connection closed, but its slot in
  the client table stays taken.
\<close>

theorem invalid_request_keeps_slot:
  assumes "parse (cstr_of content) = None" "client < length (so_clients st)" "so_session st \<noteq> 0"
    "so_session st \<noteq> - 1" "- 2 \<le> so_count st"
    "os_send sys (fst (so_clients st ! client)) error_text w = (38, w1)" "content \<noteq> []"
  shows "\<exists>st' w'. DCPAM_LCS_listener sys parse print now app content client st w = Inr (app, st', w') \<and>
           so_clients st' = so_clients st \<and> so_count st' = max (- 2) (so_count st - 2)"
proof -
  have n: "length error_text = 38" by (simp add: error_text_def)
  then have s: "SOCKET_send sys client (error_text @ [NUL]) 38 st w = Inr (st, w1)"
    using assms(2,3,6) by (simp add: SOCKET_send_def)
  obtain st1 v1 where d: "SOCKET_disconnect_client sys st w1 = (st1, v1)" by fastforce
  note f = disconnect_fields [OF d assms(5,4)]
  obtain st2 v2 where c: "SOCKET_close sys (fst (so_clients st1 ! client)) st1 v1 = (st2, v2)" by fastforce
  have "- 2 \<le> so_count st1" using f by simp
  note g = close_fields [OF c this]
  have "response_error sys client st w = Inr (st2, v2)"
    using s d c by (simp add: response_error_def)
  with assms(1,7) f g show ?thesis by (simp add: DCPAM_LCS_listener_def)
qed

section \<open>Concrete inputs\<close>

definition demo_component :: DCPAM_COMPONENT where
  "demo_component = \<lparr>co_ip = Some ''10.0.0.1'', co_port = 9091, co_name = Some ''ETL'', co_version = Some ''1'',
                     co_active = True, co_timestamp = [], co_actions = []\<rparr>"

definition demo_lcs :: L_DCPAM_APP where
  "demo_lcs = \<lparr>la_components = [demo_component], la_allowed_hosts = [(''10.0.0.1'', ''k'')]\<rparr>"

definition demo_action :: json where
  "demo_action = JObject [(''app'', JString ''ETL''), (''ver'', JString ''1''), (''action'', JString ''Extract''),
                          (''type'', JString ''stop'')]"

definition demo_actions_request :: json where
  "demo_actions_request = JObject [(''key'', JString ''k''), (''report'', JString ''component_actions'')]"

lemmas demo_lcs_defs = demo_lcs_def demo_component_def demo_action_def demo_actions_request_def demo_sock_def
  demo_os_def cJSON_GetObjectItem_def to_lower_def valuestring_def

theorem lcs_action_is_logged_witness:
  "\<exists>app' st' w'. DCPAM_LCS_listener demo_os (\<lambda>_. Some demo_action) (\<lambda>_. []) ''now'' demo_lcs ''x'' 0 demo_sock [] =
      Inr (app', st', w') \<and> so_count st' = - 2 \<and>
      map (map ac_description \<circ> co_actions) (la_components app') = [[''Extract'']]"
proof -
  have "\<exists>st' w'. DCPAM_LCS_listener demo_os (\<lambda>_. Some demo_action) (\<lambda>_. []) ''now'' demo_lcs ''x'' 0 demo_sock [] =
      Inr (demo_lcs\<lparr>la_components := (la_components demo_lcs)[0 :=
             LCS_COMPONENT_ACTION_register ''now'' (la_components demo_lcs ! 0) ''Extract''
               (if ''stop'' = ''stop'' then DCT_STOP else DCT_START)]\<rparr>, st', w') \<and>
    so_count st' = max (- 2) (so_count demo_sock - 6)"
    by (rule lcs_action_is_logged [where name = "''ETL''" and version = "''1''" and req = demo_action and ?w1.0 = "[]"])
      (simp_all add: demo_lcs_defs)
  then show ?thesis by (auto simp: demo_lcs_defs LCS_COMPONENT_ACTION_register_def)
qed

theorem unnamed_actions_double_free_witness:
  "DCPAM_LCS_listener demo_os (\<lambda>_. Some demo_actions_request) (\<lambda>_. []) ''now'' demo_lcs ''x'' 0
     (demo_sock\<lparr>so_ip := ''10.0.0.1''\<rparr>) [] = Inl Double_free"
  by (rule unnamed_actions_double_free [where req = demo_actions_request and jk = "JString ''k''"])
    (simp_all add: demo_lcs_defs)

theorem invalid_request_keeps_slot_witness:
  "\<exists>st' w'. DCPAM_LCS_listener demo_os (\<lambda>_. None) (\<lambda>_. []) ''now'' demo_lcs ''x'' 0 demo_sock [] =
      Inr (demo_lcs, st', w') \<and> so_clients st' = [(5, True), (0, False)]"
proof -
  have "\<exists>st' w'. DCPAM_LCS_listener demo_os (\<lambda>_. None) (\<lambda>_. []) ''now'' demo_lcs ''x'' 0 demo_sock [] =
      Inr (demo_lcs, st', w') \<and> so_clients st' = so_clients demo_sock \<and>
      so_count st' = max (- 2) (so_count demo_sock - 2)"
    by (rule invalid_request_keeps_slot [where ?w1.0 = "[]"])
      (simp_all add: demo_sock_def demo_os_def error_text_def)
  then show ?thesis by (auto simp: demo_sock_def)
qed

end
