(* ===== verification/Http_Client.thy ===== *)
theory Http_Client
  imports Db_System Lcs_Server
begin

text \<open>
  \<open>src/core/network/http.c\<close> and \<open>src/utils/filesystem.c\<close>: the request sent for a flat file that is read
  over HTTP, the response taken apart, and the temporary file it is saved in. Files are functions on the
  world \<open>'w\<close>.
\<close>

section \<open>The request\<close>

definition crlf :: string where "crlf = [CR, NL]"

definition header_line :: "string \<times> string \<Rightarrow> string" where
  "header_line h = fst h @ '': '' @ snd h @ crlf"

definition request_format :: string where
  "request_format = ''%s /%s HTTP/1.1'' @ crlf @ ''Host: %s'' @ crlf @ ''Connection: close'' @ crlf"

text \<open>1024 bytes for the first lines; the headers and the payload are counted exactly.\<close>

definition send_data_len :: "HTTP_DATA \<Rightarrow> nat" where
  "send_data_len d =
     1024 + http_payload_len d + sum_list (map (\<lambda>(n, v). length n + length v + 4) (http_headers d))"

fun append_all :: "nat \<Rightarrow> string list \<Rightarrow> char list \<Rightarrow> char list outcome" where
  "append_all n [] buf = Inr buf"
| "append_all n (s # ss) buf =
     (case strlcat buf s n of None \<Rightarrow> Inl Out_of_bounds | Some (buf, _) \<Rightarrow> append_all n ss buf)"

definition http_request :: "HTTP_DATA option \<Rightarrow> string \<Rightarrow> string \<Rightarrow> string outcome" where
  "http_request data host path =
     obind (deref data) (\<lambda>d.
     obind (deref (http_method d)) (\<lambda>m.
     obind (if http_payload_len d = 0 then Inr [] else obind (deref (http_payload d)) (\<lambda>p. Inr [p])) (\<lambda>payload.
       let n = send_data_len d; first = snprintf_s (n + 1) request_format [m, path, host]
       in obind (append_all n (map header_line (http_headers d) @ crlf # payload)
                  (first @ replicate (n + 1 - length first) NUL))
            (\<lambda>buf. Inr (cstr_of buf)))))"

section \<open>The response\<close>

text \<open>\<open>%*s %zu\<close> at the header: the word is skipped, then a number; one too large is the largest.\<close>

definition HTTP_CLIENT_get_ContentLength :: "string \<Rightarrow> nat" where
  "HTTP_CLIENT_get_ContentLength response =
     (case strstr response ''Content-Length:'' of
        None \<Rightarrow> 0
      | Some i \<Rightarrow>
          (case scan_int (dropWhile (\<lambda>c. \<not> is_space c) (drop i response)) of
             None \<Rightarrow> 0
           | Some (v, _) \<Rightarrow> if v < 2 ^ 64 then nat (v mod 2 ^ 64) else 2 ^ 64 - 1))"

definition response_code :: "string \<Rightarrow> int option" where
  "response_code response =
     (case scan_lit ''HTTP/1.1'' response of
        None \<Rightarrow> None
      | Some s \<Rightarrow> map_option fst (scan_int (take 999 (dropWhile is_space s))))"

text \<open>
  \<open>strstr\<close> for the end of the headers in the raw copy, which has no terminator: the bytes behind it, or
  \<open>None\<close> when a zero byte comes first.
\<close>

fun body_of :: "char option list \<Rightarrow> char option list option outcome" where
  "body_of [] = Inl Out_of_bounds"
| "body_of (b # bs) =
     (if take 4 (b # bs) = map Some (crlf @ crlf) then Inr (Some (drop 4 (b # bs)))
      else if b = None then Inl Uninitialised
      else if b = Some NUL then Inr None
      else body_of bs)"

fun written :: "char option list \<Rightarrow> string outcome" where
  "written [] = Inr []"
| "written (b # bs) = (case b of None \<Rightarrow> Inl Uninitialised | Some c \<Rightarrow> obind (written bs) (\<lambda>s. Inr (c # s)))"

text \<open>The copy of the body trusts the header: it takes as many bytes as that says.\<close>

definition http_body :: "char option list \<Rightarrow> nat \<Rightarrow> string outcome" where
  "http_body raw file_size =
     obind (body_of raw) (\<lambda>body.
       case body of
         None \<Rightarrow> if file_size = 0 then Inr [] else Inl Null_pointer
       | Some bs \<Rightarrow> if length bs < file_size then Inl Out_of_bounds else written (take file_size bs))"

text \<open>
  \<open>content_len\<close> is the length of the content, and 0 without one. The connection of a request that
  fails is freed without being closed. \<open>None\<close>: the peer never closes.
\<close>

definition HTTP_CLIENT_get_content ::
  "'w net \<Rightarrow> NET_CONN \<Rightarrow> string \<Rightarrow> string \<Rightarrow> int \<Rightarrow> bool \<Rightarrow> HTTP_DATA option \<Rightarrow> sock_state \<Rightarrow> 'w \<Rightarrow>
   (string option \<times> sock_state \<times> 'w) outcome option" where
  "HTTP_CLIENT_get_content net fresh host path port secure data st w =
     (case NET_CONN_init net fresh host port secure w of
        (False, c, w) \<Rightarrow> Some (Inr (None, st, w))
      | (True, c, w) \<Rightarrow>
          (case NET_CONN_connect net c host port secure w of
             (False, c, w) \<Rightarrow> Some (Inr (None, st, w))
           | (True, c, w) \<Rightarrow>
               (case http_request data host path of
                  Inl e \<Rightarrow> Some (Inl e)
                | Inr request \<Rightarrow>
                    (case NET_CONN_send net c request w of
                       None \<Rightarrow> None
                     | Some (False, c, w) \<Rightarrow> Some (Inr (None, st, w))
                     | Some (True, c, w) \<Rightarrow>
                         (case nc_response c of
                            None \<Rightarrow> Some (Inl Null_pointer)
                          | Some bytes \<Rightarrow> Some (
                              obind (response_text bytes) (\<lambda>response.
                              if response_code response \<noteq> Some 200 then Inr (None, st, w)
                              else
                                (let file_size = (if nc_response_len c = 0 then 0 else HTTP_CLIENT_get_ContentLength response) in
                                 obind (http_body (take (nc_response_len c) bytes) file_size) (\<lambda>content.
                                 case NET_CONN_disconnect net c st w of
                                   (c, st, w) \<Rightarrow> Inr (Some content, st, w)))))))))) "

section \<open>Files\<close>

record 'w files =
  fl_open :: "string \<Rightarrow> string \<Rightarrow> 'w \<Rightarrow> bool \<times> 'w"
  fl_write :: "string \<Rightarrow> string \<Rightarrow> 'w \<Rightarrow> bool \<times> 'w"
  fl_close :: "string \<Rightarrow> 'w \<Rightarrow> bool \<times> 'w"

text \<open>\<open>%*[^:]%*[:/]%99[^:]:%99d%1023s\<close>: a port and a path are required; the path keeps its slash.\<close>

definition scan_url :: "string \<Rightarrow> (string \<times> int \<times> string) option" where
  "scan_url src =
     (case scan_until (length src) (CHR '':'') src of
        None \<Rightarrow> None
      | Some (_, s) \<Rightarrow>
          (let r = dropWhile (\<lambda>c. c = CHR '':'' \<or> c = CHR ''/'') s in
           if r = s then None
           else
             (case scan_until 99 (CHR '':'') r of
                None \<Rightarrow> None
              | Some (host, s) \<Rightarrow>
                  (case scan_lit '':'' s of
                     None \<Rightarrow> None
                   | Some s \<Rightarrow>
                       (case scan_int s of
                          None \<Rightarrow> None
                        | Some (port, s) \<Rightarrow>
                            (case scan_word 1023 s of None \<Rightarrow> None | Some (path, _) \<Rightarrow> Some (host, port, path)))))))"

text \<open>An empty item is not written (\<open>fwrite\<close> of size 0), which counts as a failure.\<close>

definition FILE_download ::
  "'w net \<Rightarrow> 'w files \<Rightarrow> NET_CONN \<Rightarrow> string \<Rightarrow> string \<Rightarrow> HTTP_DATA option \<Rightarrow> string \<Rightarrow> sock_state \<Rightarrow> 'w \<Rightarrow>
   (bool \<times> sock_state \<times> 'w) outcome option" where
  "FILE_download net fs fresh src dst data mode st w =
     (case scan_url src of
        None \<Rightarrow> Some (Inr (False, st, w))
      | Some (host, port, path) \<Rightarrow>
          map_option (\<lambda>r. obind r (\<lambda>(content, st, w).
            case content of
              None \<Rightarrow> Inr (False, st, w)
            | Some text \<Rightarrow>
                (case fl_open fs dst mode w of
                   (False, w) \<Rightarrow> Inr (False, st, w)
                 | (True, w) \<Rightarrow>
                     (case (if text = [] then (False, w) else fl_write fs dst text w) of
                        (ok, w) \<Rightarrow>
                          (case fl_close fs dst w of (closed, w) \<Rightarrow> Inr (ok \<and> closed, st, w))))))
            (HTTP_CLIENT_get_content net fresh host path port (contains src ''https://'') data st w))"

text \<open>The result names the file that is open; \<open>rnd\<close> are the numbers that name the temporary file.\<close>

definition temp_name :: "(nat \<Rightarrow> nat) \<Rightarrow> string outcome" where
  "temp_name rnd =
     (case mkrndstr rnd 16 of
        None \<Rightarrow> Inl Null_pointer
      | Some s \<Rightarrow>
          (case strlcat (s @ replicate 12 NUL) ''.dcpam_temp'' 28 of
             None \<Rightarrow> Inl Out_of_bounds | Some (buf, _) \<Rightarrow> Inr (cstr_of buf)))"

definition FILE_open ::
  "'w net \<Rightarrow> 'w files \<Rightarrow> NET_CONN \<Rightarrow> (nat \<Rightarrow> nat) \<Rightarrow> string option \<Rightarrow> HTTP_DATA option \<Rightarrow> string \<Rightarrow> string \<Rightarrow>
   sock_state \<Rightarrow> 'w \<Rightarrow> (string option \<times> sock_state \<times> 'w) outcome option" where
  "FILE_open net fs fresh rnd filename data r_mode w_mode st w =
     (case filename of
        None \<Rightarrow> Some (Inr (None, st, w))
      | Some name \<Rightarrow>
          if contains name ''http://'' \<or> contains name ''https://''
          then
            (case temp_name rnd of
               Inl e \<Rightarrow> Some (Inl e)
             | Inr temp \<Rightarrow>
                 map_option (\<lambda>r. obind r (\<lambda>(ok, st, w).
                   if ok then (case fl_open fs temp r_mode w of (up, w) \<Rightarrow> Inr (if up then Some temp else None, st, w))
                   else Inr (None, st, w)))
                 (FILE_download net fs fresh name temp data w_mode st w))
          else (case fl_open fs name r_mode w of (up, w) \<Rightarrow> Some (Inr (if up then Some name else None, st, w))))"

text \<open>\<open>file_get_content\<close>: an empty file has no content.\<close>

definition file_get_content :: "string option \<Rightarrow> string option" where
  "file_get_content file = (case file of Some (c # cs) \<Rightarrow> Some (c # cs) | _ \<Rightarrow> None)"

section \<open>What is requested\<close>

lemma cstr_split:
  assumes "cstr_of buf = s" "length s < length buf"
  obtains r where "buf = s @ NUL # r" "cstring s"
proof -
  have "buf = takeWhile (\<lambda>c. c \<noteq> NUL) buf @ dropWhile (\<lambda>c. c \<noteq> NUL) buf" by simp
  moreover obtain x xs where d: "dropWhile (\<lambda>c. c \<noteq> NUL) buf = x # xs"
    using assms unfolding cstr_of_def by (metis append_Nil2 list.exhaust less_irrefl takeWhile_dropWhile_id)
  moreover have "x = NUL" using hd_dropWhile [of "\<lambda>c. c \<noteq> NUL" buf] d by simp
  ultimately have "buf = s @ NUL # xs" using assms(1) by (metis cstr_of_def)
  moreover have "cstring s" using assms(1) unfolding cstr_of_def cstring_def by (metis set_takeWhileD)
  ultimately show thesis using that by blast
qed

lemma append_all_fits:
  "cstr_of buf = s \<Longrightarrow> length (s @ concat ss) < n \<Longrightarrow> n \<le> length buf \<Longrightarrow> \<forall>x \<in> set ss. cstring x \<Longrightarrow>
   \<exists>buf'. append_all n ss buf = Inr buf' \<and> cstr_of buf' = s @ concat ss \<and> length buf' = length buf"
proof (induction ss arbitrary: s buf)
  case (Cons x ss)
  have "length s < length buf" using Cons.prems(2,3) by simp
  from cstr_split [OF Cons.prems(1) this] obtain r where b: "buf = s @ NUL # r" "cstring s" by blast
  have "length s < n" "n \<le> length (s @ NUL # r)" "cstring x"
    using Cons.prems(2-4) b(1) by simp_all
  from strlcat_eq [OF b(2) this(3,1,2)] obtain buf1 where
    l: "strlcat buf x n = Some (buf1, length s + length x)" "length buf1 = length buf" "cstr_of buf1 = take (n - 1) (s @ x)"
    unfolding b(1) [symmetric] by blast
  have c: "cstr_of buf1 = s @ x" using l(3) Cons.prems(2) by simp
  have "length ((s @ x) @ concat ss) < n" "n \<le> length buf1" "\<forall>y \<in> set ss. cstring y"
    using Cons.prems(2-4) l(2) by simp_all
  from Cons.IH [OF c this] show ?case using l(1,2) by simp
qed simp

lemma length_header_lines: "length (concat (map header_line hs)) = sum_list (map (\<lambda>(n, v). length n + length v + 4) hs)"
  by (induction hs) (auto simp: header_line_def crlf_def)

definition first_lines :: "string \<Rightarrow> string \<Rightarrow> string \<Rightarrow> string" where
  "first_lines m host path =
     m @ '' /'' @ path @ '' HTTP/1.1'' @ crlf @ ''Host: '' @ host @ crlf @ ''Connection: close'' @ crlf"

lemma first_lines_facts:
  "sfmt request_format [m, path, host] = first_lines m host path"
  "length (first_lines m host path) = length m + length path + length host + 40"
  "cstring m \<Longrightarrow> cstring path \<Longrightarrow> cstring host \<Longrightarrow> cstring (first_lines m host path)"
  by (simp_all add: request_format_def first_lines_def crlf_def cstring_def)

definition payload_part :: "string \<Rightarrow> string list" where
  "payload_part p = (if p = [] then [] else [p])"

lemma payload_part_facts [simp]: "concat (payload_part p) = p" "set (payload_part p) \<subseteq> {p}"
  by (simp_all add: payload_part_def)

definition request_text :: "HTTP_DATA \<Rightarrow> string \<Rightarrow> string \<Rightarrow> string \<Rightarrow> string \<Rightarrow> string" where
  "request_text d m host path payload =
     first_lines m host path @ concat (map header_line (http_headers d)) @ crlf @ payload"

lemma http_request_eq:
  assumes "http_method d = Some m" "cstring m" "cstring path" "cstring host"
    "\<forall>(n, v) \<in> set (http_headers d). cstring n \<and> cstring v"
    "http_payload_len d = length payload" "payload \<noteq> [] \<longrightarrow> http_payload d = Some payload" "cstring payload"
    "length m + length path + length host \<le> 980"
  shows "http_request (Some d) host path = Inr (request_text d m host path payload)"
proof -
  define n where "n = send_data_len d"
  define F where "F = first_lines m host path"
  let ?parts = "map header_line (http_headers d) @ crlf # payload_part payload"
  have "length F + length (concat ?parts) < n"
    using assms(6,9) by (simp add: n_def F_def first_lines_facts send_data_len_def length_header_lines crlf_def)
  moreover have f: "snprintf_s (n + 1) request_format [m, path, host] = F"
    using assms(6,9) by (simp add: snprintf_s_def first_lines_facts F_def n_def send_data_len_def)
  moreover have "cstring F" using assms(2-4) by (simp add: F_def first_lines_facts)
  moreover have "\<forall>x \<in> set ?parts. cstring x"
    using assms(5,8) by (auto simp: header_line_def crlf_def cstring_def payload_part_def)
  moreover have "cstr_of (F @ replicate (n + 1 - length F) NUL) = F"
    using \<open>cstring F\<close> cstr_of_NUL [of F] \<open>length F + _ < n\<close> by (metis Suc_diff_le Suc_eq_plus1 add_lessD1 less_imp_le replicate_Suc)
  ultimately obtain buf where "append_all n ?parts (F @ replicate (n + 1 - length F) NUL) = Inr buf"
    "cstr_of buf = F @ concat ?parts"
    using append_all_fits [of "F @ replicate (n + 1 - length F) NUL" F ?parts n] by auto
  then show ?thesis
    using assms(1,6,7) f
    by (cases "payload = []") (simp_all add: http_request_def deref_def Let_def request_text_def payload_part_def n_def F_def)
qed

section \<open>What is kept of the response\<close>

lemma written_Some [simp]: "written (map Some s) = Inr s"
  by (induction s) simp_all

text \<open>
  A response as a server writes it: the status line with any reason phrase, header lines before and after the one with
  the length of the body, an empty line, the body.
\<close>

definition http_lines :: "string list \<Rightarrow> string" where
  "http_lines ls = concat (map (\<lambda>l. l @ crlf) ls)"

definition response_of :: "string \<Rightarrow> string list \<Rightarrow> nat \<Rightarrow> string list \<Rightarrow> string \<Rightarrow> string" where
  "response_of reason before n after body =
     http_lines ((''HTTP/1.1 200'' @ reason) # before @ (''Content-Length: '' @ show_nat n) # after) @ crlf @ body"

text \<open>The reason phrase does not continue the number; no line is empty, has a CR or a NUL, or names the length first.\<close>

definition headers_ok :: "string \<Rightarrow> string list \<Rightarrow> string list \<Rightarrow> bool" where
  "headers_ok reason before after \<longleftrightarrow>
     (reason = [] \<or> \<not> is_digit (hd reason)) \<and> CR \<notin> set reason \<and> cstring reason \<and>
     (\<forall>l \<in> set (before @ after). l \<noteq> [] \<and> CR \<notin> set l \<and> cstring l) \<and>
     (\<forall>l \<in> set ((''HTTP/1.1 200'' @ reason) # before). \<not> contains l ''Content-Length:'')"

lemma http_lines_simps [simp]:
  "http_lines [] = []" "http_lines (l # ls) = l @ CR # NL # http_lines ls"
  "http_lines (xs @ ys) = http_lines xs @ http_lines ys"
  by (simp_all add: http_lines_def crlf_def)

lemma code_of_response:
  assumes "reason = [] \<or> \<not> is_digit (hd reason)"
  shows "response_code (''HTTP/1.1 200'' @ reason @ CR # r) = Some 200"
proof -
  have "take 999 (''200'' @ reason @ CR # r) = ''200'' @ take 996 (reason @ CR # r)" by simp
  moreover have "takeWhile is_digit (take 996 (reason @ CR # r)) = []"
    using assms by (cases reason) (simp_all add: is_digit_def)
  then have "scan_int (''200'' @ take 996 (reason @ CR # r)) = Some (200, take 996 (reason @ CR # r))"
    by (simp add: scan_int_def is_space_def is_digit_def digits_val_def Let_def)
  ultimately show ?thesis
    by (simp add: response_code_def scan_lit_def is_space_def)
qed

text \<open>A name without CR and NL is not found across the end of a line.\<close>

lemma prefix_line: "prefix p (l @ CR # r) \<Longrightarrow> CR \<notin> set p \<Longrightarrow> prefix p l"
  by (induction l arbitrary: p) (case_tac p; auto)+

lemma strstr_line:
  assumes "CR \<notin> set (c # p)" "c \<noteq> NL" "\<not> contains l (c # p)"
  shows "strstr (l @ CR # NL # r) (c # p) = map_option (\<lambda>k. length l + 2 + k) (strstr r (c # p))"
  using assms(3)
proof (induction l)
  case Nil
  show ?case using assms(1,2) by (cases "strstr r (c # p)") auto
next
  case (Cons x l)
  have "\<not> prefix (c # p) ((x # l) @ CR # NL # r)"
    using prefix_line [of "c # p" "x # l" "NL # r"] assms(1) Cons.prems
    by (auto simp: contains_def split: if_splits)
  moreover have "\<not> contains l (c # p)" using Cons.prems by (auto simp: contains_def split: if_splits)
  ultimately show ?case using Cons.IH by (cases "strstr r (c # p)") auto
qed

lemma strstr_lines:
  assumes "CR \<notin> set (c # p)" "c \<noteq> NL"
  shows "\<forall>l \<in> set ls. \<not> contains l (c # p) \<Longrightarrow>
    strstr (http_lines ls @ r) (c # p) = map_option (\<lambda>k. length (http_lines ls) + k) (strstr r (c # p))"
proof (induction ls)
  case (Cons l ls)
  have "strstr (http_lines (l # ls) @ r) (c # p) =
      map_option (\<lambda>k. length l + 2 + k) (strstr (http_lines ls @ r) (c # p))"
    using strstr_line [OF assms, of l "http_lines ls @ r"] Cons.prems by simp
  with Cons show ?case by (cases "strstr r (c # p)") auto
qed (cases "strstr r (c # p)"; simp)

text \<open>The end of the headers is the first empty line.\<close>

lemma strstr_next_line:
  "strstr s (crlf @ crlf) = Some i \<Longrightarrow> hd s \<noteq> CR \<Longrightarrow> strstr (CR # NL # s) (crlf @ crlf) = Some (2 + i)"
  by (cases s) (auto simp: crlf_def)

lemma strstr_headers:
  "ls \<noteq> [] \<Longrightarrow> \<forall>l \<in> set ls. l \<noteq> [] \<and> CR \<notin> set l \<Longrightarrow>
   \<exists>i. strstr (http_lines ls @ crlf @ body) (crlf @ crlf) = Some i \<and> i + 2 = length (http_lines ls)"
proof (induction ls)
  case (Cons l ls)
  have skip: "strstr (http_lines (l # ls) @ crlf @ body) (crlf @ crlf) =
      map_option (\<lambda>k. length l + k) (strstr (CR # NL # http_lines ls @ crlf @ body) (crlf @ crlf))"
    using strstr_skip [of CR l "CR # NL # http_lines ls @ crlf @ body" "NL # crlf"] Cons.prems(2) by (simp add: crlf_def)
  show ?case
  proof (cases ls)
    case Nil
    then show ?thesis unfolding skip by (simp add: crlf_def)
  next
    case (Cons m ms)
    with Cons.prems(2) obtain x xs where x: "http_lines ls @ crlf @ body = x # xs" "x \<noteq> CR" by (cases m) auto
    from Cons.IH Cons.prems(2) \<open>ls = m # ms\<close> obtain i where
      i: "strstr (http_lines ls @ crlf @ body) (crlf @ crlf) = Some i" "i + 2 = length (http_lines ls)" by auto
    have e: "strstr (CR # NL # http_lines ls @ crlf @ body) (crlf @ crlf) = Some (2 + i)"
      by (rule strstr_next_line [OF i(1)]) (simp add: x)
    show ?thesis unfolding skip e using i(2) by simp
  qed
qed simp

lemma scan_int_space: "scan_int (CHR '' '' # s) = scan_int s"
  by (simp add: scan_int_def is_space_def)

lemma length_of_response:
  assumes "n < 2 ^ 64" "headers_ok reason before after"
  shows "HTTP_CLIENT_get_ContentLength (response_of reason before n after body) = n"
proof -
  let ?h = "http_lines ((''HTTP/1.1 200'' @ reason) # before)" and ?r = "CR # NL # http_lines after @ crlf @ body"
  have r: "response_of reason before n after body = ?h @ ''Content-Length: '' @ show_nat n @ ?r"
    by (simp add: response_of_def)
  have "strstr (''Content-Length: '' @ show_nat n @ ?r) ''Content-Length:'' = Some 0"
    by (cases "show_nat n") simp_all
  then have i: "strstr (response_of reason before n after body) ''Content-Length:'' = Some (length ?h)"
    using strstr_lines [of "CHR ''C''" "''ontent-Length:''" "(''HTTP/1.1 200'' @ reason) # before"
        "''Content-Length: '' @ show_nat n @ ?r"] assms(2)
    unfolding r by (simp add: headers_ok_def del: http_lines_simps)
  have "scan_int (show_nat n @ ?r) = Some (int n, ?r)"
    by (rule scan_int_show_nat) (simp add: is_digit_def)
  moreover have "dropWhile (\<lambda>c. \<not> is_space c) (''Content-Length: '' @ x) = CHR '' '' # x" for x
    by (simp add: is_space_def)
  moreover have "drop (length ?h) (response_of reason before n after body) = ''Content-Length: '' @ show_nat n @ ?r"
    unfolding r by (simp del: http_lines_simps)
  ultimately show ?thesis
    using assms(1) by (simp only: HTTP_CLIENT_get_ContentLength_def i option.case scan_int_space) simp
qed

lemma body_of_strstr:
  "strstr s (crlf @ crlf) = Some i \<Longrightarrow> NUL \<notin> set (take i s) \<Longrightarrow>
   body_of (map Some s) = Inr (Some (map Some (drop (i + 4) s)))"
proof (induction s arbitrary: i)
  case (Cons c s)
  have four: "prefix (crlf @ crlf) (c # s) \<longleftrightarrow> take 4 (c # s) = crlf @ crlf"
    by (auto simp: crlf_def prefix_def) (metis append_take_drop_id append_Cons append_Nil)
  have eq: "take 4 (map Some (c # s)) = map Some (crlf @ crlf) \<longleftrightarrow> take 4 (c # s) = crlf @ crlf"
    by (metis (no_types) inj_Some list.inj_map_strong option.inject take_map)
  show ?case
  proof (cases "prefix (crlf @ crlf) (c # s)")
    case True
    with Cons.prems(1) four eq show ?thesis by (simp add: drop_map)
  next
    case False
    with Cons.prems obtain j where "strstr s (crlf @ crlf) = Some j" "i = Suc j" by auto
    moreover from this Cons.prems(2) have "c \<noteq> NUL" "NUL \<notin> set (take j s)" by auto
    ultimately show ?thesis using Cons.IH [of j] False four eq by (simp add: eval_nat_numeral)
  qed
qed (simp add: crlf_def)

lemma show_nat_plain: "CR \<notin> set (show_nat n)" "NUL \<notin> set (show_nat n)"
  using show_nat_digits [of n] by (auto simp: is_digit_def)

lemma length_crlf2: "length (crlf @ crlf) = 4"
  by (simp add: crlf_def)

lemma response_split:
  assumes "headers_ok reason before after"
  obtains h where "response_of reason before n after body = h @ crlf @ crlf @ body" "cstring h"
    "strstr (response_of reason before n after body) (crlf @ crlf) = Some (length h)"
proof -
  let ?ls = "(''HTTP/1.1 200'' @ reason) # before @ (''Content-Length: '' @ show_nat n) # after"
  have ok: "\<forall>l \<in> set ?ls. l \<noteq> [] \<and> CR \<notin> set l" "\<forall>l \<in> set ?ls. cstring l"
    using assms show_nat_plain by (auto simp: headers_ok_def cstring_def)
  from strstr_headers [OF _ ok(1), of body] obtain i where
    i: "strstr (http_lines ?ls @ crlf @ body) (crlf @ crlf) = Some i" "i + 2 = length (http_lines ?ls)" by blast
  obtain H where H: "http_lines ?ls = H" by blast
  let ?h = "take i H"
  note i = i [unfolded H]
  have "take i (H @ crlf @ body) = ?h" using i(2) by simp
  moreover have "i + 4 = length (H @ crlf)" using i(2) by (simp add: crlf_def)
  then have "drop (i + 4) (H @ crlf @ body) = body" by (metis append_assoc append_eq_conv_conj)
  ultimately have "H @ crlf @ body = ?h @ crlf @ crlf @ body"
    using strstr_Some_split [OF i(1)] by (metis append_assoc length_crlf2)
  moreover have "cstring (http_lines ls)" if "\<forall>l \<in> set ls. cstring l" for ls using that by (induction ls) auto
  then have "cstring ?h" using ok(2) unfolding H [symmetric] by (intro cstring_take) blast
  moreover have "length ?h = i" using i(2) by simp
  ultimately show thesis using that [of ?h] i(1) unfolding response_of_def H by simp
qed

lemma body_of_response:
  assumes "headers_ok reason before after"
  shows "body_of (map Some (response_of reason before n after body)) = Inr (Some (map Some body))"
proof -
  from response_split [OF assms] obtain h where h: "response_of reason before n after body = h @ crlf @ crlf @ body" "cstring h"
    "strstr (response_of reason before n after body) (crlf @ crlf) = Some (length h)" by blast
  have "NUL \<notin> set (take (length h) (response_of reason before n after body))" using h(1,2) by (auto simp: cstring_def)
  moreover have "drop (length h + 4) (response_of reason before n after body) = body" by (simp add: h(1) crlf_def)
  ultimately show ?thesis using body_of_strstr [OF h(3)] by simp
qed

lemma http_body_response:
  assumes "headers_ok reason before after"
  shows "http_body (map Some (response_of reason before n after body)) k =
    (if k \<le> length body then Inr (take k body) else Inl Out_of_bounds)"
  by (simp add: http_body_def body_of_response [OF assms] take_map)

lemma cstr_response:
  assumes "headers_ok reason before after"
  shows "cstr_of (response_of reason before n after body) = response_of reason before n after (cstr_of body)"
proof -
  let ?h = "http_lines ((''HTTP/1.1 200'' @ reason) # before @ (''Content-Length: '' @ show_nat n) # after) @ crlf"
  have "cstring (http_lines ls)" if "\<forall>l \<in> set ls. cstring l" for ls using that by (induction ls) auto
  moreover have "\<forall>l \<in> set ((''HTTP/1.1 200'' @ reason) # before @ (''Content-Length: '' @ show_nat n) # after). cstring l"
    using assms show_nat_plain by (auto simp: headers_ok_def cstring_def)
  ultimately have "cstring ?h" unfolding cstring_append by (simp add: crlf_def del: http_lines_simps)
  then have "cstr_of (?h @ x) = ?h @ cstr_of x" for x unfolding cstr_of_def cstring_def by (intro takeWhile_append2) auto
  then show ?thesis unfolding response_of_def by (metis append_assoc)
qed

lemma response_text_any: "response_text (map Some s @ [Some NUL]) = Inr (cstr_of s)"
  by (induction s) (simp_all add: cstr_of_def)

lemma get_content_of_response:
  assumes "NET_CONN_init net fresh host port secure w = (True, c1, w1)" "NET_CONN_connect net c1 host port secure w1 = (True, c2, w2)"
    "nc_initialized c2" "nc_connected c2" "http_request data host path = Inr req"
    "net_send net (nc_cSSL c2) (nc_socket c2) req w2 = (True, w3)" "delivers net (nc_cSSL c2) (nc_socket c2) cs w3 w4"
    "\<forall>b \<in> set (butlast cs). length b = RECV_LEN" "headers_ok reason before after" "concat cs = response_of reason before n after body" "n < 2 ^ 64"
    "SOCKET_close (net_os net) (nc_socket c2) (SOCKET_unregister_client (nc_socket c2) st) w4 = (st', w5)"
  shows "HTTP_CLIENT_get_content net fresh host path port secure data st w =
    Some (if n \<le> length body then Inr (Some (take n body), st', w5) else Inl Out_of_bounds)"
proof -
  let ?r = "response_of reason before n after body"
  have send: "NET_CONN_send net c2 req w2 =
      Some (True, c2\<lparr>nc_response := Some (map Some ?r @ [Some NUL]), nc_response_len := length ?r\<rparr>, w4)"
    using NET_CONN_send_full [OF assms(3,4,6-8)] assms(10) by simp
  have code: "response_code (cstr_of ?r) = Some 200"
    using code_of_response [of reason] assms(9) unfolding cstr_response [OF assms(9)] unfolding response_of_def
    by (simp add: headers_ok_def)
  have len: "HTTP_CLIENT_get_ContentLength (cstr_of ?r) = n" "length ?r \<noteq> 0"
    using length_of_response [OF assms(11,9)] by (simp_all add: cstr_response [OF assms(9)]) (simp add: response_of_def)
  show ?thesis
    unfolding HTTP_CLIENT_get_content_def assms(1,2,5) prod.case bool.case sum.case send
    using code len assms(12)
    by (simp add: response_text_any http_body_response [OF assms(9)] NET_CONN_disconnect_def Let_def split_def)
qed

text \<open>
  C20: the request of a download is complete: as long as the method, the path and the host have at most 980
  characters together, the buffer holds the request line, the two fixed headers, every configured header,
  the empty line and the whole payload, whatever the length of the headers and of the payload.
\<close>

theorem request_is_complete:
  assumes "http_method d = Some m" "cstring m" "cstring path" "cstring host"
    "\<forall>(n, v) \<in> set (http_headers d). cstring n \<and> cstring v"
    "http_payload_len d = length payload" "payload \<noteq> [] \<longrightarrow> http_payload d = Some payload" "cstring payload"
    "length m + length path + length host \<le> 980"
  shows "http_request (Some d) host path =
    Inr (m @ '' /'' @ path @ '' HTTP/1.1'' @ crlf @ ''Host: '' @ host @ crlf @ ''Connection: close'' @ crlf @
         concat (map (\<lambda>(n, v). n @ '': '' @ v @ crlf) (http_headers d)) @ crlf @ payload)"
proof -
  have "concat (map (\<lambda>(n, v). n @ '': '' @ v @ crlf) hs) = concat (map header_line hs)" for hs :: "(string \<times> string) list"
    by (induction hs) (auto simp: header_line_def)
  then show ?thesis
    using http_request_eq [OF assms] by (simp add: request_text_def first_lines_def)
qed

text \<open>
  C19: A download saves the body: when the server answers with \<open>HTTP/1.1 200\<close>, any reason phrase, any header lines and
  among them one \<open>Content-Length:\<close>, written so and followed by a blank and the length of the body, \<open>FILE_download\<close>
  writes exactly that body to the file and succeeds. The body is not empty (nothing is written for an empty one, which
  is a failure) and shorter than 2^64; no header line is empty or has a CR or a NUL; the response arrives in full
  blocks, the last of them excepted; connecting, sending, opening, writing and closing succeed.
\<close>

theorem download_saves_the_body:
  assumes "scan_url src = Some (host, port, path)"
    "NET_CONN_init net fresh host port (contains src ''https://'') w = (True, c1, w1)"
    "NET_CONN_connect net c1 host port (contains src ''https://'') w1 = (True, c2, w2)"
    "nc_initialized c2" "nc_connected c2" "http_request data host path = Inr req"
    "net_send net (nc_cSSL c2) (nc_socket c2) req w2 = (True, w3)" "delivers net (nc_cSSL c2) (nc_socket c2) cs w3 w4"
    "\<forall>b \<in> set (butlast cs). length b = RECV_LEN" "headers_ok reason before after"
    "concat cs = response_of reason before (length body) after body" "body \<noteq> []" "length body < 2 ^ 64"
    "SOCKET_close (net_os net) (nc_socket c2) (SOCKET_unregister_client (nc_socket c2) st) w4 = (st', w5)"
    "fl_open fs dst mode w5 = (True, w6)" "fl_write fs dst body w6 = (True, w7)" "fl_close fs dst w7 = (True, w8)"
  shows "FILE_download net fs fresh src dst data mode st w = Some (Inr (True, st', w8))"
  using get_content_of_response [OF assms(2-11,13,14)] assms(1,12,15-17)
  by (simp add: FILE_download_def)

text \<open>
  The stated length is trusted: a response that announces more bytes than it carries makes the client
  read behind the copy of the response.
\<close>

theorem long_content_length_reads_out_of_bounds:
  assumes "NET_CONN_init net fresh host port secure w = (True, c1, w1)" "NET_CONN_connect net c1 host port secure w1 = (True, c2, w2)"
    "nc_initialized c2" "nc_connected c2" "http_request data host path = Inr req"
    "net_send net (nc_cSSL c2) (nc_socket c2) req w2 = (True, w3)" "delivers net (nc_cSSL c2) (nc_socket c2) cs w3 w4"
    "\<forall>b \<in> set (butlast cs). length b = RECV_LEN" "headers_ok reason before after"
    "concat cs = response_of reason before n after body" "length body < n" "n < 2 ^ 64"
  shows "HTTP_CLIENT_get_content net fresh host path port secure data st w = Some (Inl Out_of_bounds)"
  using get_content_of_response [OF assms(1-10,12) surjective_pairing] assms(11) by simp

section \<open>What a URL means\<close>

lemma scan_host: "host \<noteq> [] \<Longrightarrow> CHR '':'' \<notin> set host \<Longrightarrow> length host \<le> n \<Longrightarrow>
    scan_until n (CHR '':'') (host @ CHR '':'' # r) = Some (host, CHR '':'' # r)"
  using takeWhile_prefix [of host "\<lambda>x. x \<noteq> CHR '':''" "CHR '':''" r] by (fastforce simp: scan_until_def)

lemma scan_path: "p \<noteq> [] \<Longrightarrow> \<forall>c \<in> set p. \<not> is_space c \<Longrightarrow> length p \<le> n \<Longrightarrow> scan_word n p = Some (p, [])"
proof -
  assume a: "p \<noteq> []" "\<forall>c \<in> set p. \<not> is_space c" "length p \<le> n"
  then have d: "dropWhile is_space p = p" by (cases p) simp_all
  have t: "takeWhile (\<lambda>c. \<not> is_space c) p = p" using a(2) by (simp add: takeWhile_eq_all_conv)
  show ?thesis unfolding scan_word_def d Let_def t using a(1,3) by simp
qed

text \<open>
  A URL is taken apart into host, port and path, and the path keeps its slash, to which the request line
  adds another: for \<open>http://h:80/x\<close> the server is asked for \<open>//x\<close>.
\<close>

theorem url_path_gets_a_second_slash:
  assumes "host \<noteq> []" "CHR '':'' \<notin> set host" "hd host \<noteq> CHR ''/''" "length host \<le> 99" "\<forall>c \<in> set p. \<not> is_space c" "length p < 1023"
  shows "scan_url (''http://'' @ host @ '':'' @ show_nat port @ ''/'' @ p) = Some (host, int port, ''/'' @ p) \<and>
    prefix (m @ '' //'' @ p @ '' HTTP/1.1'') (sfmt request_format [m, ''/'' @ p, host])"
proof
  let ?src = "''http://'' @ host @ '':'' @ show_nat port @ ''/'' @ p"
  have n: "scan_int (show_nat port @ ''/'' @ p) = Some (int port, ''/'' @ p)"
    by (rule scan_int_show_nat) (simp add: is_digit_def)
  have w: "scan_word 1023 (''/'' @ p) = Some (''/'' @ p, [])"
    by (rule scan_path) (use assms in \<open>auto simp: is_space_def\<close>)
  have s: "scan_until (length ?src) (CHR '':'') ?src = Some (''http'', ''://'' @ host @ '':'' @ show_nat port @ ''/'' @ p)"
    by (simp add: scan_until_def)
  obtain c cs where h: "host = c # cs" using assms(1) by (cases host) auto
  with assms(2,3) have "c \<noteq> CHR '':''" "c \<noteq> CHR ''/''" by auto
  then have d: "dropWhile (\<lambda>c. c = CHR '':'' \<or> c = CHR ''/'') (''://'' @ host @ '':'' @ show_nat port @ ''/'' @ p) =
      host @ CHR '':'' # show_nat port @ ''/'' @ p" by (simp add: h)
  have ne: "host @ CHR '':'' # show_nat port @ ''/'' @ p \<noteq> ''://'' @ host @ '':'' @ show_nat port @ ''/'' @ p"
    using h \<open>c \<noteq> CHR '':''\<close> by simp
  show "scan_url ?src = Some (host, int port, ''/'' @ p)"
    unfolding scan_url_def s option.case prod.case d Let_def scan_host [OF assms(1,2,4)]
    using ne n w by (simp add: scan_lit_def)
  show "prefix (m @ '' //'' @ p @ '' HTTP/1.1'') (sfmt request_format [m, ''/'' @ p, host])"
    unfolding first_lines_facts first_lines_def by (simp add: prefix_def)
qed

section \<open>Concrete inputs\<close>

definition demo_http :: HTTP_DATA where
  "demo_http = \<lparr>http_active = 1, http_headers = [(''Accept'', ''*'')], http_payload = Some ''q=1'', http_payload_len = 3,
                http_method = Some ''POST''\<rparr>"

theorem request_is_complete_witness:
  "\<exists>r. http_request (Some demo_http) ''h'' ''p'' = Inr r \<and> suffix (''Accept: *'' @ crlf @ crlf @ ''q=1'') r"
  using request_is_complete [of demo_http "''POST''" "''p''" "''h''" "''q=1''"]
  by (simp add: demo_http_def cstring_def suffix_def crlf_def)

definition demo_files :: "(string list \<times> int list) files" where
  "demo_files = \<lparr>fl_open = (\<lambda>n m w. (True, w)), fl_write = (\<lambda>n s w. (True, w)), fl_close = (\<lambda>n w. (True, w))\<rparr>"

abbreviation demo_init :: "string list \<Rightarrow> bool \<times> NET_CONN \<times> string list \<times> int list" where
  "demo_init cs \<equiv> NET_CONN_init (demo_net True) demo_conn ''h'' 80 False (cs, [])"

abbreviation demo_up :: "string list \<Rightarrow> bool \<times> NET_CONN \<times> string list \<times> int list" where
  "demo_up cs \<equiv> NET_CONN_connect (demo_net True) (fst (snd (demo_init cs))) ''h'' 80 False (snd (snd (demo_init cs)))"

lemma demo_steps:
  "demo_init cs = (True, fst (snd (demo_init cs)), snd (snd (demo_init cs)))"
  "demo_up cs = (True, fst (snd (demo_up cs)), snd (snd (demo_up cs)))"
  "nc_initialized (fst (snd (demo_up cs)))" "nc_connected (fst (snd (demo_up cs)))"
  "fst (snd (snd (demo_up cs))) = cs"
  by (simp_all add: demo_net_def NET_CONN_init_def NET_CONN_connect_def conn_target_def Let_def fresh_fd_def)

abbreviation demo_response :: "nat \<Rightarrow> string" where
  "demo_response n \<equiv> response_of '' OK'' [''Server: x''] n [''Content-Type: text/csv''] ''ok''"

lemma demo_headers: "headers_ok '' OK'' [''Server: x''] [''Content-Type: text/csv'']"
  by code_simp

lemma demo_response_size: "length (demo_response 2) \<le> RECV_LEN" "length (demo_response 3) \<le> RECV_LEN" "demo_response n \<noteq> []"
  using length_show_nat(1) [of 2] length_show_nat(1) [of 3] by (simp_all add: response_of_def crlf_def RECV_LEN_def)

theorem download_saves_the_body_witness:
  "\<exists>st w. FILE_download (demo_net True) demo_files demo_conn ''http://h:80/x'' ''t'' (Some demo_http) ''w'' demo_sock
     ([demo_response 2], []) = Some (Inr (True, st, w))"
proof -
  let ?cs = "[demo_response 2]"
  let ?c = "fst (snd (demo_up ?cs))" and ?w = "snd (snd (demo_up ?cs))"
  have u: "scan_url ''http://h:80/x'' = Some (''h'', 80, ''/x'')" by code_simp
  have s: "contains ''http://h:80/x'' ''https://'' = False" by code_simp
  obtain req where req: "http_request (Some demo_http) ''h'' ''/x'' = Inr req"
    using http_request_eq [of demo_http "''POST''" "''/x''" "''h''" "''q=1''"] by (simp add: demo_http_def cstring_def)
  have send: "net_send (demo_net True) (nc_cSSL ?c) (nc_socket ?c) req ?w = (True, ?w)" by (simp add: demo_net_def)
  have del: "delivers (demo_net True) (nc_cSSL ?c) (nc_socket ?c) ?cs ?w ([], snd ?w)"
    using demo_steps(5) [of ?cs] demo_response_size by (cases ?w) (simp add: demo_net_def)
  obtain st w where cl: "SOCKET_close (net_os (demo_net True)) (nc_socket ?c)
      (SOCKET_unregister_client (nc_socket ?c) demo_sock) ([], snd ?w) = (st, w)" by (meson surj_pair)
  have i: "NET_CONN_init (demo_net True) demo_conn ''h'' 80 (contains ''http://h:80/x'' ''https://'') (?cs, []) =
      (True, fst (snd (demo_init ?cs)), snd (snd (demo_init ?cs)))"
    unfolding s by (rule demo_steps)
  have c: "NET_CONN_connect (demo_net True) (fst (snd (demo_init ?cs))) ''h'' 80 (contains ''http://h:80/x'' ''https://'')
      (snd (snd (demo_init ?cs))) = (True, ?c, ?w)"
    unfolding s by (rule demo_steps)
  have "FILE_download (demo_net True) demo_files demo_conn ''http://h:80/x'' ''t'' (Some demo_http) ''w'' demo_sock
     (?cs, []) = Some (Inr (True, st, w))"
    by (rule download_saves_the_body [OF u i c demo_steps(3,4) req send del _ demo_headers _ _ _ cl, where body = "''ok''"])
      (simp_all add: demo_files_def flip: numeral_2_eq_2)
  then show ?thesis by blast
qed

theorem long_content_length_reads_out_of_bounds_witness:
  "HTTP_CLIENT_get_content (demo_net True) demo_conn ''h'' ''/x'' 80 False (Some demo_http) demo_sock
     ([demo_response 3], []) = Some (Inl Out_of_bounds)"
proof -
  let ?cs = "[demo_response 3]"
  let ?c = "fst (snd (demo_up ?cs))" and ?w = "snd (snd (demo_up ?cs))"
  obtain req where req: "http_request (Some demo_http) ''h'' ''/x'' = Inr req"
    using http_request_eq [of demo_http "''POST''" "''/x''" "''h''" "''q=1''"] by (simp add: demo_http_def cstring_def)
  have send: "net_send (demo_net True) (nc_cSSL ?c) (nc_socket ?c) req ?w = (True, ?w)" by (simp add: demo_net_def)
  have del: "delivers (demo_net True) (nc_cSSL ?c) (nc_socket ?c) ?cs ?w ([], snd ?w)"
    using demo_steps(5) [of ?cs] demo_response_size by (cases ?w) (simp add: demo_net_def)
  show ?thesis
    by (rule long_content_length_reads_out_of_bounds [OF demo_steps(1-4) req send del _ demo_headers, where n = 3 and body = "''ok''"]) simp_all
qed

theorem url_path_gets_a_second_slash_witness:
  "scan_url (''http://h:'' @ show_nat 80 @ ''/x'') = Some (''h'', 80, ''/x'')"
  using url_path_gets_a_second_slash [of "''h''" "''x''" 80] by (simp add: is_space_def)

end
