(* ===== verification/Etl_Config.thy ===== *)
theory Etl_Config
  imports Db_System Lcs_Server
begin

text \<open>
  \<open>src/DCPAM_ETL/dcpam-etl.c\<close>: the configuration of the ETL (\<open>etl_config.json\<close>) read into the records
  of the data systems, the listener that answers the LCS, and the release at the end. \<open>cJSON_Parse\<close>
  and the file are parameters. Memory from \<open>malloc\<close> that the loader does not fill is an argument
  (\<open>mem_db\<close>, \<open>mem_ff\<close>), as in \<open>DATABASE_SYSTEM_add\<close>.
\<close>

section \<open>Reading a parsed node\<close>

text \<open>
  A part that may be missing: \<open>Inr None\<close> is the \<open>return FALSE\<close> of the loader at a key that is not
  there, \<open>Inl\<close> a fault.
\<close>

type_synonym 'a part = "'a option outcome"

definition pbind :: "'a part \<Rightarrow> ('a \<Rightarrow> 'b part) \<Rightarrow> 'b part" where
  "pbind m f = obind m (\<lambda>x. case x of None \<Rightarrow> Inr None | Some y \<Rightarrow> f y)"

lemma pbind_simps [simp]: "pbind (Inr (Some x)) f = f x" "pbind (Inr None) f = Inr None" "pbind (Inl e) f = Inl e"
  by (simp_all add: pbind_def)

fun each_part :: "('a \<Rightarrow> 'b part) \<Rightarrow> 'a list \<Rightarrow> 'b list part" where
  "each_part f [] = Inr (Some [])"
| "each_part f (x # xs) = pbind (f x) (\<lambda>y. pbind (each_part f xs) (\<lambda>ys. Inr (Some (y # ys))))"

text \<open>\<open>valueint\<close>: a number cut to the range of \<open>int\<close>, 1 for \<open>true\<close>, 0 for everything else.\<close>

definition valueint :: "json \<Rightarrow> int" where
  "valueint j =
     (case j of JNumber n \<Rightarrow> max (- (2 ^ 31)) (min (2 ^ 31 - 1) n) | JBool b \<Rightarrow> (if b then 1 else 0) | _ \<Rightarrow> 0)"

definition items :: "json \<Rightarrow> json list" where
  "items j = map snd (json_children j)"

text \<open>
  \<open>snprintf(dst, strlen(s) + 1, s)\<close>: the text is the format. A directive in it reads arguments that were
  not passed.
\<close>

fun format_copy :: "string \<Rightarrow> string outcome" where
  "format_copy [] = Inr []"
| "format_copy [c] = (if c = CHR ''%'' then Inl Uninitialised else Inr [c])"
| "format_copy (c # d # s) =
     (if c = CHR ''%'' then (if d = CHR ''%'' then obind (format_copy s) (\<lambda>r. Inr (c # r)) else Inl Uninitialised)
      else obind (format_copy (d # s)) (\<lambda>r. Inr (c # r)))"

definition need :: "json \<Rightarrow> string \<Rightarrow> json part" where
  "need j key = Inr (cJSON_GetObjectItem j key)"

definition text_of :: "json \<Rightarrow> string part" where
  "text_of j = obind (deref (valuestring j)) (\<lambda>s. Inr (Some s))"

definition format_of :: "json \<Rightarrow> string part" where
  "format_of j = obind (deref (valuestring j)) (\<lambda>s. obind (format_copy s) (\<lambda>t. Inr (Some t)))"

text \<open>A text whose key is read without a test for its absence.\<close>

definition text_at :: "json \<Rightarrow> string \<Rightarrow> string part" where
  "text_at j key = obind (deref (cJSON_GetObjectItem j key)) text_of"

definition format_at :: "json \<Rightarrow> string \<Rightarrow> string part" where
  "format_at j key = obind (deref (cJSON_GetObjectItem j key)) format_of"

section \<open>The parts of a query\<close>

text \<open>Optional, a list of statements: \<open>etl.pre_actions\<close> and \<open>etl.post_actions\<close>.\<close>

definition load_actions :: "json \<Rightarrow> string \<Rightarrow> string list part" where
  "load_actions etl key =
     (case cJSON_GetObjectItem etl key of None \<Rightarrow> Inr (Some []) | Some arr \<Rightarrow> each_part text_of (items arr))"

text \<open>
  Optional pairs. The copies are cut to 512 characters, whose terminator falls behind the field; a pair
  without one of its keys is left as \<open>malloc\<close> returned it, which is reported at once.
\<close>

definition load_replacement :: "json \<Rightarrow> (string \<times> string) part" where
  "load_replacement item =
     (case (cJSON_GetObjectItem item ''search'', cJSON_GetObjectItem item ''replace'') of
        (Some s, Some r) \<Rightarrow>
          pbind (text_of s) (\<lambda>s. pbind (text_of r) (\<lambda>r.
            if length s < 512 \<and> length r < 512 then Inr (Some (s, r)) else Inl Out_of_bounds))
      | _ \<Rightarrow> Inl Uninitialised)"

definition load_replacements :: "json \<Rightarrow> string \<Rightarrow> (string \<times> string) list part" where
  "load_replacements j key =
     (case cJSON_GetObjectItem j key of None \<Rightarrow> Inr (Some []) | Some arr \<Rightarrow> each_part load_replacement (items arr))"

definition load_extract_query :: "json \<Rightarrow> DB_SYSTEM_ETL_EXTRACT_QUERY part" where
  "load_extract_query j =
     pbind (pbind (need j ''primary_db'') format_of) (\<lambda>pdb.
     pbind (pbind (need j ''primary_db_sql'') text_of) (\<lambda>psql.
     pbind (load_replacements j ''primary_regex_replace'') (\<lambda>prep.
     pbind (pbind (need j ''secondary_db'') format_of) (\<lambda>sdb.
     pbind (load_replacements j ''secondary_regex_replace'') (\<lambda>srep.
     pbind (pbind (need j ''secondary_db_sql'') text_of) (\<lambda>ssql.
       Inr (Some \<lparr>eq_primary_db = Some pdb, eq_primary_db_sql = Some psql, eq_primary_db_result_replace = prep,
                  eq_primary_db_sql_len = length psql, eq_secondary_db = Some sdb, eq_secondary_db_sql = Some ssql,
                  eq_secondary_db_result_replace = srep, eq_secondary_db_sql_len = length ssql\<rparr>)))))))"

definition load_extract_inserted :: "json \<Rightarrow> DB_SYSTEM_ETL_EXTRACT_QUERY part" where
  "load_extract_inserted j = pbind (need j ''inserted'') load_extract_query"

definition load_extract_modified :: "json \<Rightarrow> DB_SYSTEM_ETL_EXTRACT_QUERY part" where
  "load_extract_modified j = pbind (need j ''modified'') load_extract_query"

definition load_extract_deleted :: "json \<Rightarrow> DB_SYSTEM_ETL_EXTRACT_QUERY part" where
  "load_extract_deleted j = pbind (need j ''deleted'') load_extract_query"

lemmas load_extract_parts = load_extract_inserted_def load_extract_modified_def load_extract_deleted_def

definition load_extract :: "json \<Rightarrow> DB_SYSTEM_ETL_EXTRACT part" where
  "load_extract etl =
     pbind (need etl ''extract'') (\<lambda>x.
     pbind (load_extract_inserted x) (\<lambda>i.
     pbind (load_extract_modified x) (\<lambda>m.
     pbind (load_extract_deleted x) (\<lambda>d.
       Inr (Some \<lparr>ex_inserted = i, ex_deleted = d, ex_modified = m\<rparr>)))))"

text \<open>The names are cut to 255 characters; there is room for 32, and no test.\<close>

definition load_values :: "json \<Rightarrow> string list part" where
  "load_values arr =
     (if MAX_ETL_COLUMNS < length (items arr) then Inl Out_of_bounds
      else pbind (each_part text_of (items arr)) (\<lambda>vs. Inr (Some (map (take (MAX_COLUMN_NAME_LEN - 1)) vs))))"

definition load_stage_query :: "json \<Rightarrow> DB_SYSTEM_ETL_STAGE_QUERY part" where
  "load_stage_query item =
     pbind (pbind (need item ''sql'') text_of) (\<lambda>sql.
     pbind (pbind (need item ''extracted_values'') load_values) (\<lambda>vs.
       Inr (Some \<lparr>sq_sql = Some sql, sq_sql_len = length sql, sq_extracted_values = vs\<rparr>)))"

definition load_list :: "(json \<Rightarrow> 'a part) \<Rightarrow> json \<Rightarrow> 'a list part" where
  "load_list f arr = each_part f (items arr)"

definition load_stage_inserted :: "json \<Rightarrow> DB_SYSTEM_ETL_STAGE_QUERY list part" where
  "load_stage_inserted j = pbind (need j ''inserted'') (load_list load_stage_query)"

definition load_stage_deleted :: "json \<Rightarrow> DB_SYSTEM_ETL_STAGE_QUERY list part" where
  "load_stage_deleted j = pbind (need j ''deleted'') (load_list load_stage_query)"

definition load_stage_modified :: "json \<Rightarrow> DB_SYSTEM_ETL_STAGE_QUERY list part" where
  "load_stage_modified j = pbind (need j ''modified'') (load_list load_stage_query)"

lemmas load_stage_parts = load_stage_inserted_def load_stage_modified_def load_stage_deleted_def

definition load_stage :: "json \<Rightarrow> DB_SYSTEM_ETL_STAGE option part" where
  "load_stage etl =
     (case cJSON_GetObjectItem etl ''stage'' of
        None \<Rightarrow> Inr (Some None)
      | Some st \<Rightarrow>
          pbind (load_stage_inserted st) (\<lambda>i.
          pbind (load_stage_deleted st) (\<lambda>d.
          pbind (load_stage_modified st) (\<lambda>m.
            Inr (Some (Some \<lparr>st_inserted = i, st_deleted = d, st_modified = m\<rparr>))))))"

definition load_transform_query :: "json \<Rightarrow> DB_SYSTEM_ETL_TRANSFORM_QUERY part" where
  "load_transform_query item =
     pbind (format_at item ''module'') (\<lambda>md.
     pbind (text_at item ''staged_data'') (\<lambda>st.
     pbind (text_at item ''source_system_update'') (\<lambda>up.
     pbind (text_at item ''api_key'') (\<lambda>key.
       Inr (Some \<lparr>tq_module = md, tq_staged_data = st, tq_source_system_update = Some up, tq_api_key = Some key\<rparr>)))))"

definition load_transform_inserted :: "json \<Rightarrow> DB_SYSTEM_ETL_TRANSFORM_QUERY list part" where
  "load_transform_inserted j = pbind (need j ''inserted'') (load_list load_transform_query)"

definition load_transform_deleted :: "json \<Rightarrow> DB_SYSTEM_ETL_TRANSFORM_QUERY list part" where
  "load_transform_deleted j = pbind (need j ''deleted'') (load_list load_transform_query)"

definition load_transform_modified :: "json \<Rightarrow> DB_SYSTEM_ETL_TRANSFORM_QUERY list part" where
  "load_transform_modified j = pbind (need j ''modified'') (load_list load_transform_query)"

lemmas load_transform_parts = load_transform_inserted_def load_transform_modified_def load_transform_deleted_def

definition load_transform :: "json \<Rightarrow> DB_SYSTEM_ETL_TRANSFORM option part" where
  "load_transform etl =
     (case cJSON_GetObjectItem etl ''transform'' of
        None \<Rightarrow> Inr (Some None)
      | Some tr \<Rightarrow>
          pbind (load_transform_inserted tr) (\<lambda>i.
          pbind (load_transform_deleted tr) (\<lambda>d.
          pbind (load_transform_modified tr) (\<lambda>m.
            Inr (Some (Some \<lparr>tr_inserted = i, tr_deleted = d, tr_modified = m\<rparr>))))))"

definition load_target :: "json \<Rightarrow> DB_SYSTEM_ETL_LOAD_QUERY_TARGET part" where
  "load_target item =
     pbind (pbind (need item ''output_data_sql'') text_of) (\<lambda>sql.
     pbind (pbind (need item ''extracted_values'') load_values) (\<lambda>vs.
       Inr (Some \<lparr>lt_output_data_sql = Some sql, lt_output_data_sql_len = length sql, lt_extracted_values = vs\<rparr>)))"

definition load_load_query :: "json \<Rightarrow> DB_SYSTEM_ETL_LOAD_QUERY part" where
  "load_load_query j =
     pbind (pbind (need j ''input_data_sql'') text_of) (\<lambda>sql.
     pbind (pbind (need j ''target'') (load_list load_target)) (\<lambda>ts.
       Inr (Some \<lparr>lq_input_data_sql = Some sql, lq_input_data_sql_len = length sql, lq_target = ts,
                  lq_target_count = length ts\<rparr>)))"

definition load_load_inserted :: "json \<Rightarrow> DB_SYSTEM_ETL_LOAD_QUERY part" where
  "load_load_inserted j = pbind (need j ''inserted'') load_load_query"

definition load_load_deleted :: "json \<Rightarrow> DB_SYSTEM_ETL_LOAD_QUERY part" where
  "load_load_deleted j = pbind (need j ''deleted'') load_load_query"

definition load_load_modified :: "json \<Rightarrow> DB_SYSTEM_ETL_LOAD_QUERY part" where
  "load_load_modified j = pbind (need j ''modified'') load_load_query"

lemmas load_load_parts = load_load_inserted_def load_load_modified_def load_load_deleted_def

definition load_load :: "json \<Rightarrow> DB_SYSTEM_ETL_LOAD part" where
  "load_load etl =
     pbind (need etl ''load'') (\<lambda>x.
     pbind (load_load_inserted x) (\<lambda>i.
     pbind (load_load_deleted x) (\<lambda>d.
     pbind (load_load_modified x) (\<lambda>m.
       Inr (Some \<lparr>ld_inserted = i, ld_deleted = d, ld_modified = m\<rparr>)))))"

definition load_etl :: "json \<Rightarrow> DB_SYSTEM_ETL part" where
  "load_etl etl =
     pbind (load_actions etl ''pre_actions'') (\<lambda>pre.
     pbind (load_actions etl ''post_actions'') (\<lambda>post.
     pbind (load_extract etl) (\<lambda>ex.
     pbind (load_stage etl) (\<lambda>st.
     pbind (load_transform etl) (\<lambda>tr.
     pbind (load_load etl) (\<lambda>ld.
       Inr (Some \<lparr>etl_pre_actions = pre, etl_extract = ex, etl_stage = st, etl_transform = tr, etl_load = ld,
                  etl_post_actions = post\<rparr>)))))))"

definition mode_of :: "int \<Rightarrow> DB_SYSTEM_MODE" where
  "mode_of n = (if n = 1 then M_ETL else if n = 2 then M_ELT else M_other)"

text \<open>One query. The copy made without printing dereferences the transformation as well.\<close>

definition load_query_item :: "json \<Rightarrow> DATABASE_SYSTEM_QUERY part" where
  "load_query_item item =
     pbind (need item ''name'') (\<lambda>name.
     pbind (pbind (need item ''etl'') load_etl) (\<lambda>etl.
       let mode = (case cJSON_GetObjectItem item ''mode'' of Some m \<Rightarrow> mode_of (valueint m) | None \<Rightarrow> M_ETL) in
       obind (DATABASE_SYSTEM_QUERY_add (valuestring name) mode etl False) (\<lambda>q. Inr (Some q))))"


section \<open>A configuration is read as it was written\<close>

abbreviation jtexts :: "string list \<Rightarrow> json" where
  "jtexts ss \<equiv> JArray (map JString ss)"

definition no_directive :: "string \<Rightarrow> bool" where
  "no_directive s \<longleftrightarrow> CHR ''%'' \<notin> set s"

named_theorems reads

lemma format_copy_plain [reads]: "no_directive s \<Longrightarrow> format_copy s = Inr s"
  by (induction s rule: format_copy.induct) (auto simp: no_directive_def)

lemma each_part_map: "(\<And>x. x \<in> set xs \<Longrightarrow> f (g x) = Inr (Some x)) \<Longrightarrow> each_part f (map g xs) = Inr (Some xs)"
  by (induction xs) simp_all

lemma text_of_JString [reads]: "text_of (JString s) = Inr (Some s)"
  by (simp add: text_of_def valuestring_def)

lemma format_of_JString [reads]: "no_directive s \<Longrightarrow> format_of (JString s) = Inr (Some s)"
  by (simp add: format_of_def valuestring_def format_copy_plain)

lemma items_JArray [reads]: "items (JArray js) = js"
  by (simp add: items_def comp_def)

lemma each_text [reads]: "each_part text_of (map JString ss) = Inr (Some ss)"
  by (rule each_part_map) (rule text_of_JString)

lemma get_item [reads]: "cJSON_GetObjectItem (JObject ((k, j) # kvs)) key =
    (if map to_lower k = map to_lower key then Some j else cJSON_GetObjectItem (JObject kvs) key)"
   "cJSON_GetObjectItem (JObject []) key = None"
  by (simp_all add: cJSON_GetObjectItem_def)

definition replacement_json :: "string \<times> string \<Rightarrow> json" where
  "replacement_json p = JObject [(''search'', JString (fst p)), (''replace'', JString (snd p))]"

lemma load_replacements_read [reads]:
  assumes "\<forall>(s, r) \<in> set ps. length s < 512 \<and> length r < 512"
  shows "each_part load_replacement (map replacement_json ps) = Inr (Some ps)"
  by (rule each_part_map) (use assms in \<open>auto simp: load_replacement_def replacement_json_def reads to_lower_def\<close>)

definition extract_json :: "DB_SYSTEM_ETL_EXTRACT_QUERY \<Rightarrow> json" where
  "extract_json q = JObject
     [(''primary_db'', JString (the_str (eq_primary_db q))), (''primary_db_sql'', JString (the_str (eq_primary_db_sql q))),
      (''primary_regex_replace'', JArray (map replacement_json (eq_primary_db_result_replace q))),
      (''secondary_db'', JString (the_str (eq_secondary_db q))),
      (''secondary_db_sql'', JString (the_str (eq_secondary_db_sql q))),
      (''secondary_regex_replace'', JArray (map replacement_json (eq_secondary_db_result_replace q)))]"

definition text_ok :: "string option \<Rightarrow> nat \<Rightarrow> bool" where
  "text_ok s n \<longleftrightarrow> (\<exists>t. s = Some t \<and> length t = n)"

definition pairs_ok :: "(string \<times> string) list \<Rightarrow> bool" where
  "pairs_ok ps \<longleftrightarrow> (\<forall>(s, r) \<in> set ps. length s < 512 \<and> length r < 512)"

definition extract_ok :: "DB_SYSTEM_ETL_EXTRACT_QUERY \<Rightarrow> bool" where
  "extract_ok q \<longleftrightarrow> (\<exists>p. eq_primary_db q = Some p \<and> no_directive p) \<and> (\<exists>s. eq_secondary_db q = Some s \<and> no_directive s) \<and>
     text_ok (eq_primary_db_sql q) (eq_primary_db_sql_len q) \<and> text_ok (eq_secondary_db_sql q) (eq_secondary_db_sql_len q) \<and>
     pairs_ok (eq_primary_db_result_replace q) \<and> pairs_ok (eq_secondary_db_result_replace q)"

lemma load_extract_query_read [reads]:
  assumes "extract_ok q"
  shows "load_extract_query (extract_json q) = Inr (Some q)"
proof -
  from assms obtain p s where "eq_primary_db q = Some p" "no_directive p" "eq_secondary_db q = Some s" "no_directive s"
    by (auto simp: extract_ok_def)
  moreover from assms obtain t u where "eq_primary_db_sql q = Some t" "length t = eq_primary_db_sql_len q"
    "eq_secondary_db_sql q = Some u" "length u = eq_secondary_db_sql_len q" by (auto simp: extract_ok_def text_ok_def)
  moreover from assms have "pairs_ok (eq_primary_db_result_replace q)" "pairs_ok (eq_secondary_db_result_replace q)"
    by (simp_all add: extract_ok_def)
  ultimately show ?thesis
    by (simp add: load_extract_query_def load_replacements_def need_def extract_json_def pairs_ok_def reads to_lower_def the_str_def)
qed

definition three_json :: "('a \<Rightarrow> json) \<Rightarrow> 'a \<Rightarrow> 'a \<Rightarrow> 'a \<Rightarrow> json" where
  "three_json f i d m = JObject [(''inserted'', f i), (''modified'', f m), (''deleted'', f d)]"

lemma three_read [reads]:
  "cJSON_GetObjectItem (three_json f i d m) ''inserted'' = Some (f i)"
  "cJSON_GetObjectItem (three_json f i d m) ''deleted'' = Some (f d)"
  "cJSON_GetObjectItem (three_json f i d m) ''modified'' = Some (f m)"
  by (simp_all add: three_json_def reads to_lower_def)

definition values_ok :: "string list \<Rightarrow> bool" where
  "values_ok vs \<longleftrightarrow> length vs \<le> MAX_ETL_COLUMNS \<and> (\<forall>v \<in> set vs. length v < MAX_COLUMN_NAME_LEN)"

lemma load_values_read [reads]:
  assumes "values_ok vs"
  shows "load_values (jtexts vs) = Inr (Some vs)"
proof -
  have "map (take (MAX_COLUMN_NAME_LEN - 1)) vs = vs"
    by (rule map_idI) (use assms in \<open>auto simp: values_ok_def MAX_COLUMN_NAME_LEN_def\<close>)
  with assms show ?thesis by (simp add: load_values_def values_ok_def reads)
qed

lemma load_list_read:
  "\<forall>x \<in> set xs. f (g x) = Inr (Some x) \<Longrightarrow> load_list f (JArray (map g xs)) = Inr (Some xs)"
  by (simp add: load_list_def reads each_part_map)

definition stage_query_json :: "DB_SYSTEM_ETL_STAGE_QUERY \<Rightarrow> json" where
  "stage_query_json q = JObject
     [(''sql'', JString (the_str (sq_sql q))), (''extracted_values'', jtexts (sq_extracted_values q))]"

definition stage_query_ok :: "DB_SYSTEM_ETL_STAGE_QUERY \<Rightarrow> bool" where
  "stage_query_ok q \<longleftrightarrow> text_ok (sq_sql q) (sq_sql_len q) \<and> values_ok (sq_extracted_values q)"

lemma load_stage_query_read: "stage_query_ok q \<Longrightarrow> load_stage_query (stage_query_json q) = Inr (Some q)"
  by (auto simp: load_stage_query_def need_def stage_query_json_def stage_query_ok_def text_ok_def reads to_lower_def the_str_def)

definition stage_json :: "DB_SYSTEM_ETL_STAGE \<Rightarrow> json" where
  "stage_json st = three_json (\<lambda>qs. JArray (map stage_query_json qs)) (st_inserted st) (st_deleted st) (st_modified st)"

definition stage_ok :: "DB_SYSTEM_ETL_STAGE \<Rightarrow> bool" where
  "stage_ok st \<longleftrightarrow> (\<forall>q \<in> set (st_inserted st) \<union> set (st_deleted st) \<union> set (st_modified st). stage_query_ok q)"

definition transform_query_json :: "DB_SYSTEM_ETL_TRANSFORM_QUERY \<Rightarrow> json" where
  "transform_query_json q = JObject
     [(''module'', JString (tq_module q)), (''staged_data'', JString (tq_staged_data q)),
      (''source_system_update'', JString (the_str (tq_source_system_update q))),
      (''api_key'', JString (the_str (tq_api_key q)))]"

definition transform_query_ok :: "DB_SYSTEM_ETL_TRANSFORM_QUERY \<Rightarrow> bool" where
  "transform_query_ok q \<longleftrightarrow> no_directive (tq_module q) \<and> tq_source_system_update q \<noteq> None \<and> tq_api_key q \<noteq> None"

lemma load_transform_query_read: "transform_query_ok q \<Longrightarrow> load_transform_query (transform_query_json q) = Inr (Some q)"
  by (auto simp: load_transform_query_def transform_query_json_def transform_query_ok_def text_at_def format_at_def
      reads to_lower_def the_str_def)

definition transform_json :: "DB_SYSTEM_ETL_TRANSFORM \<Rightarrow> json" where
  "transform_json t =
     three_json (\<lambda>qs. JArray (map transform_query_json qs)) (tr_inserted t) (tr_deleted t) (tr_modified t)"

definition transform_ok :: "DB_SYSTEM_ETL_TRANSFORM \<Rightarrow> bool" where
  "transform_ok t \<longleftrightarrow> (\<forall>q \<in> set (tr_inserted t) \<union> set (tr_deleted t) \<union> set (tr_modified t). transform_query_ok q)"

definition target_json :: "DB_SYSTEM_ETL_LOAD_QUERY_TARGET \<Rightarrow> json" where
  "target_json t = JObject
     [(''output_data_sql'', JString (the_str (lt_output_data_sql t))), (''extracted_values'', jtexts (lt_extracted_values t))]"

definition load_target_ok :: "DB_SYSTEM_ETL_LOAD_QUERY_TARGET \<Rightarrow> bool" where
  "load_target_ok t \<longleftrightarrow> text_ok (lt_output_data_sql t) (lt_output_data_sql_len t) \<and> values_ok (lt_extracted_values t)"

lemma load_target_read: "load_target_ok t \<Longrightarrow> load_target (target_json t) = Inr (Some t)"
  by (auto simp: load_target_def need_def target_json_def load_target_ok_def text_ok_def reads to_lower_def the_str_def)

definition load_query_json :: "DB_SYSTEM_ETL_LOAD_QUERY \<Rightarrow> json" where
  "load_query_json q = JObject
     [(''input_data_sql'', JString (the_str (lq_input_data_sql q))), (''target'', JArray (map target_json (lq_target q)))]"

definition load_query_ok :: "DB_SYSTEM_ETL_LOAD_QUERY \<Rightarrow> bool" where
  "load_query_ok q \<longleftrightarrow> text_ok (lq_input_data_sql q) (lq_input_data_sql_len q) \<and> (\<forall>t \<in> set (lq_target q). load_target_ok t) \<and>
     lq_target_count q = length (lq_target q)"

lemma load_load_query_read [reads]: "load_query_ok q \<Longrightarrow> load_load_query (load_query_json q) = Inr (Some q)"
  by (auto simp: load_load_query_def need_def load_query_json_def load_query_ok_def text_ok_def reads to_lower_def the_str_def
      load_list_read load_target_read)

definition optional_json :: "string \<Rightarrow> ('a \<Rightarrow> json) \<Rightarrow> 'a option \<Rightarrow> (string \<times> json) list" where
  "optional_json key f x = (case x of None \<Rightarrow> [] | Some y \<Rightarrow> [(key, f y)])"

definition etl_json :: "DB_SYSTEM_ETL \<Rightarrow> json" where
  "etl_json e = JObject
     ([(''pre_actions'', jtexts (etl_pre_actions e)),
       (''extract'', three_json extract_json (ex_inserted (etl_extract e)) (ex_deleted (etl_extract e))
          (ex_modified (etl_extract e)))] @
      optional_json ''stage'' stage_json (etl_stage e) @ optional_json ''transform'' transform_json (etl_transform e) @
      [(''load'', three_json load_query_json (ld_inserted (etl_load e)) (ld_deleted (etl_load e)) (ld_modified (etl_load e))),
       (''post_actions'', jtexts (etl_post_actions e))])"

definition etl_ok :: "DB_SYSTEM_ETL \<Rightarrow> bool" where
  "etl_ok e \<longleftrightarrow>
     extract_ok (ex_inserted (etl_extract e)) \<and> extract_ok (ex_deleted (etl_extract e)) \<and>
     extract_ok (ex_modified (etl_extract e)) \<and>
     (\<forall>st. etl_stage e = Some st \<longrightarrow> stage_ok st) \<and> (\<forall>t. etl_transform e = Some t \<longrightarrow> transform_ok t) \<and>
     load_query_ok (ld_inserted (etl_load e)) \<and> load_query_ok (ld_deleted (etl_load e)) \<and>
     load_query_ok (ld_modified (etl_load e))"

lemma etl_item [reads]:
  "cJSON_GetObjectItem (etl_json e) ''pre_actions'' = Some (jtexts (etl_pre_actions e))"
  "cJSON_GetObjectItem (etl_json e) ''post_actions'' = Some (jtexts (etl_post_actions e))"
  "cJSON_GetObjectItem (etl_json e) ''extract'' = Some (three_json extract_json (ex_inserted (etl_extract e))
     (ex_deleted (etl_extract e)) (ex_modified (etl_extract e)))"
  "cJSON_GetObjectItem (etl_json e) ''stage'' = map_option stage_json (etl_stage e)"
  "cJSON_GetObjectItem (etl_json e) ''transform'' = map_option transform_json (etl_transform e)"
  "cJSON_GetObjectItem (etl_json e) ''load'' = Some (three_json load_query_json (ld_inserted (etl_load e))
     (ld_deleted (etl_load e)) (ld_modified (etl_load e)))"
  by (simp_all add: etl_json_def optional_json_def reads to_lower_def split: option.split)

lemma load_extract_read: "etl_ok e \<Longrightarrow> load_extract (etl_json e) = Inr (Some (etl_extract e))"
  by (simp add: load_extract_def load_extract_parts need_def reads etl_ok_def)

lemma load_stage_read: "etl_ok e \<Longrightarrow> load_stage (etl_json e) = Inr (Some (etl_stage e))"
  by (cases "etl_stage e") (simp_all add: load_stage_def load_stage_parts need_def reads etl_ok_def stage_json_def stage_ok_def
      load_list_read load_stage_query_read)

lemma load_transform_read: "etl_ok e \<Longrightarrow> load_transform (etl_json e) = Inr (Some (etl_transform e))"
  by (cases "etl_transform e") (simp_all add: load_transform_def load_transform_parts need_def reads etl_ok_def transform_json_def
      transform_ok_def load_list_read load_transform_query_read)

lemma load_load_read: "etl_ok e \<Longrightarrow> load_load (etl_json e) = Inr (Some (etl_load e))"
  by (simp add: load_load_def load_load_parts need_def reads etl_ok_def)

lemma load_etl_read: "etl_ok e \<Longrightarrow> load_etl (etl_json e) = Inr (Some e)"
  by (simp add: load_etl_def load_actions_def reads load_extract_read load_stage_read load_transform_read load_load_read)

definition query_json :: "DATABASE_SYSTEM_QUERY \<Rightarrow> json" where
  "query_json q = JObject
     [(''name'', JString (the_str (qu_name q))),
      (''mode'', JNumber (case qu_mode q of M_ETL \<Rightarrow> 1 | M_ELT \<Rightarrow> 2 | M_other \<Rightarrow> 3)),
      (''etl'', etl_json (qu_etl_config q))]"

lemma load_query_item_read:
  assumes "etl_ok (qu_etl_config q)" "etl_transform (qu_etl_config q) \<noteq> None" "qu_name q = Some name"
  shows "load_query_item (query_json q) = Inr (Some q)"
proof -
  have "mode_of (valueint (JNumber (case qu_mode q of M_ETL \<Rightarrow> 1 | M_ELT \<Rightarrow> 2 | M_other \<Rightarrow> 3))) = qu_mode q"
    by (cases "qu_mode q") (simp_all add: mode_of_def valueint_def)
  with assms show ?thesis
    by (simp add: load_query_item_def need_def query_json_def reads to_lower_def load_etl_read the_str_def
        DATABASE_SYSTEM_QUERY_add_def valuestring_def Let_def)
qed

text \<open>
  C9: reading back what was written: a query written to the configuration, with its actions, extraction,
  stage, transformation and load, is read into the same record, field by field, as long as the texts fit
  the fields (pairs below 512 characters, at most 32 values of at most 255), the names hold no conversion,
  and there is a transformation.
\<close>

theorem configuration_round_trip:
  assumes "etl_ok (qu_etl_config q)" "etl_transform (qu_etl_config q) \<noteq> None" "qu_name q = Some name"
  shows "load_query_item (query_json q) = Inr (Some q)"
  by (rule load_query_item_read) (rule assms)+

text \<open>A query with every part.\<close>

definition demo_query :: DATABASE_SYSTEM_QUERY where
  "demo_query =
     \<lparr>qu_name = Some ''q'', qu_mode = M_ELT,
      qu_etl_config =
        \<lparr>etl_pre_actions = [''TRUNCATE a''],
         etl_extract = \<lparr>ex_inserted = demo_extract, ex_deleted = demo_extract\<lparr>eq_primary_db := Some ''dw''\<rparr>,
                        ex_modified = demo_extract\<lparr>eq_primary_db_result_replace := [(''a'', ''b'')]\<rparr>\<rparr>,
         etl_stage = Some \<lparr>st_inserted = [\<lparr>sq_sql = Some ''INSERT'', sq_sql_len = 6, sq_extracted_values = [''id'']\<rparr>],
                           st_deleted = [], st_modified = []\<rparr>,
         etl_transform = Some \<lparr>tr_inserted = [],
           tr_deleted = [\<lparr>tq_module = ''./m.py'', tq_staged_data = ''s'', tq_source_system_update = Some ''u'',
                          tq_api_key = Some ''k''\<rparr>], tr_modified = []\<rparr>,
         etl_load = \<lparr>ld_inserted = demo_load (Some ''SELECT'') [demo_target ''INSERT'' [''id'']],
                     ld_deleted = demo_load (Some ''x'') [], ld_modified = demo_load (Some ''y'') []\<rparr>,
         etl_post_actions = []\<rparr>\<rparr>"

lemma demo_query_ok: "etl_ok (qu_etl_config demo_query)"
  by (simp add: etl_ok_def demo_query_def extract_ok_def demo_extract_def text_ok_def pairs_ok_def no_directive_def
      stage_ok_def stage_query_ok_def transform_ok_def transform_query_ok_def load_query_ok_def load_target_ok_def
      values_ok_def demo_load_def demo_target_def the_str_def MAX_ETL_COLUMNS_def MAX_COLUMN_NAME_LEN_def)

theorem configuration_round_trip_witness:
  "load_query_item (query_json demo_query) = Inr (Some demo_query)"
  by (rule configuration_round_trip [OF demo_query_ok]) (simp_all add: demo_query_def)

end
