(* ===== verification/Etl_Startup.thy ===== *)
theory Etl_Startup
  imports Etl_Config
begin

text \<open>
  The rest of \<open>src/DCPAM_ETL/dcpam-etl.c\<close>: the flat file, the data system, the application and the LCS
  part of the configuration, \<open>DCPAM_load_configuration\<close> as a whole, its release, and the thread that
  answers the LCS. \<open>return FALSE\<close> ends the program, so what was loaded up to there is not kept.
\<close>

section \<open>A flat file\<close>

text \<open>A header without one of its keys is left as \<open>malloc\<close> returned it, and copied later.\<close>

definition load_header :: "json \<Rightarrow> (string \<times> string) part" where
  "load_header item =
     (case (cJSON_GetObjectItem item ''name'', cJSON_GetObjectItem item ''value'') of
        (Some n, Some v) \<Rightarrow> pbind (format_of n) (\<lambda>n. pbind (format_of v) (\<lambda>v. Inr (Some (n, v))))
      | _ \<Rightarrow> Inl Uninitialised)"

definition load_optional :: "json \<Rightarrow> string \<Rightarrow> string option part" where
  "load_optional j key =
     (case cJSON_GetObjectItem j key of None \<Rightarrow> Inr (Some None) | Some v \<Rightarrow> pbind (format_of v) (\<lambda>t. Inr (Some (Some t))))"

text \<open>
  The method is the only field that is not set beforehand: without the key it is what the memory holds
  (\<open>mem\<close>), and it is read and freed when the system is registered.
\<close>

definition load_method :: "json \<Rightarrow> string option \<Rightarrow> string option part" where
  "load_method http mem =
     (case cJSON_GetObjectItem http ''method'' of
        None \<Rightarrow> if mem = None then Inr (Some None) else Inl Uninitialised
      | Some m \<Rightarrow> pbind (format_of m) (\<lambda>t. Inr (Some (Some t))))"

definition payload_size :: "json \<Rightarrow> nat outcome" where
  "payload_size http =
     (case cJSON_GetObjectItem http ''payload'' of
        None \<Rightarrow> Inr 0 | Some p \<Rightarrow> obind (deref (valuestring p)) (\<lambda>s. Inr (length s)))"

definition load_http :: "json option \<Rightarrow> string option \<Rightarrow> HTTP_DATA part" where
  "load_http http mem =
     (case http of
        None \<Rightarrow>
          if mem = None
          then Inr (Some \<lparr>http_active = 0, http_headers = [], http_payload = None, http_payload_len = 0, http_method = None\<rparr>)
          else Inl Uninitialised
      | Some h \<Rightarrow>
          pbind (load_method h mem) (\<lambda>m.
          pbind (case cJSON_GetObjectItem h ''headers'' of None \<Rightarrow> Inr (Some []) | Some hs \<Rightarrow> each_part load_header (items hs)) (\<lambda>hs.
          pbind (load_optional h ''payload'') (\<lambda>p. obind (payload_size h) (\<lambda>n.
            Inr (Some \<lparr>http_active = 1, http_headers = hs, http_payload = p, http_payload_len = n, http_method = m\<rparr>))))))"

text \<open>The kind of file by its name; another name leaves the type as the memory holds it.\<close>

definition file_type :: "string \<Rightarrow> FLAT_FILE_TYPE \<Rightarrow> FLAT_FILE_TYPE" where
  "file_type name mem =
     (if contains name ''.csv'' then FFT_CSV else if contains name ''.tsv'' then FFT_TSV
      else if contains name ''.psv'' then FFT_PSV else mem)"

text \<open>
  One byte of room for the delimiter: what is stored is the terminator. \<open>ff_csv_delimiter\<close> is not set
  here, but in the copy that \<open>DATABASE_SYSTEM_add\<close> makes.
\<close>

definition load_delimiter :: "json \<Rightarrow> FLAT_FILE_TYPE \<Rightarrow> char \<Rightarrow> char part" where
  "load_delimiter file t mem =
     (if t = FFT_CSV then pbind (pbind (need file ''delimiter'') format_of) (\<lambda>d. Inr (Some (hd (snprintf_s 1 d [] @ [NUL]))))
      else if t = FFT_TSV \<or> t = FFT_PSV then Inr (Some (snprintf_char 1 (if t = FFT_TSV then CHR 0x09 else CHR ''|'')))
      else Inr (Some mem))"

definition load_flat_file :: "DATABASE_SYSTEM_FLAT_FILE \<Rightarrow> json \<Rightarrow> DATABASE_SYSTEM_FLAT_FILE part" where
  "load_flat_file mem file =
     pbind (pbind (need file ''name'') format_of) (\<lambda>name.
     pbind (load_optional file ''preprocessor'') (\<lambda>pre.
     pbind (pbind (need file ''columns'') (load_list format_of)) (\<lambda>columns.
     pbind (pbind (need file ''load_sql'') format_of) (\<lambda>sql.
       let t = file_type name (ff_type mem); json = (\<not> is_csv t \<and> contains name ''.json'') in
       pbind (load_delimiter file t (ff_delimiter mem)) (\<lambda>d.
       pbind (load_http (cJSON_GetObjectItem file ''http'') (http_method (ff_http mem))) (\<lambda>http.
         Inr (Some \<lparr>ff_preprocessor = pre, ff_name = name, ff_columns = columns, ff_load_sql = sql, ff_delimiter = d,
                    ff_csv_delimiter = None, ff_json = json, ff_type = (if json then FFT_JSON else t),
                    ff_http = http\<rparr>)))))))"

section \<open>A data system\<close>

definition driver_of :: "int \<Rightarrow> DB_DRIVER option" where
  "driver_of n =
     (if n = 1 then Some D_POSTGRESQL else if n = 2 then Some D_MYSQL else if n = 3 then Some D_MARIADB
      else if n = 4 then Some D_ODBC else if n = 5 then Some D_ORACLE else if n = 6 then Some D_SQLITE
      else if n = 7 then Some D_MONGODB else if n = 8 then Some D_LDAP else None)"

text \<open>The description of a database: a key that is not there is dereferenced.\<close>

definition db_keys :: "string list" where
  "db_keys = [''ip'', ''port'', ''driver'', ''user'', ''db'', ''password'', ''connection_string'', ''name'']"

definition db_of :: "json \<Rightarrow> DATABASE_SYSTEM_DB \<Rightarrow> DATABASE_SYSTEM_DB outcome" where
  "db_of info mem =
     (case map (cJSON_GetObjectItem info) db_keys of
        [Some ip, Some port, Some driver, Some user, Some db, Some password, Some cs, Some name] \<Rightarrow>
          DATABASE_SYSTEM_DB_add (valuestring ip) (valueint port) (driver_of (valueint driver)) (valuestring user)
            (valuestring password) (valuestring db) (valuestring cs) mem (valuestring name)
      | _ \<Rightarrow> Inl Null_pointer)"

text \<open>Memory from \<open>malloc\<close>, for the allocations of one data system.\<close>

record memory =
  mem_db :: DATABASE_SYSTEM_DB
  mem_file :: DATABASE_SYSTEM_FLAT_FILE
  mem_staging :: DATABASE_SYSTEM_DB
  mem_copy :: DATABASE_SYSTEM_FLAT_FILE

text \<open>An entry of \<open>DATABASE_SYSTEMS\<close> before it is filled: static memory.\<close>

definition zero_db :: DATABASE_SYSTEM_DB where
  "zero_db =
     \<lparr>db_ip = None, db_port = 0, db_driver = None, db_user = None, db_password = None, db_connection_string = None,
      db_db = None, db_conn = opened_connection None None False, db_name = None\<rparr>"

definition zero_system :: DATABASE_SYSTEM where
  "zero_system =
     \<lparr>sy_name = None, sy_system_db = zero_db, sy_dcpam_db = zero_db, sy_staging_db = None, sy_queries = [],
      sy_flat_file = None, sy_failure = 0\<rparr>"

definition enabled :: "json \<Rightarrow> bool part" where
  "enabled item = pbind (need item ''enabled'') (\<lambda>e. Inr (Some (valueint e \<noteq> 0)))"

text \<open>
  The queries are stored behind an array of 32 pointers, without a test. \<open>DATABASE_SYSTEM_add\<close> is given
  \<open>*tmp_queries\<close>, the first query alone, and reads the others behind it.
\<close>

definition load_queries :: "json \<Rightarrow> DATABASE_SYSTEM_QUERY list part" where
  "load_queries arr =
     pbind (each_part load_query_item (take (MAX_SYSTEM_QUERIES + 1) (items arr))) (\<lambda>qs.
       if MAX_SYSTEM_QUERIES < length qs then Inl Out_of_bounds else Inr (Some qs))"

definition register_system ::
  "memory \<Rightarrow> DATABASE_SYSTEM_DB \<Rightarrow> DATABASE_SYSTEM_DB option \<Rightarrow> json \<Rightarrow> json \<Rightarrow> DATABASE_SYSTEM_FLAT_FILE option \<Rightarrow>
   DATABASE_SYSTEM_QUERY list \<Rightarrow> DATABASE_SYSTEM list \<Rightarrow> DATABASE_SYSTEM list outcome" where
  "register_system mem dcpam staging name info ffile qs systems =
     obind (db_of info (mem_db mem)) (\<lambda>db.
     if 1 < length qs \<and> length systems < MAX_DATA_SYSTEMS then Inl Out_of_bounds
     else
       obind (if length systems < MAX_DATA_SYSTEMS then deref (valuestring name) else Inr []) (\<lambda>n.
         DATABASE_SYSTEM_add n db dcpam staging ffile qs zero_system (mem_staging mem) (mem_copy mem) systems))"

definition load_system ::
  "memory \<Rightarrow> DATABASE_SYSTEM_DB \<Rightarrow> DATABASE_SYSTEM_DB option \<Rightarrow> json \<Rightarrow> DATABASE_SYSTEM list \<Rightarrow> DATABASE_SYSTEM list part" where
  "load_system mem dcpam staging item systems =
     pbind (enabled item) (\<lambda>on.
     if \<not> on then Inr (Some systems)
     else
       pbind (need item ''name'') (\<lambda>name.
       pbind (need item ''DB'') (\<lambda>info.
       pbind (each_part (need info) db_keys) (\<lambda>_.
       pbind (pbind (need item ''queries'') load_queries) (\<lambda>qs.
       pbind (case cJSON_GetObjectItem item ''FILE'' of
                None \<Rightarrow> Inr (Some None)
              | Some f \<Rightarrow> pbind (load_flat_file (mem_file mem) f) (\<lambda>ff. Inr (Some (Some ff)))) (\<lambda>ffile.
         obind (register_system mem dcpam staging name info ffile qs systems) (\<lambda>systems. Inr (Some systems))))))))"

fun load_systems ::
  "(nat \<Rightarrow> memory) \<Rightarrow> DATABASE_SYSTEM_DB \<Rightarrow> DATABASE_SYSTEM_DB option \<Rightarrow> nat \<Rightarrow> json list \<Rightarrow> DATABASE_SYSTEM list \<Rightarrow>
   DATABASE_SYSTEM list part" where
  "load_systems heap dcpam staging i [] systems = Inr (Some systems)"
| "load_systems heap dcpam staging i (item # rest) systems =
     pbind (load_system (heap i) dcpam staging item systems) (load_systems heap dcpam staging (Suc i) rest)"

section \<open>The application\<close>

text \<open>
  \<open>APP\<close> with the entries of \<open>DATABASE_SYSTEMS\<close>. \<open>ap_lcs_conn\<close>: whether \<open>lcs_report.conn\<close> is set. The data
  items of the web service (\<open>DATA\<close>) stay empty here.
\<close>

record DCPAM_APP =
  ap_version :: "string option"
  ap_name :: "string option"
  ap_run_once :: int
  ap_DB :: DATABASE_SYSTEM_DB
  ap_STAGING :: "DATABASE_SYSTEM_DB option"
  ap_lcs_conn :: bool
  ap_lcs_report :: LCS_REPORT
  ap_lcs_port :: int
  ap_systems :: "DATABASE_SYSTEM list"

text \<open>Optional: without the key the staging area is local.\<close>

definition load_staging :: "DATABASE_SYSTEM_DB \<Rightarrow> json \<Rightarrow> DATABASE_SYSTEM_DB option outcome" where
  "load_staging mem_sa a =
     (case cJSON_GetObjectItem a ''STAGING'' of
        None \<Rightarrow> Inr None | Some sa \<Rightarrow> obind (db_of sa mem_sa) (\<lambda>st. Inr (Some st)))"

definition load_app :: "DATABASE_SYSTEM_DB \<Rightarrow> json \<Rightarrow> DCPAM_APP \<Rightarrow> DCPAM_APP part" where
  "load_app mem_sa config app =
     pbind (need config ''app'') (\<lambda>a.
     pbind (pbind (need a ''name'') format_of) (\<lambda>name.
     pbind (pbind (need a ''version'') format_of) (\<lambda>ver.
     pbind (need a ''DB'') (\<lambda>info.
     obind (db_of info (ap_DB app)) (\<lambda>db.
     obind (load_staging mem_sa a) (\<lambda>st.
       Inr (Some (app\<lparr>ap_version := Some ver, ap_name := Some name,
         ap_run_once := (case cJSON_GetObjectItem a ''run_once'' of None \<Rightarrow> 0 | Some r \<Rightarrow> valueint r),
         ap_DB := db, ap_STAGING := st\<rparr>))))))))"

text \<open>Without the part the LCS is only noted as missing.\<close>

definition load_lcs :: "json \<Rightarrow> DCPAM_APP \<Rightarrow> DCPAM_APP part" where
  "load_lcs config app =
     (case cJSON_GetObjectItem config ''LCS'' of
        None \<Rightarrow> Inr (Some (app\<lparr>ap_lcs_conn := False\<rparr>))
      | Some lcs \<Rightarrow>
          pbind (pbind (need lcs ''address'') format_of) (\<lambda>address.
          case LCS_REPORT_init (ap_lcs_report app\<lparr>lr_address := Some address\<rparr>) address (the_text (ap_name app))
                 (the_text (ap_version app)) of
            (False, _) \<Rightarrow> Inr None
          | (True, r) \<Rightarrow>
              Inr (Some (app\<lparr>ap_lcs_conn := True, ap_lcs_report := r,
                ap_lcs_port := (case cJSON_GetObjectItem lcs ''port'' of None \<Rightarrow> 7777 | Some p \<Rightarrow> valueint p)\<rparr>))))"

text \<open>
  The result is that of the function, \<open>None\<close> for 0: a file that cannot be read or a key that is missing.
  A file that is not JSON is none of them.
\<close>

definition DCPAM_load_configuration ::
  "(string \<Rightarrow> json option) \<Rightarrow> (nat \<Rightarrow> memory) \<Rightarrow> DATABASE_SYSTEM_DB \<Rightarrow> string option \<Rightarrow> DCPAM_APP \<Rightarrow> DCPAM_APP part" where
  "DCPAM_load_configuration parse heap mem_sa content app =
     (case content of
        None \<Rightarrow> Inr None
      | Some s \<Rightarrow>
          (case parse s of
             None \<Rightarrow> Inr (Some app)
           | Some config \<Rightarrow>
               pbind (load_app mem_sa config app) (\<lambda>app.
               pbind (load_lcs config app) (\<lambda>app.
               pbind (need config ''system'') (\<lambda>arr.
               pbind (load_systems heap (ap_DB app) (ap_STAGING app) 0 (items arr) (ap_systems app)) (\<lambda>systems.
                 Inr (Some (app\<lparr>ap_systems := systems\<rparr>))))))))"

fun close_systems :: "'w drivers \<Rightarrow> DATABASE_SYSTEM list \<Rightarrow> 'w \<Rightarrow> DATABASE_SYSTEM list \<times> 'w" where
  "close_systems drv [] w = ([], w)"
| "close_systems drv (sy # rest) w =
     (let (ddb, w) = DATABASE_SYSTEM_DB_close drv (sy_dcpam_db sy) w;
          (sdb, w) = DATABASE_SYSTEM_DB_close drv (sy_system_db sy) w;
          (rest, w) = close_systems drv rest w
      in (sy\<lparr>sy_dcpam_db := ddb, sy_system_db := sdb\<rparr> # rest, w))"

definition DCPAM_free_configuration ::
  "'w drivers \<Rightarrow> 'w net \<Rightarrow> DCPAM_APP \<Rightarrow> sock_state \<Rightarrow> 'w \<Rightarrow> DCPAM_APP \<times> sock_state \<times> 'w" where
  "DCPAM_free_configuration drv net app st w =
     (let (db, w) = DATABASE_SYSTEM_DB_free drv (ap_DB app) w;
          w = (case ap_STAGING app of None \<Rightarrow> w | Some sa \<Rightarrow> snd (DATABASE_SYSTEM_DB_free drv sa w));
          (systems, w) = close_systems drv (ap_systems app) w;
          app = app\<lparr>ap_version := None, ap_name := None, ap_DB := db, ap_STAGING := None, ap_systems := systems\<rparr>
      in if ap_lcs_conn app
         then (case LCS_REPORT_free net (ap_lcs_report app) st w of (r, st, w) \<Rightarrow> (app\<lparr>ap_lcs_report := r\<rparr>, st, w))
         else (app, st, w))"

section \<open>Answering the LCS\<close>

definition pong_text :: string where "pong_text = ''{'' @ DQ # ''msg'' @ DQ # '': '' @ DQ # ''pong'' @ DQ # ''}''"

definition DCPAM_ETL_LCS_listener ::
  "'w os \<Rightarrow> (string \<Rightarrow> json option) \<Rightarrow> string \<Rightarrow> nat \<Rightarrow> sock_state \<Rightarrow> 'w \<Rightarrow> (sock_state \<times> 'w) outcome" where
  "DCPAM_ETL_LCS_listener sys parse content client st w =
     (if content = [] then Inr (st, w)
      else
        (let refused = obind (SOCKET_send sys client ''-1'' 2 st w) (\<lambda>(st, w). Inr (SOCKET_disconnect_client sys st w)) in
         case parse (cstr_of content) of
           None \<Rightarrow> refused
         | Some req \<Rightarrow>
             (case cJSON_GetObjectItem req ''msg'' of
                None \<Rightarrow> refused
              | Some msg \<Rightarrow>
                  obind (deref (valuestring msg)) (\<lambda>m.
                    if m \<noteq> ''ping'' then refused
                    else
                      obind (SOCKET_send sys client pong_text (length pong_text) st w) (\<lambda>(st, w).
                        Inr (SOCKET_close sys (so_session st) (SOCKET_unregister_client (so_session st) st) w))))))"

text \<open>Started whether or not an LCS is configured; without one there is no host to allow.\<close>

definition DCPAM_LCS_worker ::
  "'w os \<Rightarrow> 'w listen_os \<Rightarrow> (string \<Rightarrow> json option) \<Rightarrow> DCPAM_APP \<Rightarrow> nat \<Rightarrow> sock_state \<Rightarrow> 'w \<Rightarrow>
   (sock_state option \<times> 'w) outcome" where
  "DCPAM_LCS_worker sys ls parse app rounds st w =
     obind (deref (lr_lcs_host (ap_lcs_report app))) (\<lambda>lcs_host.
     obind (format_copy lcs_host) (\<lambda>lcs_host.
       SOCKET_main ls sys (Some (DCPAM_ETL_LCS_listener sys parse)) (ap_lcs_port app) [lcs_host] 1 rounds st w))"

text \<open>
  The start of \<open>main\<close>: \<open>None\<close> when the configuration is refused. The worker runs beside \<open>DB_WORKER_init\<close>;
  here its outcome is that of the thread alone.
\<close>

definition etl_start ::
  "'w os \<Rightarrow> 'w listen_os \<Rightarrow> (string \<Rightarrow> json option) \<Rightarrow> (nat \<Rightarrow> memory) \<Rightarrow> DATABASE_SYSTEM_DB \<Rightarrow> string option \<Rightarrow>
   DCPAM_APP \<Rightarrow> nat \<Rightarrow> sock_state \<Rightarrow> 'w \<Rightarrow> (sock_state option \<times> 'w) part" where
  "etl_start sys ls parse heap mem_sa content app rounds st w =
     pbind (DCPAM_load_configuration parse heap mem_sa content app) (\<lambda>app.
       obind (DCPAM_LCS_worker sys ls parse app rounds st w) (\<lambda>r. Inr (Some r)))"

section \<open>Which systems are run\<close>

lemmas obind_Inr = obind_Inr_iff

lemma pbind_Some: "pbind m f = Inr (Some y) \<longleftrightarrow> (\<exists>x. m = Inr (Some x) \<and> f x = Inr (Some y))"
  by (auto simp: pbind_def obind_Inr split: option.splits)

definition configured_name :: "json \<Rightarrow> string option" where
  "configured_name item =
     (case cJSON_GetObjectItem item ''name'' of None \<Rightarrow> None | Some name \<Rightarrow> valuestring name)"

definition is_enabled :: "json \<Rightarrow> bool" where
  "is_enabled item \<longleftrightarrow> enabled item = Inr (Some True)"

lemma add_queries_keeps: "add_queries qs = Inr qs' \<Longrightarrow> map qu_name qs' = map qu_name qs"
  by (induction qs arbitrary: qs') (auto simp: obind_Inr DATABASE_SYSTEM_QUERY_add_def Let_def split: if_splits)

lemma DATABASE_SYSTEM_add_result:
  assumes "DATABASE_SYSTEM_add name db dcpam staging ffile qs slot old_db old_ff systems = Inr systems'"
  shows "if length systems < MAX_DATA_SYSTEMS
         then \<exists>sy. systems' = systems @ [sy] \<and> sy_name sy = Some name \<and> length (sy_queries sy) = length qs
         else systems' = systems"
proof (cases "length systems < MAX_DATA_SYSTEMS")
  case True
  with assms show ?thesis
    unfolding DATABASE_SYSTEM_add_def
    by (auto simp: obind_Inr dest: add_queries_keeps [THEN arg_cong [where f = length]] split: if_splits)
next
  case False
  with assms show ?thesis by (simp add: DATABASE_SYSTEM_add_def)
qed

lemma deref_Inr: "deref x = Inr y \<longleftrightarrow> x = Some y"
  by (cases x) (auto simp: deref_def)

lemma load_system_result:
  assumes "load_system mem dcpam staging item systems = Inr (Some systems')"
  shows "if is_enabled item \<and> length systems < MAX_DATA_SYSTEMS
         then \<exists>sy. systems' = systems @ [sy] \<and> sy_name sy = configured_name item \<and> length (sy_queries sy) \<le> 1
         else systems' = systems"
proof -
  from assms obtain on where on: "enabled item = Inr (Some on)"
    by (auto simp: load_system_def pbind_Some)
  show ?thesis
  proof (cases on)
    case False
    with assms on show ?thesis by (simp add: load_system_def is_enabled_def)
  next
    case True
    with on have e: "enabled item = Inr (Some True)" by simp
    from assms [unfolded load_system_def e] obtain name qs ffile db n where
      "cJSON_GetObjectItem item ''name'' = Some name"
      "length systems < MAX_DATA_SYSTEMS \<longrightarrow> length qs \<le> 1 \<and> deref (valuestring name) = Inr n"
      "DATABASE_SYSTEM_add n db dcpam staging ffile qs zero_system (mem_staging mem) (mem_copy mem) systems = Inr systems'"
      by (simp add: pbind_Some obind_Inr need_def register_system_def split: if_splits) (metis not_less)+
    with DATABASE_SYSTEM_add_result [OF this(3)] e show ?thesis
      by (auto simp: is_enabled_def configured_name_def deref_Inr split: if_splits)
  qed
qed

lemma load_systems_result:
  "load_systems heap dcpam staging i js systems = Inr (Some systems') \<Longrightarrow> length systems \<le> MAX_DATA_SYSTEMS \<Longrightarrow>
   \<exists>new. systems' = systems @ new \<and> length systems' \<le> MAX_DATA_SYSTEMS \<and>
     map sy_name new = take (MAX_DATA_SYSTEMS - length systems) (map configured_name (filter is_enabled js)) \<and>
     (\<forall>sy \<in> set new. length (sy_queries sy) \<le> 1)"
proof (induction js arbitrary: i systems)
  case (Cons item js)
  from Cons.prems(1) obtain mid where mid: "load_system (heap i) dcpam staging item systems = Inr (Some mid)"
    "load_systems heap dcpam staging (Suc i) js mid = Inr (Some systems')"
    by (auto simp: pbind_Some)
  show ?case
  proof (cases "is_enabled item \<and> length systems < MAX_DATA_SYSTEMS")
    case True
    with load_system_result [OF mid(1)] obtain sy where sy: "mid = systems @ [sy]"
      "sy_name sy = configured_name item" "length (sy_queries sy) \<le> 1" by auto
    with True Cons.IH [OF mid(2)] obtain new where
      "systems' = mid @ new" "length systems' \<le> MAX_DATA_SYSTEMS"
      "map sy_name new = take (MAX_DATA_SYSTEMS - length mid) (map configured_name (filter is_enabled js))"
      "\<forall>sy \<in> set new. length (sy_queries sy) \<le> 1" by auto
    with sy True have "systems' = systems @ (sy # new)"
      "map sy_name (sy # new) = take (MAX_DATA_SYSTEMS - length systems) (map configured_name (filter is_enabled (item # js)))"
      by (simp_all add: take_Cons' Suc_diff_Suc)
    then show ?thesis using sy(3) \<open>length systems' \<le> _\<close> \<open>\<forall>sy \<in> set new. _\<close> by (metis set_ConsD)
  next
    case False
    with load_system_result [OF mid(1)] have "mid = systems" by (simp split: if_splits)
    with False Cons.IH [OF mid(2)] Cons.prems(2) show ?thesis by auto
  qed
qed simp

text \<open>
  C33: the systems that run: when the configuration is loaded, the data systems are the first four enabled
  ones, in the order of the configuration, each with at most one query. A disabled system is skipped; an
  enabled one behind the fourth is left out, and the loading still succeeds.
\<close>

theorem first_four_systems_run:
  assumes "load_systems heap dcpam staging i js [] = Inr (Some systems)"
  shows "map sy_name systems = take MAX_DATA_SYSTEMS (map configured_name (filter is_enabled js)) \<and>
         (\<forall>sy \<in> set systems. length (sy_queries sy) \<le> 1)"
  using load_systems_result [OF assms] by auto

text \<open>
  A second query is read outside the memory of the first: \<open>DATABASE_SYSTEM_add\<close> is given
  \<open>*tmp_queries\<close>, a pointer to one query, with the count of all of them. Every enabled system with more
  than one query that would be registered ends the loader with an access out of bounds.
\<close>

theorem second_query_out_of_bounds:
  assumes "is_enabled item" "cJSON_GetObjectItem item ''name'' = Some name" "cJSON_GetObjectItem item ''DB'' = Some info"
    "each_part (need info) db_keys = Inr (Some ks)" "db_of info (mem_db mem) = Inr db"
    "cJSON_GetObjectItem item ''queries'' = Some arr" "load_queries arr = Inr (Some qs)"
    "cJSON_GetObjectItem item ''FILE'' = None" "length systems < MAX_DATA_SYSTEMS" "1 < length qs"
  shows "load_system mem dcpam staging item systems = Inl Out_of_bounds"
  using assms by (simp add: load_system_def register_system_def is_enabled_def need_def)

section \<open>Starting without an LCS\<close>

text \<open>
  The optional LCS is needed: without the \<open>LCS\<close> part the configuration is loaded, and so it is, with
  nothing in it, when the file is not JSON at all; in both cases the thread that answers the LCS then
  dereferences the host that was never set.
\<close>

theorem etl_needs_an_lcs:
  assumes "content = Some s" "lr_lcs_host (ap_lcs_report app) = None"
    "parse s = None \<or> (\<exists>config app'. parse s = Some config \<and> cJSON_GetObjectItem config ''LCS'' = None \<and>
       DCPAM_load_configuration parse heap mem_sa content app = Inr (Some app'))"
  shows "(\<exists>app'. DCPAM_load_configuration parse heap mem_sa content app = Inr (Some app')) \<and>
    etl_start sys ls parse heap mem_sa content app rounds st w = Inl Null_pointer"
proof -
  have "\<exists>app'. DCPAM_load_configuration parse heap mem_sa content app = Inr (Some app') \<and>
      lr_lcs_host (ap_lcs_report app') = None"
  proof (cases "parse s")
    case None
    with assms(1,2) show ?thesis by (simp add: DCPAM_load_configuration_def)
  next
    case (Some config)
    with assms(3) obtain app' where lcs: "cJSON_GetObjectItem config ''LCS'' = None"
      and ok: "DCPAM_load_configuration parse heap mem_sa content app = Inr (Some app')" by auto
    from ok Some assms(1) lcs obtain app1 systems where
      l: "load_app mem_sa config app = Inr (Some app1)" and a: "app' = app1\<lparr>ap_lcs_conn := False, ap_systems := systems\<rparr>"
      by (auto simp: DCPAM_load_configuration_def pbind_Some load_lcs_def)
    from l have "ap_lcs_report app1 = ap_lcs_report app"
      by (auto simp: load_app_def pbind_Some obind_Inr)
    with ok a assms(2) show ?thesis by auto
  qed
  then show ?thesis by (auto simp: etl_start_def DCPAM_LCS_worker_def deref_def)
qed

section \<open>A ping and its answer\<close>

lemma response_text_read: "cstring s \<Longrightarrow> response_text (map Some s @ [Some NUL]) = Inr s"
  by (induction s) (auto simp: cstring_def)

lemma pong_cstring: "cstring pong_text" "cstring ping_text" "ping_text \<noteq> []"
  by (simp_all add: pong_text_def ping_text_def cstring_def)

text \<open>
  C36: the two sides of a ping: the ETL answers the ping of the LCS with a pong and closes the connection,
  and an LCS whose check receives that answer in one read sees the component as online.
\<close>

theorem ping_is_answered_and_seen:
  assumes "parse ping_text = Some (JObject [(''msg'', JString ''ping'')])"
    "parse pong_text = Some (JObject [(''msg'', JString ''pong'')])"
    "client < length (so_clients st)" "so_session st \<noteq> 0"
    "os_send sys (fst (so_clients st ! client)) pong_text w = (n, w1)" "0 < n"
    "co_ip dst = Some ip" "NET_CONN_init net fresh ip (co_port dst) False v = (True, c1, v1)"
    "NET_CONN_connect net c1 ip (co_port dst) False v1 = (True, c2, v2)"
    "nc_initialized c2" "nc_connected c2" "net_send net (nc_cSSL c2) (nc_socket c2) ping_text v2 = (True, v3)"
    "delivers net (nc_cSSL c2) (nc_socket c2) [pong_text] v3 v4"
  shows "DCPAM_ETL_LCS_listener sys parse ping_text client st w =
      Inr (SOCKET_close sys (so_session st) (SOCKET_unregister_client (so_session st) st) w1) \<and>
    (\<exists>st' v'. LCS_COMPONENT_check net parse fresh dst u v = Some (Inr (True, st', v')))"
proof
  have "cstr_of ping_text = ping_text" using pong_cstring by (simp add: cstr_of_all)
  then show "DCPAM_ETL_LCS_listener sys parse ping_text client st w =
      Inr (SOCKET_close sys (so_session st) (SOCKET_unregister_client (so_session st) st) w1)"
    using assms(1,3-6) pong_cstring
    by (simp add: DCPAM_ETL_LCS_listener_def Let_def reads to_lower_def valuestring_def deref_def send_ok)
  let ?c = "c2\<lparr>nc_response := Some (map Some pong_text @ [Some NUL]), nc_response_len := length pong_text\<rparr>"
  have "NET_CONN_send net c2 ping_text v2 = Some (True, ?c, v4)"
    using NET_CONN_send_full [OF assms(10-13)] by simp
  moreover have "is_pong parse ?c = Inr True"
    using assms(2) response_text_read [OF pong_cstring(1)]
    by (simp add: is_pong_def reads to_lower_def valuestring_def) (simp add: pong_text_def)
  ultimately show "\<exists>st' v'. LCS_COMPONENT_check net parse fresh dst u v = Some (Inr (True, st', v'))"
    using assms(7-9) by (simp add: LCS_COMPONENT_check_def)
qed

section \<open>Concrete inputs\<close>

definition demo_db_json :: json where
  "demo_db_json = JObject
     [(''ip'', JString ''10.0.0.2''), (''port'', JNumber 5432), (''driver'', JNumber 1), (''user'', JString ''u''),
      (''db'', JString ''erp''), (''password'', JString ''p''), (''connection_string'', JString ''c''), (''name'', JString ''src'')]"

definition demo_system_json :: "int \<Rightarrow> string \<Rightarrow> json list \<Rightarrow> json" where
  "demo_system_json on name qs = JObject
     [(''enabled'', JNumber on), (''name'', JString name), (''DB'', demo_db_json), (''queries'', JArray qs)]"

definition zero_file :: DATABASE_SYSTEM_FLAT_FILE where
  "zero_file =
     \<lparr>ff_preprocessor = None, ff_name = [], ff_columns = [], ff_load_sql = [], ff_delimiter = NUL, ff_csv_delimiter = None,
      ff_json = False, ff_type = FFT_XML,
      ff_http = \<lparr>http_active = 0, http_headers = [], http_payload = None, http_payload_len = 0, http_method = None\<rparr>\<rparr>"

definition demo_memory :: memory where
  "demo_memory = \<lparr>mem_db = zero_db, mem_file = zero_file, mem_staging = zero_db, mem_copy = zero_file\<rparr>"

lemma lower_FILE: "to_lower CHR ''F'' = CHR ''f''" "to_lower CHR ''I'' = CHR ''i''" "to_lower CHR ''L'' = CHR ''l''"
  "to_lower CHR ''E'' = CHR ''e''" "to_lower CHR ''m'' = CHR ''m''" "to_lower CHR ''n'' = CHR ''n''"
  "to_lower CHR ''a'' = CHR ''a''" "to_lower CHR ''q'' = CHR ''q''"
  by code_simp+

lemma demo_json_simps:
  "enabled (demo_system_json on n qs) = Inr (Some (valueint (JNumber on) \<noteq> 0))"
  "cJSON_GetObjectItem (demo_system_json on n qs) ''name'' = Some (JString n)"
  "cJSON_GetObjectItem (demo_system_json on n qs) ''DB'' = Some demo_db_json"
  "cJSON_GetObjectItem (demo_system_json on n qs) ''queries'' = Some (JArray qs)"
  "cJSON_GetObjectItem (demo_system_json on n qs) ''FILE'' = None"
  by (simp_all add: demo_system_json_def reads to_lower_def enabled_def need_def lower_FILE [unfolded to_lower_def, simplified])

definition demo_source :: DATABASE_SYSTEM_DB where
  "demo_source =
     zero_db\<lparr>db_name := Some ''src'', db_ip := Some ''10.0.0.2'', db_port := 5432, db_driver := Some D_POSTGRESQL,
       db_user := Some ''u'', db_password := Some ''p'', db_db := Some ''erp'', db_connection_string := Some ''c''\<rparr>"

lemma demo_db_parts:
  "db_of demo_db_json zero_db = Inr demo_source"
  "\<exists>ks. each_part (need demo_db_json) db_keys = Inr (Some ks)"
proof -
  show "db_of demo_db_json zero_db = Inr demo_source" by code_simp
  have "case each_part (need demo_db_json) db_keys of Inr (Some ks) \<Rightarrow> True | _ \<Rightarrow> False" by code_simp
  then show "\<exists>ks. each_part (need demo_db_json) db_keys = Inr (Some ks)" by (auto split: sum.splits option.splits)
qed

lemma load_queries_read:
  assumes "\<forall>q \<in> set qs. load_query_item (query_json q) = Inr (Some q)" "length qs \<le> MAX_SYSTEM_QUERIES"
  shows "load_queries (JArray (map query_json qs)) = Inr (Some qs)"
  using assms by (simp add: load_queries_def reads take_map each_part_map)

lemma demo_query_read: "load_query_item (query_json demo_query) = Inr (Some demo_query)"
  by (rule load_query_item_read [OF demo_query_ok]) (simp_all add: demo_query_def)

lemma demo_load:
  "load_system demo_memory demo_source None (demo_system_json on n []) systems =
     Inr (Some (if valueint (JNumber on) = 0 \<or> MAX_DATA_SYSTEMS \<le> length systems then systems
                else systems @ [zero_system\<lparr>sy_name := Some n, sy_system_db := demo_source, sy_dcpam_db := demo_source\<rparr>]))"
proof -
  obtain ks where "each_part (need demo_db_json) db_keys = Inr (Some ks)" using demo_db_parts(2) by blast
  moreover have "copy_db demo_source zero_db = Inr demo_source"
    by (simp add: copy_db_def DATABASE_SYSTEM_DB_add_def demo_source_def zero_db_def)
  ultimately show ?thesis
    using load_queries_read [of "[]"]
    by (simp add: load_system_def register_system_def demo_json_simps need_def demo_db_parts(1) demo_memory_def deref_def valuestring_def
        DATABASE_SYSTEM_add_def zero_system_def)
qed

definition demo_systems :: "json list" where
  "demo_systems =
     [demo_system_json 1 ''a'' [], demo_system_json 0 ''b'' [], demo_system_json 1 ''c'' [],
      demo_system_json 1 ''d'' [], demo_system_json 1 ''e'' [], demo_system_json 1 ''f'' []]"

theorem first_four_systems_run_witness:
  "\<exists>systems. load_systems (\<lambda>_. demo_memory) demo_source None 0 demo_systems [] = Inr (Some systems) \<and>
     map sy_name systems = [Some ''a'', Some ''c'', Some ''d'', Some ''e'']"
proof -
  obtain systems where s: "load_systems (\<lambda>_. demo_memory) demo_source None 0 demo_systems [] = Inr (Some systems)"
    by (simp add: demo_systems_def demo_load valueint_def MAX_DATA_SYSTEMS_def)
  have "take MAX_DATA_SYSTEMS (map configured_name (filter is_enabled demo_systems)) = [Some ''a'', Some ''c'', Some ''d'', Some ''e'']"
    by (simp add: demo_systems_def is_enabled_def demo_json_simps configured_name_def valuestring_def valueint_def MAX_DATA_SYSTEMS_def)
  with first_four_systems_run [OF s] s show ?thesis by simp
qed

theorem second_query_out_of_bounds_witness:
  "load_system demo_memory demo_source None (demo_system_json 1 ''a'' (map query_json [demo_query, demo_query])) [] =
     Inl Out_of_bounds"
proof -
  obtain ks where ks: "each_part (need demo_db_json) db_keys = Inr (Some ks)" using demo_db_parts(2) by blast
  have "load_queries (JArray (map query_json [demo_query, demo_query])) = Inr (Some [demo_query, demo_query])"
    by (rule load_queries_read) (simp_all add: demo_query_read MAX_SYSTEM_QUERIES_def)
  from second_query_out_of_bounds [OF _ _ _ ks _ _ this, of "demo_system_json 1 ''a'' (map query_json [demo_query, demo_query])"]
  show ?thesis
    by (simp add: is_enabled_def demo_json_simps valueint_def demo_memory_def demo_db_parts(1) MAX_DATA_SYSTEMS_def)
qed

definition demo_app :: DCPAM_APP where
  "demo_app =
     \<lparr>ap_version = None, ap_name = None, ap_run_once = 0, ap_DB = zero_db, ap_STAGING = None, ap_lcs_conn = False,
      ap_lcs_report = demo_report\<lparr>lr_lcs_host := None\<rparr>, ap_lcs_port = 0, ap_systems = []\<rparr>"

definition demo_listen :: "int set list listen_os" where
  "demo_listen =
     \<lparr>ls_socket = (\<lambda>w. (3, w)), ls_option = (\<lambda>fd x w. w), ls_bind = (\<lambda>fd p w. (True, w)),
      ls_nonblock = (\<lambda>fd w. (True, w)), ls_listen = (\<lambda>fd n w. (True, w))\<rparr>"

theorem etl_needs_an_lcs_witness:
  "etl_start demo_os demo_listen (\<lambda>s. None) (\<lambda>_. demo_memory) zero_db (Some ''{ not JSON'') demo_app 1 demo_sock [] =
     Inl Null_pointer"
  using etl_needs_an_lcs [of "Some ''{ not JSON''" "''{ not JSON''" demo_app "\<lambda>s. None" "\<lambda>_. demo_memory" zero_db
      demo_os demo_listen 1 demo_sock "[]"]
  by (simp add: demo_app_def)

definition demo_parse :: "string \<Rightarrow> json option" where
  "demo_parse s =
     (if s = ping_text then Some (JObject [(''msg'', JString ''ping'')])
      else if s = pong_text then Some (JObject [(''msg'', JString ''pong'')]) else None)"

theorem ping_is_answered_and_seen_witness:
  "\<exists>st' v'. LCS_COMPONENT_check (demo_net True) demo_parse (demo_conn\<lparr>nc_socket := 0\<rparr>) (demo_component\<lparr>co_ip := Some ''10.0.0.1''\<rparr>)
     demo_sock ([pong_text], []) = Some (Inr (True, st', v'))"
proof -
  let ?n = "demo_net True" and ?d = "demo_component\<lparr>co_ip := Some ''10.0.0.1''\<rparr>"
  let ?i = "NET_CONN_init ?n (demo_conn\<lparr>nc_socket := 0\<rparr>) ''10.0.0.1'' (co_port ?d) False ([pong_text], [])"
  let ?c = "NET_CONN_connect ?n (fst (snd ?i)) ''10.0.0.1'' (co_port ?d) False (snd (snd ?i))"
  have p: "demo_parse ping_text = Some (JObject [(''msg'', JString ''ping'')])"
    "demo_parse pong_text = Some (JObject [(''msg'', JString ''pong'')])"
    by (simp_all add: demo_parse_def ping_text_def pong_text_def)
  have i: "?i = (True, fst (snd ?i), snd (snd ?i))" "?c = (True, fst (snd ?c), snd (snd ?c))"
    "nc_initialized (fst (snd ?c))" "nc_connected (fst (snd ?c))"
    by code_simp+
  have s: "net_send ?n (nc_cSSL (fst (snd ?c))) (nc_socket (fst (snd ?c))) ping_text (snd (snd ?c)) = (True, snd (snd ?c))"
    by (simp add: demo_net_def)
  have d: "delivers ?n (nc_cSSL (fst (snd ?c))) (nc_socket (fst (snd ?c))) [pong_text] (snd (snd ?c)) ([], snd (snd (snd ?c)))"
    by (simp add: demo_net_def NET_CONN_init_def NET_CONN_connect_def conn_target_def Let_def RECV_LEN_def pong_text_def)
  have "DCPAM_ETL_LCS_listener demo_os demo_parse ping_text 0 demo_sock [] =
      Inr (SOCKET_close demo_os (so_session demo_sock) (SOCKET_unregister_client (so_session demo_sock) demo_sock) []) \<and>
    (\<exists>st' v'. LCS_COMPONENT_check ?n demo_parse (demo_conn\<lparr>nc_socket := 0\<rparr>) ?d demo_sock ([pong_text], []) =
       Some (Inr (True, st', v')))"
    by (rule ping_is_answered_and_seen [OF p _ _ _ _ _ i s d, where n = 15])
      (simp_all add: demo_sock_def demo_os_def pong_text_def)
  then show ?thesis by blast
qed

end
