(* ===== verification/Rdp_Server.thy ===== *)
theory Rdp_Server
  imports Etl_Transform Lcs_Server
begin

text \<open>
  \<open>src/DCPAM_RDP/dcpam-rdp.c\<close>: the remote data processor, which parses the command of an ETL node,
  checks its key and runs the script. The second part joins it to the sender in
  \<open>src/core/db/etl/transform.c\<close>: what one writes the other reads, and what one answers the other
  understands. The configuration file is read in \<open>Server_Config\<close>.
\<close>

section \<open>Scanning a command\<close>

text \<open>
  The conversions of the \<open>sscanf\<close> in \<open>DCPAM_script_exec\<close>: literal text, white space, \<open>%ns\<close>, \<open>%nd\<close> and
  \<open>%n[^"]\<close>. Scanning stops at the first one that does not match; the variables behind it keep their
  values.
\<close>

datatype conv = Lit string | White | Word nat | Num nat | Quoted nat

datatype scanned = S string | I int

text \<open>\<open>%nd\<close>: at most \<open>n\<close> characters, the sign included.\<close>

definition scan_num :: "nat \<Rightarrow> string \<Rightarrow> (int \<times> string) option" where
  "scan_num n s =
     (let s = dropWhile is_space s; k = take n s in
      case scan_int k of
        None \<Rightarrow> None
      | Some (v, rest) \<Rightarrow> Some (v, rest @ drop n s))"

fun scan_fields :: "conv list \<Rightarrow> string \<Rightarrow> scanned list" where
  "scan_fields [] s = []"
| "scan_fields (Lit l # cs) s = (case scan_lit l s of None \<Rightarrow> [] | Some s \<Rightarrow> scan_fields cs s)"
| "scan_fields (White # cs) s = scan_fields cs (dropWhile is_space s)"
| "scan_fields (Word n # cs) s = (case scan_word n s of None \<Rightarrow> [] | Some (t, s) \<Rightarrow> S t # scan_fields cs s)"
| "scan_fields (Num n # cs) s = (case scan_num n s of None \<Rightarrow> [] | Some (i, s) \<Rightarrow> I i # scan_fields cs s)"
| "scan_fields (Quoted n # cs) s = (case scan_until n DQ s of None \<Rightarrow> [] | Some (t, s) \<Rightarrow> S t # scan_fields cs s)"

definition rdp_format :: "conv list" where
  "rdp_format =
     [Lit ''m='', Word 255, White, Lit ''dhost='', Word 99, White, Lit ''dport='', Num 5, White,
      Lit ''duser='', Word 99, White, Lit ''dpass='', Word 99, White, Lit ''ddriver='', Num 2, White,
      Lit (''dconn='' @ dq), Quoted 1024, Lit dq, White,
      Lit ''shost='', Word 99, White, Lit ''sport='', Num 5, White, Lit ''suser='', Word 99, White,
      Lit ''spass='', Word 99, White, Lit ''sdriver='', Num 2, White,
      Lit (''sconn='' @ dq), Quoted 1024, Lit dq, White, Lit ''key='', Word 63]"

section \<open>Running a script\<close>

record 'w rdp_env =
  re_os :: "'w os"
  re_popen :: "string \<Rightarrow> 'w \<Rightarrow> string option \<times> 'w"
  re_report :: "string \<Rightarrow> COMPONENT_ACTION_TYPE \<Rightarrow> 'w \<Rightarrow> 'w"

record R_DCPAM_APP =
  ra_name :: string
  ra_version :: string
  ra_allowed_hosts :: "(string \<times> string) list"

definition scanned_text :: "scanned \<Rightarrow> string" where
  "scanned_text f = (case f of S t \<Rightarrow> t | I i \<Rightarrow> show_int i)"

definition exec_format :: string where
  "exec_format =
     ''%s --dhost %s --dport %d --duser %s --dpass %s --ddriver %d --dconn '' @ dq @ ''%s'' @ dq @
     '' --shost %s --sport %d --suser %s --spass %s --sdriver %d --sconn '' @ dq @ ''%s'' @ dq"

text \<open>The buffers of the connection strings have 1024 bytes, the conversion may store 1025.\<close>

definition fields_fit :: "scanned list \<Rightarrow> bool" where
  "fields_fit fs \<longleftrightarrow> (\<forall>i \<in> {6, 12}. i < length fs \<longrightarrow> length (scanned_text (fs ! i)) < 1024)"

text \<open>The key is the fourteenth field, zeroed before the scan.\<close>

definition scanned_key :: "scanned list \<Rightarrow> string" where
  "scanned_key fs = (if length fs = 14 then scanned_text (fs ! 13) else [])"

definition refuse :: "'w rdp_env \<Rightarrow> nat \<Rightarrow> sock_state \<Rightarrow> 'w \<Rightarrow> (sock_state \<times> 'w) outcome" where
  "refuse env client st w =
     obind (SOCKET_send (re_os env) client ''-1'' 2 st w) (\<lambda>(st, w). Inr (SOCKET_disconnect_client (re_os env) st w))"

text \<open>
  \<open>DCPAM_script_exec\<close> as the handler of \<open>SOCKET_run\<close>. The command is built from all thirteen fields
  before the key: one that was not scanned is uninitialised. A failed \<open>popen\<close> is answered and then
  passed to \<open>pclose\<close>.
\<close>

definition DCPAM_script_exec ::
  "'w rdp_env \<Rightarrow> R_DCPAM_APP \<Rightarrow> string \<Rightarrow> nat \<Rightarrow> sock_state \<Rightarrow> 'w \<Rightarrow> (sock_state \<times> 'w) outcome" where
  "DCPAM_script_exec env app content client st w =
     (let content = cstr_of content; sys = re_os env in
      if contains content ''m=./'' \<and> \<not> contains content ''..''
      then
        (let fs = scan_fields rdp_format content; key = scanned_key fs; ip = so_ip st in
         if \<not> fields_fit fs then Inl Out_of_bounds
         else
           obind (key_allowed (ra_allowed_hosts app) ip (Some key)) (\<lambda>allowed.
             if \<not> allowed then refuse env client st w
             else if length fs < 13 then Inl Uninitialised
             else
               (let command = snprintf_s 4096 exec_format (map scanned_text (take 13 fs));
                    args = [ra_name app, ra_version app, ip, key, command];
                    fmt = ''[%s %s] Executing command (client: %s, key: %s): %s'';
                    descr = snprintf_s (length fmt + sum_list (map length args) + 2) fmt args;
                    w = re_report env descr DCT_START w
                in case re_popen env command w of
                     (None, w) \<Rightarrow> obind (refuse env client st w) (\<lambda>_. Inl Null_pointer)
                   | (Some out, w) \<Rightarrow>
                       if out = [] then refuse env client st w
                       else
                         obind (SOCKET_send sys client ''1'' 1 st w) (\<lambda>(st, w).
                           case SOCKET_disconnect_client sys st w of
                             (st, w) \<Rightarrow> Inr (st, re_report env descr DCT_STOP w)))))
      else if content = ping_text
      then
        (let pong = ''{'' @ DQ # ''msg'' @ DQ # '': '' @ DQ # ''pong'' @ DQ # ''}'' in
         obind (SOCKET_send sys client pong (length pong) st w)
           (\<lambda>(st, w). Inr (SOCKET_disconnect_client sys st w)))
      else refuse env client st w)"

text \<open>
  \<open>DCPAM_RDP_worker\<close>: the hosts are the configured ones and the LCS, but the count passed on is that of
  the configured ones.
\<close>

definition rdp_hosts :: "R_DCPAM_APP \<Rightarrow> string \<Rightarrow> string list \<times> nat" where
  "rdp_hosts app lcs_host = (map fst (ra_allowed_hosts app) @ [lcs_host], length (ra_allowed_hosts app))"

definition DCPAM_RDP_worker ::
  "'w rdp_env \<Rightarrow> 'w listen_os \<Rightarrow> R_DCPAM_APP \<Rightarrow> string \<Rightarrow> int \<Rightarrow> nat \<Rightarrow> sock_state \<Rightarrow> 'w \<Rightarrow>
   (sock_state option \<times> 'w) outcome" where
  "DCPAM_RDP_worker env ls app lcs_host port rounds st w =
     (case rdp_hosts app lcs_host of
        (hosts, n) \<Rightarrow> SOCKET_main ls (re_os env) (Some (DCPAM_script_exec env app)) port hosts n rounds st w)"

section \<open>Reading back a command\<close>

definition word_ok :: "nat \<Rightarrow> string \<Rightarrow> bool" where
  "word_ok n w \<longleftrightarrow> w \<noteq> [] \<and> length w \<le> n \<and> (\<forall>c \<in> set w. \<not> is_space c)"

definition quoted_ok :: "string \<Rightarrow> bool" where
  "quoted_ok t \<longleftrightarrow> t \<noteq> [] \<and> length t < 1024 \<and> DQ \<notin> set t"

lemma scan_word_append:
  assumes "word_ok n w" "x = [] \<or> is_space (hd x)"
  shows "scan_word n (w @ x) = Some (w, x)"
proof -
  obtain c cs where w: "w = c # cs" "\<not> is_space c" using assms(1) by (cases w) (auto simp: word_ok_def)
  have nb: "\<forall>y \<in> set w. \<not> is_space y" using assms(1) by (simp add: word_ok_def)
  have tw: "takeWhile (\<lambda>c. \<not> is_space c) (w @ x) = w"
    using nb assms(2) by (cases x) (auto intro: takeWhile_prefix simp: takeWhile_eq_all_conv)
  have dw: "dropWhile is_space (w @ x) = w @ x" using w by simp
  have tk: "take n w = w" "w \<noteq> []" using assms(1) by (simp_all add: word_ok_def)
  show ?thesis unfolding scan_word_def dw Let_def tw tk(1) using tk(2) by simp
qed

lemma scan_word_ok:
  assumes "word_ok n w"
  shows "scan_word n (w @ CHR '' '' # r) = Some (w, CHR '' '' # r)" "scan_word n w = Some (w, [])"
  using scan_word_append [OF assms, of "CHR '' '' # r"] scan_word_append [OF assms, of "[]"]
  by (simp_all add: is_space_def)

lemma scan_num_show:
  assumes "0 \<le> i" "length (show_int i) \<le> n"
  shows "scan_num n (show_int i @ CHR '' '' # r) = Some (i, CHR '' '' # r)"
proof -
  let ?d = "show_nat (nat i)" and ?m = "n - length (show_nat (nat i))"
  have i: "show_int i = ?d" using assms(1) by (simp add: show_int_def)
  obtain c cs where s: "?d = c # cs" by (cases ?d) auto
  then have "is_digit c" using show_nat_digits [of "nat i"] by simp
  then have "\<not> is_space c" by (auto simp: is_digit_def is_space_def)
  then have dw: "dropWhile is_space (?d @ CHR '' '' # r) = ?d @ CHR '' '' # r" using s by simp
  have "take ?m (CHR '' '' # r) = [] \<or> \<not> is_digit (hd (take ?m (CHR '' '' # r)))"
    by (cases ?m) (auto simp: is_digit_def)
  from scan_int_show_nat [OF this, of "nat i"]
  have "scan_int (take n (?d @ CHR '' '' # r)) = Some (i, take ?m (CHR '' '' # r))"
    using assms i by simp
  moreover have "drop n (?d @ CHR '' '' # r) = drop ?m (CHR '' '' # r)"
    using assms(2) i by simp
  ultimately show ?thesis
    unfolding scan_num_def Let_def i dw by (simp only: option.case prod.case append_take_drop_id)
qed

lemma scan_until_quoted:
  assumes "quoted_ok t"
  shows "scan_until 1024 DQ (t @ DQ # r) = Some (t, DQ # r)"
proof -
  have "takeWhile (\<lambda>c. c \<noteq> DQ) (t @ DQ # r) = t"
    using assms by (intro takeWhile_prefix) (auto simp: quoted_ok_def)
  with assms show ?thesis unfolding scan_until_def Let_def quoted_ok_def by simp
qed

lemma scan_lit_append: "scan_lit l (l @ s) = Some s"
  by (simp add: scan_lit_def)

lemma scan_steps:
  "scan_fields (Lit l # cs) (l @ s) = scan_fields cs s"
  "word_ok n w \<Longrightarrow> scan_fields (Word n # cs) (w @ CHR '' '' # s) = S w # scan_fields cs (CHR '' '' # s)"
  "0 \<le> i \<Longrightarrow> length (show_int i) \<le> n \<Longrightarrow>
   scan_fields (Num n # cs) (show_int i @ CHR '' '' # s) = I i # scan_fields cs (CHR '' '' # s)"
  "quoted_ok t \<Longrightarrow>
   scan_fields (Quoted 1024 # Lit dq # cs) (t @ DQ # s) = S t # scan_fields cs s"
  "word_ok n w \<Longrightarrow> scan_fields [Word n] w = [S w]"
  by (simp_all add: scan_lit_append scan_word_ok scan_num_show scan_until_quoted dq_def scan_lit_def)

lemma White_Lit:
  assumes "l \<noteq> []" "\<not> is_space (hd l)"
  shows "scan_fields (White # Lit l # cs) (CHR '' '' # l @ s) = scan_fields cs s"
proof -
  obtain c k where "l = c # k" using assms(1) by (cases l) auto
  with assms(2) have "dropWhile is_space (CHR '' '' # l @ s) = l @ s" by (simp add: is_space_def)
  then show ?thesis by (simp only: scan_fields.simps scan_lit_append option.case)
qed

lemma scan_literals:
  "scan_fields (White # Lit ''dhost='' # cs) (CHR '' '' # ''dhost='' @ s) = scan_fields cs s"
  "scan_fields (White # Lit ''dport='' # cs) (CHR '' '' # ''dport='' @ s) = scan_fields cs s"
  "scan_fields (White # Lit ''duser='' # cs) (CHR '' '' # ''duser='' @ s) = scan_fields cs s"
  "scan_fields (White # Lit ''dpass='' # cs) (CHR '' '' # ''dpass='' @ s) = scan_fields cs s"
  "scan_fields (White # Lit ''ddriver='' # cs) (CHR '' '' # ''ddriver='' @ s) = scan_fields cs s"
  "scan_fields (White # Lit (''dconn='' @ dq) # cs) (CHR '' '' # (''dconn='' @ dq) @ s) = scan_fields cs s"
  "scan_fields (White # Lit ''shost='' # cs) (CHR '' '' # ''shost='' @ s) = scan_fields cs s"
  "scan_fields (White # Lit ''sport='' # cs) (CHR '' '' # ''sport='' @ s) = scan_fields cs s"
  "scan_fields (White # Lit ''suser='' # cs) (CHR '' '' # ''suser='' @ s) = scan_fields cs s"
  "scan_fields (White # Lit ''spass='' # cs) (CHR '' '' # ''spass='' @ s) = scan_fields cs s"
  "scan_fields (White # Lit ''sdriver='' # cs) (CHR '' '' # ''sdriver='' @ s) = scan_fields cs s"
  "scan_fields (White # Lit (''sconn='' @ dq) # cs) (CHR '' '' # (''sconn='' @ dq) @ s) = scan_fields cs s"
  "scan_fields (White # Lit ''key='' # cs) (CHR '' '' # ''key='' @ s) = scan_fields cs s"
  by (rule White_Lit; simp add: is_space_def)+

lemma scan_first: "scan_fields (Lit ''m='' # cs) (''m='' @ s) = scan_fields cs s"
  by (simp only: scan_fields.simps scan_lit_append option.case)

text \<open>What the command can carry for one database.\<close>

definition wire_ok :: "DATABASE_SYSTEM_DB \<Rightarrow> bool" where
  "wire_ok db \<longleftrightarrow> word_ok 99 (str_arg (db_ip db)) \<and> 0 \<le> db_port db \<and> db_port db < 100000 \<and>
     word_ok 99 (str_arg (db_user db)) \<and> word_ok 99 (str_arg (db_password db)) \<and>
     quoted_ok (str_arg (db_connection_string db))"

definition db_fields :: "DATABASE_SYSTEM_DB \<Rightarrow> scanned list" where
  "db_fields db =
     [S (str_arg (db_ip db)), I (db_port db), S (str_arg (db_user db)), S (str_arg (db_password db)),
      I (driver_no (db_driver db)), S (str_arg (db_connection_string db))]"

lemma port_shown: "wire_ok db \<Longrightarrow> length (show_int (db_port db)) \<le> 5"
  using length_show_nat(2) [of "nat (db_port db)" 4] by (simp add: wire_ok_def show_int_def nat_less_iff)

lemma driver_shown: "0 \<le> driver_no d" "length (show_int (driver_no d)) \<le> 2"
  using length_show_nat(1) [of "nat (driver_no d)"]
  by (auto simp: driver_no_def show_int_def split: option.split DB_DRIVER.split)

lemma command_text:
  "sfmt remote_format (script # db_args d @ db_args s @ [key]) =
     ''m='' @ (''./'' @ script) @ CHR '' '' # ''dhost='' @ str_arg (db_ip d) @
     CHR '' '' # ''dport='' @ show_int (db_port d) @ CHR '' '' # ''duser='' @ str_arg (db_user d) @
     CHR '' '' # ''dpass='' @ str_arg (db_password d) @ CHR '' '' # ''ddriver='' @ show_int (driver_no (db_driver d)) @
     CHR '' '' # (''dconn='' @ dq) @ str_arg (db_connection_string d) @ DQ #
     CHR '' '' # ''shost='' @ str_arg (db_ip s) @
     CHR '' '' # ''sport='' @ show_int (db_port s) @ CHR '' '' # ''suser='' @ str_arg (db_user s) @
     CHR '' '' # ''spass='' @ str_arg (db_password s) @ CHR '' '' # ''sdriver='' @ show_int (driver_no (db_driver s)) @
     CHR '' '' # (''sconn='' @ dq) @ str_arg (db_connection_string s) @ DQ #
     CHR '' '' # ''key='' @ key"
  by (simp add: remote_format_def dq_def db_args_def)

text \<open>
  C5: the RDP reads what the ETL node writes: when the arguments fit the conversions (words without
  white space, connection strings that are not empty and hold no quote, a port below 100000), the
  command that \<open>CDC_TransformGeneric\<close> sends is not cut, and scanning it yields the script, the
  arguments of both databases and the key, each in its field.
\<close>

theorem rdp_reads_what_etl_writes:
  assumes "wire_ok d" "wire_ok s" "word_ok 253 script" "word_ok 63 key"
  shows "scan_fields rdp_format (snprintf_s 4096 remote_format (script # db_args d @ db_args s @ [key])) =
         S (''./'' @ script) # db_fields d @ db_fields s @ [S key]"
proof -
  let ?c = "sfmt remote_format (script # db_args d @ db_args s @ [key])"
  have m: "word_ok 255 (''./'' @ script)" using assms(3) by (auto simp: word_ok_def is_space_def)
  note ok = assms(1,2) [unfolded wire_ok_def]
  have lens: "length (str_arg (db_ip d)) \<le> 99" "length (str_arg (db_user d)) \<le> 99"
    "length (str_arg (db_password d)) \<le> 99" "length (str_arg (db_connection_string d)) < 1024"
    "length (str_arg (db_ip s)) \<le> 99" "length (str_arg (db_user s)) \<le> 99"
    "length (str_arg (db_password s)) \<le> 99" "length (str_arg (db_connection_string s)) < 1024"
    "length script \<le> 253" "length key \<le> 63"
    using ok assms(3,4) by (simp_all add: word_ok_def quoted_ok_def)
  note shown = port_shown [OF assms(1)] port_shown [OF assms(2)] driver_shown
  have "length ?c < 4096"
    unfolding command_text using lens shown(1,2) shown(4) [of "db_driver d"] shown(4) [of "db_driver s"]
    by (simp add: dq_def)
  then have "snprintf_s 4096 remote_format (script # db_args d @ db_args s @ [key]) = ?c"
    by (simp add: snprintf_s_def)
  moreover have "scan_fields rdp_format ?c = S (''./'' @ script) # db_fields d @ db_fields s @ [S key]"
    unfolding command_text rdp_format_def db_fields_def
    by (simp only: scan_first scan_steps(2-5) scan_literals ok shown m assms(4)) simp
  ultimately show ?thesis by simp
qed

section \<open>What the answers mean to the other side\<close>

text \<open>
  The verdict of the RDP does not reach the ETL node: the RDP answers \<open>1\<close> for a script that
  printed something and \<open>-1\<close> for everything that went wrong, while the sender looks for a \<open>0\<close> in the
  answer. A command the RDP receives with an unknown key is refused with \<open>-1\<close>, and the sender counts
  the transformation as successful.
\<close>

theorem refused_command_is_success:
  assumes "contains (cstr_of content) ''m=./''" "\<not> contains (cstr_of content) ''..''"
    "fields_fit (scan_fields rdp_format (cstr_of content))"
    "key_allowed (ra_allowed_hosts app) (so_ip st) (Some (scanned_key (scan_fields rdp_format (cstr_of content)))) =
       Inr False"
    "client < length (so_clients st)" "so_session st \<noteq> 0"
    "contains (tq_module t) ''dcpam://''" "scan_module (tq_module t) = (Some host, port, Some script)"
    "te_net_init te host port v = (True, v1)" "te_net_connect te host port v1 = (True, v2)"
    "\<And>c. fst (te_net_send te host port c v2) = Some ''-1''"
  shows "DCPAM_script_exec env app content client st w =
      obind (SOCKET_send (re_os env) client ''-1'' 2 st w)
        (\<lambda>(st, w). Inr (SOCKET_disconnect_client (re_os env) st w)) \<and>
    (\<exists>v'. CDC_TransformGeneric te t d s v = Inr (True, v'))"
proof
  show "DCPAM_script_exec env app content client st w =
      obind (SOCKET_send (re_os env) client ''-1'' 2 st w)
        (\<lambda>(st, w). Inr (SOCKET_disconnect_client (re_os env) st w))"
    using assms(1-4) by (simp add: DCPAM_script_exec_def refuse_def Let_def)
  have "\<not> contains ''-1'' ''0''" by (simp add: contains_def)
  moreover obtain v3 where "te_net_send te host port
      (snprintf_s 4096 remote_format (script # db_args d @ db_args s @ [str_arg (tq_api_key t)])) v2 = (Some ''-1'', v3)"
    using assms(11) by (metis prod.collapse)
  ultimately show "\<exists>v'. CDC_TransformGeneric te t d s v = Inr (True, v')"
    using assms(7-10) by (simp add: CDC_TransformGeneric_def Let_def)
qed

text \<open>
  The RDP refuses the LCS that watches it: the list of hosts ends with the LCS, but the count that
  is passed along leaves it out. Unless its address is also configured, or nothing is configured, a
  connection from the LCS is closed when it is accepted, without a request being read.
\<close>

theorem rdp_refuses_the_lcs:
  assumes "rdp_hosts app lcs_host = (hosts, n)" "lcs_host \<notin> fst ` set (ra_allowed_hosts app)"
    "ra_allowed_hosts app \<noteq> []" "os_accept (re_os env) w = (fd, lcs_host, w1)"
  shows "lcs_host \<in> set hosts \<and>
    accept_client (re_os env) hosts n st w =
      SOCKET_close (re_os env) fd
        (SOCKET_unregister_client fd ((SOCKET_modify_clients_count 1 st)\<lparr>so_newfd := fd, so_ip := lcs_host\<rparr>)) w1"
proof -
  have "\<not> SOCKET_client_host_allowed lcs_host hosts n"
    using assms(1-3) by (auto simp: rdp_hosts_def SOCKET_client_host_allowed_def)
  with assms show ?thesis by (auto simp: rdp_hosts_def accept_client_def Let_def)
qed

section \<open>Concrete inputs\<close>

definition wire_db :: DATABASE_SYSTEM_DB where
  "wire_db = demo_db D_POSTGRESQL\<lparr>db_ip := Some ''10.0.0.2'', db_port := 5432, db_user := Some ''etl'',
               db_password := Some ''secret'', db_connection_string := Some ''dbname=x''\<rparr>"

theorem rdp_reads_what_etl_writes_witness:
  "length (scan_fields rdp_format
     (snprintf_s 4096 remote_format (''/clean.sh'' # db_args wire_db @ db_args wire_db @ [''k'']))) = 14"
proof -
  have "wire_ok wire_db" "word_ok 253 ''/clean.sh''" "word_ok 63 ''k''"
    by (simp_all add: wire_ok_def wire_db_def demo_db_def word_ok_def quoted_ok_def str_arg_def is_space_def)
  from rdp_reads_what_etl_writes [OF this(1) this] show ?thesis by (simp add: db_fields_def)
qed

definition demo_rdp_env :: "int set list rdp_env" where
  "demo_rdp_env = \<lparr>re_os = demo_os, re_popen = (\<lambda>c w. (Some ''1'', w)), re_report = (\<lambda>d t w. w)\<rparr>"

definition demo_rdp :: R_DCPAM_APP where
  "demo_rdp = \<lparr>ra_name = ''RDP'', ra_version = ''1'', ra_allowed_hosts = [(''10.0.0.1'', ''k'')]\<rparr>"

theorem refused_command_is_success_witness:
  "\<exists>v'. CDC_TransformGeneric (demo_transform_env True (Some ''-1'')) (demo_module ''dcpam://rdp:9092/clean.sh'')
     (demo_db D_MYSQL) (demo_db D_MYSQL) [] = Inr (True, v')"
proof -
  have f: "scan_fields rdp_format (cstr_of ''m=./x'') = [S ''./x'']"
    by code_simp
  have m: "scan_module (tq_module (demo_module ''dcpam://rdp:9092/clean.sh'')) = (Some ''rdp'', 9092, Some ''/clean.sh'')"
    by code_simp
  have k: "key_allowed (ra_allowed_hosts demo_rdp) (so_ip demo_sock)
      (Some (scanned_key (scan_fields rdp_format (cstr_of ''m=./x'')))) = Inr False"
    unfolding f by (simp add: demo_rdp_def demo_sock_def scanned_key_def)
  have "DCPAM_script_exec demo_rdp_env demo_rdp ''m=./x'' 0 demo_sock [] =
      obind (SOCKET_send (re_os demo_rdp_env) 0 ''-1'' 2 demo_sock [])
        (\<lambda>(st, w). Inr (SOCKET_disconnect_client (re_os demo_rdp_env) st w)) \<and>
    (\<exists>v'. CDC_TransformGeneric (demo_transform_env True (Some ''-1'')) (demo_module ''dcpam://rdp:9092/clean.sh'')
     (demo_db D_MYSQL) (demo_db D_MYSQL) [] = Inr (True, v'))"
  proof (rule refused_command_is_success [OF _ _ _ k _ _ _ m])
  qed (simp_all add: f [unfolded cstr_of_def, simplified] cstr_of_def contains_def fields_fit_def demo_sock_def demo_module_def demo_transform_env_def)
  then show ?thesis by blast
qed

theorem rdp_refuses_the_lcs_witness:
  "''10.0.0.9'' \<in> set (fst (rdp_hosts demo_rdp ''10.0.0.9''))"
  using rdp_refuses_the_lcs [of demo_rdp "''10.0.0.9''" "fst (rdp_hosts demo_rdp ''10.0.0.9'')"
      "snd (rdp_hosts demo_rdp ''10.0.0.9'')" demo_rdp_env "[]" 7 "[]"]
  by (simp add: demo_rdp_def demo_rdp_env_def demo_os_def)

end
