(* ===== verification/Cache_Store.thy ===== *)
theory Cache_Store
  imports Db_System "HOL-Library.Word"
begin

text \<open>
  \<open>src/core/cache.c\<close> and \<open>src/DCPAM_WDS/sql_parser.c\<close>: the query results the WDS keeps in memory, the
  sub-caches that refer to rows of a cached result, and the accounting of memory. A pointer to a cache
  entry is its index. Sizes are 64-bit words. The world of the database drivers carries, beside the
  outside world, the index array that a sub-cache collects through its row callback. Printing
  functions are left out; the time to live is copied around and never compared with anything.
\<close>

section \<open>State\<close>

type_synonym 'w cworld = "'w \<times> nat list"

record D_CACHE =
  ca_query :: "DB_QUERY option"
  ca_db :: "DATABASE_SYSTEM_DB option"
  ca_size :: "64 word"
  ca_ttl :: int
  ca_generate_time :: int

text \<open>\<open>sc_indices_len\<close> is the count the readers trust, \<open>sc_indices\<close> the array.\<close>

record D_SUB_CACHE =
  sc_src :: nat
  sc_sql :: "string option"
  sc_indices_len :: "64 word"
  sc_indices :: "nat list"
  sc_generate_time :: int

record cache_state =
  cs_cache :: "D_CACHE list"
  cs_sub_cache :: "D_SUB_CACHE list"
  cs_size :: "64 word"
  cs_max_size :: "64 word"

section \<open>Accounting\<close>

definition DB_CACHE_add_size :: "D_CACHE \<Rightarrow> cache_state \<Rightarrow> cache_state" where
  "DB_CACHE_add_size src cs = (if 0 < ca_size src then cs\<lparr>cs_size := cs_size cs + ca_size src\<rparr> else cs)"

definition DB_CACHE_sub_size :: "D_CACHE \<Rightarrow> cache_state \<Rightarrow> cache_state" where
  "DB_CACHE_sub_size src cs = (if 0 < ca_size src then cs\<lparr>cs_size := cs_size cs - ca_size src\<rparr> else cs)"

definition record_size :: "DB_RECORD \<Rightarrow> nat" where
  "record_size r = sum_list (map (\<lambda>f. f_size f + length (f_label f)) (r_fields r))"

definition DB_CACHE_calc_size :: "DB_QUERY \<Rightarrow> 64 word outcome" where
  "DB_CACHE_calc_size q =
     (if q_row_count q \<le> length (q_records q)
      then Inr (of_nat (sum_list (map record_size (take (q_row_count q) (q_records q)))))
      else Inl Out_of_bounds)"

section \<open>Searching\<close>

fun find_index :: "('a \<Rightarrow> bool) \<Rightarrow> 'a list \<Rightarrow> nat option" where
  "find_index P [] = None"
| "find_index P (x # xs) = (if P x then Some 0 else map_option Suc (find_index P xs))"

definition cached_sql :: "D_CACHE \<Rightarrow> string option" where
  "cached_sql c = (case ca_query c of None \<Rightarrow> None | Some q \<Rightarrow> q_sql q)"

text \<open>The first entry whose statement occurs anywhere in the requested one.\<close>

definition DB_CACHE_subset_search :: "string \<Rightarrow> D_CACHE list \<Rightarrow> nat option" where
  "DB_CACHE_subset_search sql cache =
     find_index (\<lambda>c. case cached_sql c of Some s \<Rightarrow> contains sql s | None \<Rightarrow> False) cache"

fun DB_SUB_CACHE_exists :: "string \<Rightarrow> D_SUB_CACHE list \<Rightarrow> nat option outcome" where
  "DB_SUB_CACHE_exists sql [] = Inr None"
| "DB_SUB_CACHE_exists sql (s # ss) =
     (case sc_sql s of
        None \<Rightarrow> Inl Null_pointer
      | Some t \<Rightarrow>
          if sql = t then Inr (Some 0)
          else obind (DB_SUB_CACHE_exists sql ss) (\<lambda>i. Inr (map_option Suc i)))"

text \<open>Entry and sub-cache of exactly the statement, either of which may be missing.\<close>

definition DB_CACHE_get :: "string \<Rightarrow> cache_state \<Rightarrow> nat option \<times> nat option" where
  "DB_CACHE_get sql cs =
     (find_index (\<lambda>c. cached_sql c = Some sql) (cs_cache cs),
      find_index (\<lambda>s. sc_sql s = Some sql) (cs_sub_cache cs))"

section \<open>Collecting rows of a cached result\<close>

text \<open>
  Whether the fields of a record match those of a cached one: label (256 characters), size, bytes. The
  count is that of the cached result; a record without that many fields is read out of bounds. With no
  field at all there is no match.
\<close>

fun fields_match :: "nat \<Rightarrow> DB_FIELD list \<Rightarrow> DB_FIELD list \<Rightarrow> bool outcome" where
  "fields_match 0 cached fs = Inr True"
| "fields_match (Suc n) (c # cached) (f # fs) =
     (if strncmp_eq (f_label c) (f_label f) MAX_COLUMN_NAME_LEN \<and> f_size c = f_size f \<and> f_value c = f_value f
      then fields_match n cached fs else Inr False)"
| "fields_match (Suc n) _ _ = Inl Out_of_bounds"

fun matching_row :: "nat \<Rightarrow> DB_RECORD list \<Rightarrow> DB_RECORD \<Rightarrow> nat option outcome" where
  "matching_row field_count [] rec = Inr None"
| "matching_row field_count (r # rs) rec =
     (if field_count = 0 then Inr None
      else
        obind (fields_match field_count (r_fields r) (r_fields rec)) (\<lambda>same.
          if same then Inr (Some 0)
          else obind (matching_row field_count rs rec) (\<lambda>i. Inr (map_option Suc i))))"

text \<open>The row callback: the index of the first matching row is appended, a row without match is lost.\<close>

definition DB_CACHE_on_db_record :: "DB_QUERY \<Rightarrow> 'w cworld qec" where
  "DB_CACHE_on_db_record q rec = (\<lambda>(w, indices).
     if length (q_records q) < q_row_count q then Inl Out_of_bounds
     else
       obind (matching_row (q_field_count q) (take (q_row_count q) (q_records q)) rec) (\<lambda>i.
         Inr (w, case i of Some k \<Rightarrow> indices @ [k] | None \<Rightarrow> indices)))"

section \<open>Statements answered from memory: \<open>sql_parser.c\<close>\<close>

datatype SQL_CONDITION = SQL_COND_UNDEF | SQL_COND_LIMIT | SQL_COND_WHERE

definition SQL_PARSER_supported_conditions :: "string \<Rightarrow> SQL_CONDITION" where
  "SQL_PARSER_supported_conditions sql =
     (if contains sql '' LIMIT '' \<and> \<not> contains sql '' WHERE '' then SQL_COND_LIMIT else SQL_COND_UNDEF)"

text \<open>\<open>sscanf(pos, " LIMIT %99ld", ...)\<close> at the first \<open>LIMIT\<close>: the number after it.\<close>

definition limit_value :: "string \<Rightarrow> int option" where
  "limit_value sql =
     (case strstr sql '' LIMIT '' of
        None \<Rightarrow> None
      | Some i \<Rightarrow> map_option fst (scan_int (drop (i + length '' LIMIT'') sql)))"

text \<open>
  The first rows, as many as the limit says. The count becomes a 64-bit length whatever its sign; no
  index is stored for a negative one.
\<close>

definition SQL_PARSER_collect_data :: "DB_QUERY \<Rightarrow> D_SUB_CACHE \<Rightarrow> string \<Rightarrow> bool \<times> D_SUB_CACHE" where
  "SQL_PARSER_collect_data q sub_cache sql =
     (case limit_value sql of
        None \<Rightarrow> (False, sub_cache)
      | Some limit \<Rightarrow>
          (let max_count = (if int (q_row_count q) < limit then int (q_row_count q) else limit) in
           (True, sub_cache\<lparr>sc_indices_len := of_int max_count, sc_indices := [0..<nat max_count]\<rparr>)))"

section \<open>Creating entries\<close>

text \<open>
  \<open>DB_SUB_CACHE_init\<close> for the entry \<open>cache\<close> at index \<open>i\<close>. A statement that cannot be answered from memory
  is run on the database of the cached entry, its rows looked up one by one.
\<close>

definition DB_SUB_CACHE_init ::
  "'w cworld drivers \<Rightarrow> nat \<Rightarrow> D_CACHE \<Rightarrow> string \<Rightarrow> 'w \<Rightarrow> (bool \<times> D_SUB_CACHE \<times> 'w) outcome" where
  "DB_SUB_CACHE_init drv i cache sql w =
     (case (ca_query cache, ca_db cache) of
        (Some q, Some db) \<Rightarrow>
          (let sub = \<lparr>sc_src = i, sc_sql = Some sql, sc_indices_len = 0, sc_indices = [],
                      sc_generate_time = ca_generate_time cache\<rparr>;
               (done, sub) = (if SQL_PARSER_supported_conditions sql = SQL_COND_UNDEF then (False, sub)
                              else SQL_PARSER_collect_data q sub sql)
           in if done then Inr (True, sub, w)
              else
                obind (DB_exec drv db (Some sql) (length sql) None [] (Some (DB_CACHE_on_db_record q)) (w, []))
                  (\<lambda>(ok, _, w, indices).
                    Inr (ok, sub\<lparr>sc_indices := indices, sc_indices_len := of_nat (length indices)\<rparr>, w)))
      | _ \<Rightarrow> Inl Null_pointer)"

definition empty_DB_QUERY :: DB_QUERY where
  "empty_DB_QUERY = \<lparr>q_row_count = 0, q_field_count = 0, q_records = [], q_sql = None\<rparr>"

datatype init_result = Init_failed | Init_cached | Init_sub_cached | Init_over_limit

text \<open>
  \<open>DB_CACHE_init\<close>: its results 0, 1, -1 and 2; the entry \<open>dst\<close>, the caches and the world. When a
  sub-cache cannot be created the code releases an entry of the main cache and makes the main cache an
  alias of the array of sub-caches; from there on every access to either is undefined, which the model
  reports at once.
\<close>

definition DB_CACHE_init ::
  "'w cworld drivers \<Rightarrow> int \<Rightarrow> D_CACHE \<Rightarrow> DATABASE_SYSTEM_DB \<Rightarrow> string \<Rightarrow> int \<Rightarrow> cache_state \<Rightarrow> 'w \<Rightarrow>
   (init_result \<times> D_CACHE \<times> cache_state \<times> 'w) outcome" where
  "DB_CACHE_init drv now dst db sql cache_ttl cs w =
     (case DB_CACHE_subset_search sql (cs_cache cs) of
        Some i \<Rightarrow>
          obind (DB_SUB_CACHE_exists sql (cs_sub_cache cs)) (\<lambda>sub.
            case sub of
              Some _ \<Rightarrow> Inr (Init_sub_cached, dst, cs, w)
            | None \<Rightarrow>
                obind (DB_SUB_CACHE_init drv i (cs_cache cs ! i) sql w) (\<lambda>(ok, sub, w).
                  if ok then Inr (Init_sub_cached, dst, cs\<lparr>cs_sub_cache := cs_sub_cache cs @ [sub]\<rparr>, w)
                  else Inl Use_after_free))
      | None \<Rightarrow>
          (let dst = dst\<lparr>ca_query := Some empty_DB_QUERY, ca_size := 0, ca_db := Some db, ca_ttl := cache_ttl,
                         ca_generate_time := now\<rparr>
           in obind (DB_exec drv db (Some sql) (length sql) (Some empty_DB_QUERY) [] None (w, []))
                (\<lambda>(ok, res, w, _).
                  case res of
                    None \<Rightarrow> Inl Null_pointer
                  | Some q \<Rightarrow>
                      if ok
                      then
                        obind (DB_CACHE_calc_size q) (\<lambda>size.
                          let dst = dst\<lparr>ca_query := Some q, ca_size := size\<rparr>; cs = DB_CACHE_add_size dst cs in
                          Inr (if cs_max_size cs < cs_size cs then Init_over_limit else Init_cached, dst, cs, w))
                      else
                        obind (DB_QUERY_free (Some q)) (\<lambda>_.
                          Inr (Init_failed, dst\<lparr>ca_query := None\<rparr>, cs, w)))))"

section \<open>Releasing entries\<close>

definition DB_CACHE_free :: "D_CACHE \<Rightarrow> cache_state \<Rightarrow> (D_CACHE \<times> cache_state) outcome" where
  "DB_CACHE_free dst cs =
     (let clear = dst\<lparr>ca_query := None, ca_db := None, ca_size := 0, ca_ttl := 0, ca_generate_time := 0\<rparr> in
      case ca_query dst of
        None \<Rightarrow> Inr (clear, DB_CACHE_sub_size dst cs)
      | Some q \<Rightarrow>
          if ca_db dst = None then Inl Null_pointer
          else obind (DB_QUERY_free (Some q)) (\<lambda>_. Inr (clear, DB_CACHE_sub_size dst cs)))"

definition DB_SUB_CACHE_free :: "D_SUB_CACHE \<Rightarrow> D_SUB_CACHE" where
  "DB_SUB_CACHE_free dst = dst\<lparr>sc_sql := None, sc_indices := [], sc_indices_len := 0, sc_generate_time := 0\<rparr>"

section \<open>Lemmas on searching\<close>

lemma find_index_Some: "find_index P xs = Some i \<Longrightarrow> i < length xs \<and> P (xs ! i)"
  by (induction xs arbitrary: i) (auto split: if_splits)

lemma find_index_None: "find_index P xs = None \<longleftrightarrow> (\<forall>x \<in> set xs. \<not> P x)"
  by (induction xs) auto

lemma find_index_append:
  "find_index P (xs @ ys) = (case find_index P xs of Some i \<Rightarrow> Some i
     | None \<Rightarrow> map_option (\<lambda>i. i + length xs) (find_index P ys))"
  by (induction xs) (auto simp: option.map_comp comp_def option.map_ident split: option.splits)

lemma DB_SUB_CACHE_exists_None:
  "DB_SUB_CACHE_exists sql ss = Inr None \<Longrightarrow> find_index (\<lambda>s. sc_sql s = Some sql) ss = None"
  by (induction ss) (auto split: option.splits if_splits)

lemma DB_SUB_CACHE_exists_Some:
  "DB_SUB_CACHE_exists sql ss = Inr (Some i) \<Longrightarrow> find_index (\<lambda>s. sc_sql s = Some sql) ss = Some i"
  by (induction ss arbitrary: i) (auto split: option.splits if_splits)

section \<open>Drivers that store the statement\<close>

text \<open>
  The cache recognises a result by the statement the driver stored in it: the contract the WDS relies
  on, without which a result is cached and never found again.
\<close>

locale storing_driver =
  fixes exec :: "'w client_library \<Rightarrow> 'w exec_fun"
  assumes stores:
    "exec lib c sql n (Some q) cb w = Inr (ok, dst, w') \<Longrightarrow> \<exists>r. dst = Some r \<and> q_sql r = Some (take n sql)"
begin

lemma stores_statement:
  "exec lib c (sql @ rest) (length sql) (Some q) cb w = Inr (ok, Some r, w') \<Longrightarrow> q_sql r = Some sql"
  using stores by fastforce

end

interpretation pg_store: storing_driver PG_exec
proof (unfold_locales, goal_cases)
  case (1 lib c sql n q cb w ok dst w')
  then show ?case
    by (auto simp: PG_exec_def Let_def split: prod.splits reply.splits option.splits if_splits)
qed

interpretation my_store: storing_driver MYSQL_exec
proof (unfold_locales, goal_cases)
  case (1 lib c sql n q cb w ok dst w')
  then show ?case
    by (auto simp: MYSQL_exec_def Let_def split: prod.splits reply.splits option.splits if_splits)
qed

interpretation maria_store: storing_driver MARIADB_exec
  unfolding MARIADB_exec_def by (rule my_store.storing_driver_axioms)

lemma DB_exec_stores:
  assumes "db_driver db \<in> {Some D_POSTGRESQL, Some D_MYSQL, Some D_MARIADB}"
    "DB_exec drv db (Some sql) (length sql) (Some q) [] None w = Inr (True, Some r, w')"
  shows "q_sql r = Some sql"
proof -
  have "\<exists>ok b n. DB_QUERY_format (Some sql) None 0 [] = Inr (ok, b, n) \<and> (ok \<longrightarrow> b = None)"
    by (auto simp: DB_QUERY_format_def Let_def contains_char count_list_0_iff)
  then obtain ok b n where f: "DB_QUERY_format (Some sql) None 0 [] = Inr (ok, b, n)" "ok \<longrightarrow> b = None" by blast
  with assms(2) have "driver_exec drv (db_driver db) (db_conn db) (sql @ [NUL]) (length sql) (Some q) None w =
      Inr (True, Some r, w')"
    by (cases ok) (simp_all add: DB_exec_def)
  with assms(1) show ?thesis
    using pg_store.stores_statement my_store.stores_statement maria_store.stores_statement
    by (auto simp: driver_exec_def)
qed


section \<open>What a sub-cache refers to\<close>

definition same_values :: "DB_RECORD \<Rightarrow> DB_RECORD \<Rightarrow> bool" where
  "same_values r s \<longleftrightarrow> map f_value (r_fields r) = map f_value (r_fields s)"

lemma fields_match_refl: "n \<le> length fs \<Longrightarrow> fields_match n fs fs = Inr True"
  by (induction n arbitrary: fs) (case_tac fs; simp add: strncmp_eq_def)+

lemma fields_match_total:
  "n \<le> length cs \<Longrightarrow> n \<le> length fs \<Longrightarrow> \<exists>b. fields_match n cs fs = Inr b"
  by (induction n cs fs rule: fields_match.induct) auto

lemma fields_match_values:
  "fields_match n cs fs = Inr True \<Longrightarrow> length cs = n \<Longrightarrow> length fs = n \<Longrightarrow> map f_value cs = map f_value fs"
  by (induction n cs fs rule: fields_match.induct) (auto split: if_splits)

lemma matching_row_found:
  assumes "0 < n" "\<forall>s \<in> set rs. length (r_fields s) = n" "r \<in> set rs"
  shows "\<exists>k. matching_row n rs r = Inr (Some k) \<and> k < length rs \<and> same_values (rs ! k) r"
  using assms(2,3)
proof (induction rs)
  case (Cons s rs)
  then have l: "length (r_fields s) = n" "length (r_fields r) = n" by auto
  then obtain b where b: "fields_match n (r_fields s) (r_fields r) = Inr b"
    using fields_match_total [of n "r_fields s" "r_fields r"] by auto
  show ?case
  proof (cases b)
    case True
    with b l assms(1) fields_match_values [of n "r_fields s" "r_fields r"] show ?thesis
      by (intro exI [of _ 0]) (simp add: same_values_def)
  next
    case False
    with b l have "r \<noteq> s" using fields_match_refl [of n "r_fields s"] by auto
    with Cons obtain k where "matching_row n rs r = Inr (Some k)" "k < length rs" "same_values (rs ! k) r" by auto
    with b False assms(1) show ?thesis by (intro exI [of _ "Suc k"]) simp
  qed
qed simp

lemma collects_rows:
  assumes "0 < q_field_count q" "q_row_count q = length (q_records q)"
    "\<forall>s \<in> set (q_records q). length (r_fields s) = q_field_count q" "set recs \<subseteq> set (q_records q)"
  shows "\<exists>is. run_callback (DB_CACHE_on_db_record q) recs (w, ix) = Inr (w, ix @ is) \<and>
     list_all2 (\<lambda>i r. i < q_row_count q \<and> same_values (q_records q ! i) r) is recs"
  using assms(4)
proof (induction recs arbitrary: ix)
  case (Cons r recs)
  obtain k where k: "matching_row (q_field_count q) (q_records q) r = Inr (Some k)" "k < length (q_records q)"
    "same_values (q_records q ! k) r" using matching_row_found [OF assms(1,3), of r] Cons.prems by auto
  obtain js where "run_callback (DB_CACHE_on_db_record q) recs (w, ix @ [k]) = Inr (w, (ix @ [k]) @ js)"
    "list_all2 (\<lambda>i r. i < q_row_count q \<and> same_values (q_records q ! i) r) js recs"
    using Cons.IH [of "ix @ [k]"] Cons.prems by auto
  moreover have "DB_CACHE_on_db_record q r (w, ix) = Inr (w, ix @ [k])"
    using k assms(2) by (simp add: DB_CACHE_on_db_record_def)
  ultimately show ?case
    using k assms(2) by (intro exI [of _ "k # js"]) simp
qed simp

lemma DB_exec_unbound:
  assumes "CHR ''?'' \<notin> set sql"
  shows "DB_exec drv db (Some sql) (length sql) dst [] cb w =
    driver_exec drv (db_driver db) (db_conn db) (sql @ [NUL]) (length sql) dst cb w"
proof -
  obtain n where "DB_QUERY_format (Some sql) None 0 [] = Inr (True, None, n)"
    using assms by (auto simp: DB_QUERY_format_def Let_def contains_char count_list_0_iff)
  then show ?thesis by (simp add: DB_exec_def)
qed

text \<open>
  C15: a sub-cache that asks the database holds, in the order of the reply, the positions of cached rows
  with the same values: read back through the cache, the answer is what PostgreSQL returned, whenever
  every returned row is among the cached ones.
\<close>

theorem sub_cache_keeps_database_rows:
  assumes "SQL_PARSER_supported_conditions sql = SQL_COND_UNDEF" "cstring sql" "CHR ''?'' \<notin> set sql"
    "ca_query cache = Some q" "ca_db cache = Some db" "db_driver db = Some D_POSTGRESQL"
    "cn_connection (db_conn db) = Some h" "lib_query (drv_pg drv) h sql (w, []) = (Rows rs, (v, []))"
    "rs_tuples rs \<noteq> []" "names_fit (rs_names rs)" "set (mk_records rs) \<subseteq> set (q_records q)"
    "0 < q_field_count q" "q_row_count q = length (q_records q)"
    "\<forall>s \<in> set (q_records q). length (r_fields s) = q_field_count q"
  shows "\<exists>sub. DB_SUB_CACHE_init drv i cache sql w = Inr (True, sub, v) \<and> sc_src sub = i \<and> sc_sql sub = Some sql \<and>
     list_all2 (\<lambda>k r. k < q_row_count q \<and> same_values (q_records q ! k) r) (sc_indices sub) (mk_records rs)"
proof -
  obtain "is" where "run_callback (DB_CACHE_on_db_record q) (mk_records rs) (v, []) = Inr (v, is)"
    and l: "list_all2 (\<lambda>i r. i < q_row_count q \<and> same_values (q_records q ! i) r) is (mk_records rs)"
    using collects_rows [OF assms(12-14,11), of v "[]"] by auto
  then have "PG_exec (drv_pg drv) (db_conn db) (sql @ [NUL]) (length sql) None (Some (DB_CACHE_on_db_record q)) (w, []) =
    Inr (True, None, v, is)"
    using assms(2,7-10) by (simp add: PG_exec_def run_rows_def)
  then have "DB_exec drv db (Some sql) (length sql) None [] (Some (DB_CACHE_on_db_record q)) (w, []) =
    Inr (True, None, v, is)"
    using DB_exec_unbound [OF assms(3), of drv db None "Some (DB_CACHE_on_db_record q)" "(w, [])"] assms(6) by (simp add: driver_exec_def)
  with assms(1,4,5) l show ?thesis by (simp add: DB_SUB_CACHE_init_def)
qed

section \<open>Concrete inputs\<close>

definition demo_rows :: "string list list \<Rightarrow> result_set" where
  "demo_rows ts = \<lparr>rs_names = [''a''], rs_tuples = ts\<rparr>"

text \<open>A server that logs each statement and answers with rows.\<close>

definition demo_wds_library :: "string list list \<Rightarrow> string list cworld client_library" where
  "demo_wds_library ts =
     \<lparr>lib_connect = (\<lambda>a w. (True, 3, w)), lib_query = (\<lambda>h s (w, ix). (Rows (demo_rows ts), (w @ [s], ix))),
      lib_close = (\<lambda>h w. w)\<rparr>"

definition demo_wds_drivers :: "string list list \<Rightarrow> string list cworld drivers" where
  "demo_wds_drivers ts =
     \<lparr>drv_pg = demo_wds_library ts, drv_mysql = demo_wds_library ts, drv_mariadb = demo_wds_library ts,
      drv_other_exec = (\<lambda>d. PG_exec (demo_wds_library ts)), drv_other_connect = (\<lambda>d db w. (False, db_conn db, w)),
      drv_other_disconnect = (\<lambda>d c w. (c, w))\<rparr>"

definition demo_wds_db :: DATABASE_SYSTEM_DB where
  "demo_wds_db =
     \<lparr>db_ip = None, db_port = 5432, db_driver = Some D_POSTGRESQL, db_user = None, db_password = None,
      db_connection_string = None, db_db = None,
      db_conn = opened_connection (Some 3) None True, db_name = Some ''dw''\<rparr>"

definition demo_cached :: DB_QUERY where
  "demo_cached = \<lparr>q_row_count = 3, q_field_count = 1, q_records = mk_records (demo_rows [[''3''], [''1''], [''2'']]),
                  q_sql = Some ''SELECT a FROM t''\<rparr>"

definition demo_entry :: D_CACHE where
  "demo_entry = \<lparr>ca_query = Some demo_cached, ca_db = Some demo_wds_db, ca_size = 6, ca_ttl = 60, ca_generate_time = 0\<rparr>"

theorem sub_cache_keeps_database_rows_witness:
  "\<exists>sub. DB_SUB_CACHE_init (demo_wds_drivers [[''2''], [''3'']]) 0 demo_entry ''SELECT a FROM t WHERE a>1'' [] =
      Inr (True, sub, [''SELECT a FROM t WHERE a>1'']) \<and> length (sc_indices sub) = 2"
proof -
  have "\<exists>sub. DB_SUB_CACHE_init (demo_wds_drivers [[''2''], [''3'']]) 0 demo_entry ''SELECT a FROM t WHERE a>1'' [] =
      Inr (True, sub, [''SELECT a FROM t WHERE a>1'']) \<and> sc_src sub = 0 \<and> sc_sql sub = Some ''SELECT a FROM t WHERE a>1'' \<and>
      list_all2 (\<lambda>k r. k < q_row_count demo_cached \<and> same_values (q_records demo_cached ! k) r) (sc_indices sub)
        (mk_records (demo_rows [[''2''], [''3'']]))"
  proof (rule sub_cache_keeps_database_rows [where db = demo_wds_db and h = 3])
    show "SQL_PARSER_supported_conditions ''SELECT a FROM t WHERE a>1'' = SQL_COND_UNDEF" by code_simp
  qed (simp_all add: demo_entry_def demo_cached_def demo_wds_db_def demo_wds_drivers_def demo_wds_library_def
      demo_rows_def mk_records_def mk_record_def names_fit_def MAX_COLUMN_NAME_LEN_def cstring_def mk_field_def)
  then show ?thesis by (auto dest!: list_all2_lengthD simp: mk_records_def demo_rows_def)
qed

end
