(* ===== verification/Wds_Server.thy ===== *)
theory Wds_Server
  imports Cache_Store Lcs_Server
begin

text \<open>
  \<open>src/DCPAM_WDS/dcpam-wds.c\<close>: the cache built at start, the answers to queries from the caches, the
  database or another node, and the request handler. JSON parsing and printing, the usage text of the
  cache and the reports to the LCS are parameters. The configuration file is read in \<open>Server_Config\<close>.
\<close>

section \<open>State\<close>

record DCPAM_DATA_ACTION =
  da_name :: "string option"
  da_description :: "string option"
  da_type :: int
  da_internal :: int
  da_condition :: "string option"
  da_cache_ttl :: int
  da_sql :: string

record DCPAM_DATA =
  dt_id :: "string option"
  dt_name :: "string option"
  dt_db_name :: string
  dt_db_table_name :: string
  dt_columns :: "string list"
  dt_description :: "string option"
  dt_actions :: "DCPAM_DATA_ACTION list"

record WDS_NODE =
  wn_ip :: string
  wn_port :: int
  wn_key :: string
  wn_tables :: "string list"

record P_DCPAM_APP =
  pa_DB :: "DATABASE_SYSTEM_DB list"
  pa_DATA :: "DCPAM_DATA list"
  pa_cache :: cache_state
  pa_allowed_hosts :: "(string \<times> string) list"
  pa_nodes :: "WDS_NODE list"

record 'w wds_env =
  wd_drv :: "'w cworld drivers"
  wd_net :: "'w net"
  wd_fresh :: NET_CONN
  wd_parse :: "string \<Rightarrow> json option"
  wd_print :: "json \<Rightarrow> string"
  wd_report :: "string \<Rightarrow> COMPONENT_ACTION_TYPE \<Rightarrow> 'w \<Rightarrow> 'w"
  wd_usage :: "cache_state \<Rightarrow> string"
  wd_now :: int

section \<open>The initial cache: \<open>DCPAM_WDS_init_cache\<close>\<close>

text \<open>
  The slots are allocated with the configuration (\<open>CACHE_len\<close>); \<open>initialized\<close> is the next one to fill. A result over the
  memory limit keeps its slot, so the next result overwrites it; its size stays counted.
\<close>

fun init_actions ::
  "'w wds_env \<Rightarrow> DATABASE_SYSTEM_DB list \<Rightarrow> string \<Rightarrow> DCPAM_DATA_ACTION list \<Rightarrow> nat \<times> cache_state \<times> 'w \<Rightarrow>
   (nat \<times> cache_state \<times> 'w) outcome" where
  "init_actions env dbs owner [] acc = Inr acc"
| "init_actions env dbs owner (a # as) (initialized, cs, w) =
     obind
       (if da_condition a = Some []
        then (case DATABASE_SYSTEM_DB_get dbs owner of
                None \<Rightarrow> Inr (initialized, cs, w)
              | Some src \<Rightarrow>
                  if length (cs_cache cs) \<le> initialized then Inl Out_of_bounds
                  else
                    obind (DB_CACHE_init (wd_drv env) (wd_now env) (cs_cache cs ! initialized) src (da_sql a)
                             (da_cache_ttl a) cs w)
                      (\<lambda>(res, dst, cs, w).
                        Inr (if res = Init_cached then initialized + 1 else initialized,
                             cs\<lparr>cs_cache := (cs_cache cs)[initialized := dst]\<rparr>, w)))
        else Inr (initialized, cs, w))
       (init_actions env dbs owner as)"

fun init_data ::
  "'w wds_env \<Rightarrow> DATABASE_SYSTEM_DB list \<Rightarrow> DCPAM_DATA list \<Rightarrow> nat \<times> cache_state \<times> 'w \<Rightarrow>
   (nat \<times> cache_state \<times> 'w) outcome" where
  "init_data env dbs [] acc = Inr acc"
| "init_data env dbs (d # ds) acc =
     obind (init_actions env dbs (dt_db_name d) (dt_actions d) acc) (init_data env dbs ds)"

text \<open>Connections are opened in order, up to the first that fails.\<close>

fun open_all ::
  "'w cworld drivers \<Rightarrow> DATABASE_SYSTEM_DB list \<Rightarrow> 'w cworld \<Rightarrow> bool \<times> DATABASE_SYSTEM_DB list \<times> 'w cworld" where
  "open_all drv [] w = (True, [], w)"
| "open_all drv (d # ds) w =
     (case DATABASE_SYSTEM_DB_init drv d w of
        (False, d, w) \<Rightarrow> (False, d # ds, w)
      | (True, d, w) \<Rightarrow> (case open_all drv ds w of (ok, ds, w) \<Rightarrow> (ok, d # ds, w)))"

definition empty_entry :: D_CACHE where
  "empty_entry = \<lparr>ca_query = None, ca_db = None, ca_size = 0, ca_ttl = 0, ca_generate_time = 0\<rparr>"

definition DCPAM_WDS_init_cache ::
  "'w wds_env \<Rightarrow> nat \<Rightarrow> P_DCPAM_APP \<Rightarrow> 'w \<Rightarrow> (bool \<times> P_DCPAM_APP \<times> 'w) outcome" where
  "DCPAM_WDS_init_cache env cache_len app w =
     (let cs = (pa_cache app)\<lparr>cs_size := 0, cs_cache := replicate cache_len empty_entry, cs_sub_cache := []\<rparr>;
          (ok, dbs, w, _) = open_all (wd_drv env) (pa_DB app) (w, []);
          app = app\<lparr>pa_DB := dbs\<rparr>
      in if \<not> ok then Inr (False, app\<lparr>pa_cache := cs\<rparr>, w)
         else
           obind (init_data env dbs (pa_DATA app) (0, cs, w)) (\<lambda>(_, cs, w). Inr (True, app\<lparr>pa_cache := cs\<rparr>, w)))"

section \<open>Answers\<close>

definition field_json :: "DB_FIELD \<Rightarrow> (string \<times> json) list" where
  "field_json f = json_text (f_value f) (f_label f)"

definition row_json :: "DB_QUERY \<Rightarrow> nat \<Rightarrow> json outcome" where
  "row_json q i =
     (if i < length (q_records q) \<and> q_field_count q \<le> length (r_fields (q_records q ! i))
      then Inr (JObject (concat (map field_json (take (q_field_count q) (r_fields (q_records q ! i))))))
      else Inl Out_of_bounds)"

fun rows_json :: "DB_QUERY \<Rightarrow> nat list \<Rightarrow> json list outcome" where
  "rows_json q [] = Inr []"
| "rows_json q (i # is) = obind (row_json q i) (\<lambda>j. obind (rows_json q is) (\<lambda>js. Inr (j # js)))"

definition answer_json :: "json list \<Rightarrow> nat \<Rightarrow> json" where
  "answer_json rows n = JObject [(''length'', JNumber (int n)), (''data'', JArray rows), (''success'', JBool True)]"

text \<open>
  The answer from an entry, a sub-cache, or both. The rows of a sub-cache are read up to its length:
  where the array is shorter, which is the missing array of a negative limit, it is read through NULL.
\<close>

definition cached_answer :: "cache_state \<Rightarrow> nat option \<Rightarrow> nat option \<Rightarrow> json outcome" where
  "cached_answer cs entry sub_i =
     (let query_of = (\<lambda>i. deref (ca_query (cs_cache cs ! i))) in
      case sub_i of
        None \<Rightarrow>
          (case entry of
             None \<Rightarrow> Inl Null_pointer
           | Some i \<Rightarrow>
               obind (query_of i) (\<lambda>q.
               obind (rows_json q [0..<q_row_count q]) (\<lambda>rows. Inr (answer_json rows (q_row_count q)))))
      | Some k \<Rightarrow>
          (let sub = cs_sub_cache cs ! k; n = unat (sc_indices_len sub) in
           obind (query_of (case entry of Some i \<Rightarrow> i | None \<Rightarrow> sc_src sub)) (\<lambda>q.
             if length (sc_indices sub) < n then Inl Null_pointer
             else obind (rows_json q (take n (sc_indices sub))) (\<lambda>rows. Inr (answer_json rows n)))))"

definition gd_descr :: "string \<Rightarrow> string \<Rightarrow> string" where
  "gd_descr db sql = sfmt ''[DCPAM_WDS] Get data from %s database: %s'' [db, sql]"

definition cache_descr :: "string \<Rightarrow> string \<Rightarrow> string" where
  "cache_descr sql db = sfmt (''[DCPAM_WDS] Cache query '' @ [DQ] @ ''%s'' @ [DQ] @ ''. Database: %s'') [sql, db]"

text \<open>
  \<open>DCPAM_WDS_get_db_data\<close> calls itself after it has cached the result; \<open>None\<close> is more calls than the
  fuel. A result over the limit answers one request and is released with the last slot.
\<close>

fun DCPAM_WDS_get_db_data ::
  "nat \<Rightarrow> 'w wds_env \<Rightarrow> P_DCPAM_APP \<Rightarrow> string \<Rightarrow> string \<Rightarrow> 'w \<Rightarrow> (json option \<times> P_DCPAM_APP \<times> 'w) outcome option" where
  "DCPAM_WDS_get_db_data 0 env app sql db w = None"
| "DCPAM_WDS_get_db_data (Suc fuel) env app sql db w =
     (let w = wd_report env (gd_descr db sql) DCT_START w;
          stop = (\<lambda>r. obind r (\<lambda>(j, app, w). Inr (j, app, wd_report env (gd_descr db sql) DCT_STOP w)))
      in map_option stop
        (case DB_CACHE_get sql (pa_cache app) of
           (None, None) \<Rightarrow>
             (case DATABASE_SYSTEM_DB_get (pa_DB app) db of
                None \<Rightarrow> Some (Inr (None, app, w))
              | Some src \<Rightarrow>
                  (case DB_CACHE_init (wd_drv env) (wd_now env) empty_entry src sql 60 (pa_cache app)
                          (wd_report env (cache_descr sql db) DCT_START w) of
                     Inl e \<Rightarrow> Some (Inl e)
                   | Inr (res, dst, cs, w) \<Rightarrow>
                       (let w = wd_report env (cache_descr sql db) DCT_STOP w;
                            grown = cs\<lparr>cs_cache := cs_cache cs @ [dst]\<rparr>
                        in case res of
                             Init_sub_cached \<Rightarrow>
                               DCPAM_WDS_get_db_data fuel env (app\<lparr>pa_cache := cs\<rparr>) sql db w
                           | Init_cached \<Rightarrow>
                               DCPAM_WDS_get_db_data fuel env (app\<lparr>pa_cache := grown\<rparr>) sql db w
                           | Init_over_limit \<Rightarrow>
                               map_option (\<lambda>r. obind r (\<lambda>(j, app, w).
                                   let cs = pa_cache app;
                                       cut = cs\<lparr>cs_cache := butlast (cs_cache cs)\<rparr>
                                   in obind (DB_CACHE_free (last (cs_cache cs)) cut) (\<lambda>(_, cs).
                                        Inr (j, app\<lparr>pa_cache := cs\<rparr>, w))))
                                 (DCPAM_WDS_get_db_data fuel env (app\<lparr>pa_cache := grown\<rparr>) sql db w)
                           | Init_failed \<Rightarrow> Some (Inr (None, app\<lparr>pa_cache := cs\<rparr>, w)))))
         | (entry, sub_i) \<Rightarrow>
             Some (obind (cached_answer (pa_cache app) entry sub_i) (\<lambda>j. Inr (Some j, app, w)))))"

section \<open>Other nodes\<close>

definition sent_bytes :: "char option list \<Rightarrow> string outcome" where
  "sent_bytes bs = (if None \<in> set bs then Inl Uninitialised else Inr (map the bs))"

definition node_query :: "WDS_NODE \<Rightarrow> string \<Rightarrow> string" where
  "node_query node sql =
     sfmt (''{'' @ [DQ] @ ''key'' @ [DQ] @ '': '' @ [DQ] @ ''%s'' @ [DQ] @ '', '' @ [DQ] @ ''sql'' @ [DQ] @ '': '' @
           [DQ] @ ''%s'' @ [DQ] @ ''}'') [wn_key node, sql]"

text \<open>The answer of a node is passed on as it came, with its terminating zero byte.\<close>

definition DCPAM_WDS_get_node_data ::
  "'w wds_env \<Rightarrow> WDS_NODE \<Rightarrow> string \<Rightarrow> sock_state \<Rightarrow> 'w \<Rightarrow> (string option \<times> sock_state \<times> 'w) outcome option" where
  "DCPAM_WDS_get_node_data env node sql st w =
     (let net = wd_net env;
          bye = (\<lambda>c w. case NET_CONN_disconnect net c st w of (c, st, w) \<Rightarrow> (st, w))
      in case NET_CONN_init net (wd_fresh env) (wn_ip node) (wn_port node) False w of
           (False, c, w) \<Rightarrow> Some (Inr (None, bye c w))
         | (True, c, w) \<Rightarrow>
             (case NET_CONN_connect net c (wn_ip node) (wn_port node) False w of
                (False, c, w) \<Rightarrow> Some (Inr (None, bye c w))
              | (True, c, w) \<Rightarrow>
                  (case NET_CONN_send net c (node_query node sql) w of
                     None \<Rightarrow> None
                   | Some (False, c, w) \<Rightarrow> Some (Inr (None, bye c w))
                   | Some (True, c, w) \<Rightarrow>
                       Some
                         (if 0 < nc_response_len c
                          then obind (obind (deref (nc_response c)) sent_bytes)
                                 (\<lambda>s. Inr (Some s, bye c w))
                          else Inr (None, bye c w)))))"

definition MAX_TABLE_NAME_LEN :: nat where "MAX_TABLE_NAME_LEN = 128"

text \<open>The word after the first \<open>FROM\<close>; \<open>%128s\<close> may store 129 bytes in a buffer of 128.\<close>

definition main_table :: "string \<Rightarrow> string option outcome" where
  "main_table sql =
     (case strstr sql '' FROM '' of
        None \<Rightarrow> Inr None
      | Some i \<Rightarrow>
          (case scan_word 128 (drop (i + length '' FROM'') sql) of
             None \<Rightarrow> Inr None
           | Some (t, _) \<Rightarrow> if length t < 128 then Inr (Some t) else Inl Out_of_bounds))"

definition is_table :: "string \<Rightarrow> string \<Rightarrow> bool" where
  "is_table t name = strncmp_eq name t MAX_TABLE_NAME_LEN"

text \<open>The text sent for an answer: the printed JSON, or the bytes of a node.\<close>

definition db_answer ::
  "nat \<Rightarrow> 'w wds_env \<Rightarrow> P_DCPAM_APP \<Rightarrow> string \<Rightarrow> string \<Rightarrow> sock_state \<Rightarrow> 'w \<Rightarrow>
   (string option \<times> P_DCPAM_APP \<times> sock_state \<times> 'w) outcome option" where
  "db_answer fuel env app sql db st w =
     map_option (\<lambda>r. obind r (\<lambda>(j, app, w). Inr (map_option (wd_print env) j, app, st, w)))
       (DCPAM_WDS_get_db_data fuel env app sql db w)"

definition DCPAM_WDS_get_data ::
  "nat \<Rightarrow> 'w wds_env \<Rightarrow> P_DCPAM_APP \<Rightarrow> string \<Rightarrow> sock_state \<Rightarrow> 'w \<Rightarrow>
   (string option \<times> P_DCPAM_APP \<times> sock_state \<times> 'w) outcome option" where
  "DCPAM_WDS_get_data fuel env app sql st w =
     (case main_table sql of
        Inl e \<Rightarrow> Some (Inl e)
      | Inr None \<Rightarrow> Some (Inr (None, app, st, w))
      | Inr (Some t) \<Rightarrow>
          (case List.find (\<lambda>d. is_table t (dt_db_table_name d)) (pa_DATA app) of
             Some d \<Rightarrow> db_answer fuel env app sql (dt_db_name d) st w
           | None \<Rightarrow>
               (case List.find (\<lambda>n. \<exists>x \<in> set (wn_tables n). is_table t x) (pa_nodes app) of
                  None \<Rightarrow> Some (Inr (None, app, st, w))
                | Some n \<Rightarrow>
                    map_option (\<lambda>r. obind r (\<lambda>(s, st, w). Inr (s, app, st, w)))
                      (DCPAM_WDS_get_node_data env n sql st w))))"

section \<open>The request handler\<close>

text \<open>Every answer ends the connection and the client's entry in the table.\<close>

definition wds_finish :: "'w wds_env \<Rightarrow> nat \<Rightarrow> sock_state \<times> 'w \<Rightarrow> sock_state \<times> 'w" where
  "wds_finish env client = (\<lambda>(st, w).
     case SOCKET_disconnect_client (net_os (wd_net env)) st w of
       (st, w) \<Rightarrow> (SOCKET_unregister_client (fst (so_clients st ! client)) st, w))"

definition wds_reply ::
  "'w wds_env \<Rightarrow> P_DCPAM_APP \<Rightarrow> string \<Rightarrow> nat \<Rightarrow> nat \<Rightarrow> sock_state \<Rightarrow> 'w \<Rightarrow>
   (P_DCPAM_APP \<times> sock_state \<times> 'w) outcome" where
  "wds_reply env app data len client st w =
     obind (SOCKET_send (net_os (wd_net env)) client data len st w)
       (\<lambda>r. Inr (app, wds_finish env client r))"

definition wds_error ::
  "'w wds_env \<Rightarrow> P_DCPAM_APP \<Rightarrow> nat \<Rightarrow> sock_state \<Rightarrow> 'w \<Rightarrow> (P_DCPAM_APP \<times> sock_state \<times> 'w) outcome" where
  "wds_error env app client st w = wds_reply env app (error_text @ [NUL]) 38 client st w"

definition memory_report :: "string \<Rightarrow> string" where
  "memory_report usage =
     (let fmt = ''{'' @ [DQ] @ ''memory'' @ [DQ] @ '': '' @ [DQ] @ ''%s'' @ [DQ] @ ''}'';
          body = sfmt fmt [usage]; n = length fmt + length usage + 1
      in body @ replicate (n - length body) NUL)"

text \<open>The data part of a request, once access is granted.\<close>

definition wds_data ::
  "nat \<Rightarrow> 'w wds_env \<Rightarrow> P_DCPAM_APP \<Rightarrow> json \<Rightarrow> nat \<Rightarrow> sock_state \<Rightarrow> 'w \<Rightarrow>
   (P_DCPAM_APP \<times> sock_state \<times> 'w) outcome option" where
  "wds_data fuel env app request client st w =
     (case cJSON_GetObjectItem request ''sql'' of
        None \<Rightarrow> Some (wds_error env app client st w)
      | Some jsql \<Rightarrow>
          (case valuestring jsql of
             None \<Rightarrow> Some (Inl Null_pointer)
           | Some sql \<Rightarrow>
               if DB_QUERY_get_type sql \<noteq> DQT_SELECT then Some (wds_error env app client st w)
               else
                 map_option
                   (\<lambda>r. obind r (\<lambda>(s, app, st, w).
                      case s of
                        Some text \<Rightarrow> wds_reply env app text (length text) client st w
                      | None \<Rightarrow> wds_error env app client st w))
                   (case cJSON_GetObjectItem request ''db'' of
                      None \<Rightarrow> DCPAM_WDS_get_data fuel env app sql st w
                    | Some jdb \<Rightarrow>
                        (case valuestring jdb of
                           Some db \<Rightarrow> db_answer fuel env app sql db st w
                         | None \<Rightarrow> Some (Inr (None, app, st, w))))))"

definition DCPAM_WDS_query ::
  "nat \<Rightarrow> 'w wds_env \<Rightarrow> P_DCPAM_APP \<Rightarrow> string \<Rightarrow> nat \<Rightarrow> sock_state \<Rightarrow> 'w \<Rightarrow>
   (P_DCPAM_APP \<times> sock_state \<times> 'w) outcome option" where
  "DCPAM_WDS_query fuel env app content client st w =
     (if content = [] then Some (Inr (app, st, w))
      else case wd_parse env (cstr_of content) of
        None \<Rightarrow> Some (wds_error env app client st w)
      | Some request \<Rightarrow>
          (case (case cJSON_GetObjectItem request ''msg'' of
                   None \<Rightarrow> Inr False
                 | Some msg \<Rightarrow> strcmp_eq (valuestring msg) (Some ''ping'')) of
             Inl e \<Rightarrow> Some (Inl e)
           | Inr True \<Rightarrow>
               (let pong = ''{'' @ DQ # ''msg'' @ DQ # '': '' @ DQ # ''pong'' @ DQ # ''}'' in
                Some (wds_reply env app pong (length pong) client st w))
           | Inr False \<Rightarrow>
               (case cJSON_GetObjectItem request ''key'' of
                  None \<Rightarrow> Some (wds_error env app client st w)
                | Some key \<Rightarrow>
                    (case key_allowed (pa_allowed_hosts app) (so_ip st) (valuestring key) of
                       Inl e \<Rightarrow> Some (Inl e)
                     | Inr False \<Rightarrow> Some (wds_error env app client st w)
                     | Inr True \<Rightarrow>
                         (case (case cJSON_GetObjectItem request ''report'' of
                                  None \<Rightarrow> Inr False
                                | Some report \<Rightarrow> strcmp_eq (valuestring report) (Some ''memory'')) of
                            Inl e \<Rightarrow> Some (Inl e)
                          | Inr True \<Rightarrow>
                              (let text = memory_report (wd_usage env (pa_cache app)) in
                               Some (wds_reply env app text (length text) client st w))
                          | Inr False \<Rightarrow> wds_data fuel env app request client st w)))))"

section \<open>Release\<close>

fun free_caches :: "D_CACHE list \<Rightarrow> cache_state \<Rightarrow> cache_state outcome" where
  "free_caches [] cs = Inr cs"
| "free_caches (c # rest) cs = obind (DB_CACHE_free c cs) (\<lambda>(_, cs). free_caches rest cs)"

text \<open>
  The data items keep their places with every text released, here the empty text. (The code resets the
  count of the main cache twice and that of the sub-caches never; nothing reads it afterwards.)
\<close>

definition free_data :: "DCPAM_DATA \<Rightarrow> DCPAM_DATA" where
  "free_data d =
     d\<lparr>dt_id := None, dt_name := None, dt_db_name := [], dt_description := None, dt_db_table_name := [],
       dt_actions := map (\<lambda>a. a\<lparr>da_name := None, da_description := None, da_condition := None, da_sql := [],
                                da_cache_ttl := 0\<rparr>) (dt_actions d)\<rparr>"

definition DCPAM_WDS_free_configuration :: "'w wds_env \<Rightarrow> P_DCPAM_APP \<Rightarrow> 'w \<Rightarrow> (P_DCPAM_APP \<times> 'w) outcome" where
  "DCPAM_WDS_free_configuration env app w =
     obind (free_caches (cs_cache (pa_cache app)) (pa_cache app)) (\<lambda>cs.
       Inr (app\<lparr>pa_cache := cs\<lparr>cs_cache := [], cs_sub_cache := []\<rparr>, pa_allowed_hosts := [], pa_DB := [],
               pa_nodes := [],
               pa_DATA := map free_data (pa_DATA app)\<rparr>,
            fst (fold (\<lambda>db w. snd (DATABASE_SYSTEM_DB_free (wd_drv env) db w)) (pa_DB app) (w, []))))"

end
