(* ===== verification/Wds_Answers.thy ===== *)
theory Wds_Answers
  imports Wds_Server
begin

text \<open>
  What the WDS answers: equations for each way through \<open>DCPAM_WDS_get_db_data\<close>, the answers from the
  cache, what a request may do to the caches (\<open>cache_step\<close>), and who gets an answer.
\<close>

section \<open>Rows\<close>


text \<open>Only the indices that a sub-cache can hold are read.\<close>

lemma rows_json_map:
  "(\<And>i. i \<in> set is \<Longrightarrow> row_json q i = Inr (f i)) \<Longrightarrow> rows_json q is = Inr (map f is)"
  by (induction "is") simp_all

definition row_of :: "DB_QUERY \<Rightarrow> nat \<Rightarrow> json" where
  "row_of q i = JObject (concat (map field_json (r_fields (q_records q ! i))))"

lemma row_json_ok: "result_ok q \<Longrightarrow> i < q_row_count q \<Longrightarrow> row_json q i = Inr (row_of q i)"
  by (auto simp: result_ok_def row_json_def row_of_def)

lemma rows_json_ok:
  "result_ok q \<Longrightarrow> \<forall>i \<in> set is. i < q_row_count q \<Longrightarrow> rows_json q is = Inr (map (row_of q) is)"
  by (rule rows_json_map) (simp add: row_json_ok)

definition reported :: "'w wds_env \<Rightarrow> string \<Rightarrow> string \<Rightarrow> 'w \<Rightarrow> 'w" where
  "reported env db sql w = wd_report env (gd_descr db sql) DCT_STOP (wd_report env (gd_descr db sql) DCT_START w)"

lemma obind_Inl_iff [simp]: "obind m f = Inl e \<longleftrightarrow> m = Inl e \<or> (\<exists>x. m = Inr x \<and> f x = Inl e)"
  by (cases m) auto

definition stopped :: "'w wds_env \<Rightarrow> string \<Rightarrow> string \<Rightarrow>
    (json option \<times> P_DCPAM_APP \<times> 'w) outcome \<Rightarrow> (json option \<times> P_DCPAM_APP \<times> 'w) outcome" where
  "stopped env db sql r = obind r (\<lambda>(j, app, w). Inr (j, app, wd_report env (gd_descr db sql) DCT_STOP w))"

lemma get_hit:
  assumes "DB_CACHE_get sql (pa_cache app) = (entry, sub_i)" "(entry, sub_i) \<noteq> (None, None)"
  shows "DCPAM_WDS_get_db_data (Suc fuel) env app sql db w =
    Some (obind (cached_answer (pa_cache app) entry sub_i) (\<lambda>j. Inr (Some j, app, reported env db sql w)))"
proof -
  have "stopped env db sql (obind m (\<lambda>j. Inr (Some j, app, wd_report env (gd_descr db sql) DCT_START w))) =
      obind m (\<lambda>j. Inr (Some j, app, reported env db sql w))" for m
    by (cases m) (simp_all add: stopped_def reported_def)
  then show ?thesis using assms
    by (cases entry; cases sub_i) (simp_all add: stopped_def Let_def)
qed

definition missed :: "'w wds_env \<Rightarrow> P_DCPAM_APP \<Rightarrow> string \<Rightarrow> string \<Rightarrow> DATABASE_SYSTEM_DB \<Rightarrow> 'w \<Rightarrow>
    (init_result \<times> D_CACHE \<times> cache_state \<times> 'w) outcome" where
  "missed env app sql db src w =
     DB_CACHE_init (wd_drv env) (wd_now env) empty_entry src sql 60 (pa_cache app)
       (wd_report env (cache_descr sql db) DCT_START (wd_report env (gd_descr db sql) DCT_START w))"

definition drop_last :: "(json option \<times> P_DCPAM_APP \<times> 'w) outcome \<Rightarrow> (json option \<times> P_DCPAM_APP \<times> 'w) outcome" where
  "drop_last r = obind r (\<lambda>(j, app, w).
     let cs = pa_cache app; cut = cs\<lparr>cs_cache := butlast (cs_cache cs)\<rparr>
     in obind (DB_CACHE_free (last (cs_cache cs)) cut) (\<lambda>(_, cs). Inr (j, app\<lparr>pa_cache := cs\<rparr>, w)))"

lemma get_unknown_db:
  assumes "DB_CACHE_get sql (pa_cache app) = (None, None)" "DATABASE_SYSTEM_DB_get (pa_DB app) db = None"
  shows "DCPAM_WDS_get_db_data (Suc fuel) env app sql db w = Some (Inr (None, app, reported env db sql w))"
  using assms by (simp add: reported_def Let_def)

lemma get_miss:
  assumes "DB_CACHE_get sql (pa_cache app) = (None, None)" "DATABASE_SYSTEM_DB_get (pa_DB app) db = Some src"
  shows "DCPAM_WDS_get_db_data (Suc fuel) env app sql db w =
    map_option (stopped env db sql)
      (case missed env app sql db src w of
         Inl e \<Rightarrow> Some (Inl e)
       | Inr (res, dst, cs, w) \<Rightarrow>
           (let w = wd_report env (cache_descr sql db) DCT_STOP w; grown = cs\<lparr>cs_cache := cs_cache cs @ [dst]\<rparr>
            in case res of
                 Init_sub_cached \<Rightarrow> DCPAM_WDS_get_db_data fuel env (app\<lparr>pa_cache := cs\<rparr>) sql db w
               | Init_cached \<Rightarrow> DCPAM_WDS_get_db_data fuel env (app\<lparr>pa_cache := grown\<rparr>) sql db w
               | Init_over_limit \<Rightarrow>
                   map_option drop_last (DCPAM_WDS_get_db_data fuel env (app\<lparr>pa_cache := grown\<rparr>) sql db w)
               | Init_failed \<Rightarrow> Some (Inr (None, app\<lparr>pa_cache := cs\<rparr>, w))))"
  using assms unfolding missed_def stopped_def [abs_def] drop_last_def [abs_def]
  by (simp add: Let_def cong: init_result.case_cong sum.case_cong)

declare DCPAM_WDS_get_db_data.simps(2) [simp del]

text \<open>
  A statement that is in the cache, character for character, is answered with all the cached rows,
  whatever database the request names (even one that does not exist), whatever the time to live and the
  age of the entry; neither the database nor the caches are touched, only the two reports are sent.
\<close>

theorem cached_answers_never_expire:
  assumes "find_index (\<lambda>c. cached_sql c = Some sql) (cs_cache (pa_cache app)) = Some i"
    "find_index (\<lambda>s. sc_sql s = Some sql) (cs_sub_cache (pa_cache app)) = None"
    "ca_query (cs_cache (pa_cache app) ! i) = Some q" "result_ok q"
  shows "DCPAM_WDS_get_db_data (Suc fuel) env app sql db w =
    Some (Inr (Some (answer_json (map (row_of q) [0..<q_row_count q]) (q_row_count q)), app, reported env db sql w))"
proof -
  have "cached_answer (pa_cache app) (Some i) None = Inr (answer_json (map (row_of q) [0..<q_row_count q]) (q_row_count q))"
    using assms(3) rows_json_ok [OF assms(4), of "[0..<q_row_count q]"]
    by (simp add: cached_answer_def)
  moreover have "DB_CACHE_get sql (pa_cache app) = (Some i, None)" using assms(1,2) by (simp add: DB_CACHE_get_def)
  ultimately show ?thesis by (simp add: get_hit)
qed

text \<open>A statement that a cached one is part of, with a limit and without a condition.\<close>

definition limited :: "cache_state \<Rightarrow> string \<Rightarrow> nat \<Rightarrow> DB_QUERY \<Rightarrow> int \<Rightarrow> bool" where
  "limited cs sql i q k \<longleftrightarrow>
     DB_CACHE_get sql cs = (None, None) \<and> DB_CACHE_subset_search sql (cs_cache cs) = Some i \<and>
     DB_SUB_CACHE_exists sql (cs_sub_cache cs) = Inr None \<and>
     ca_query (cs_cache cs ! i) = Some q \<and> ca_db (cs_cache cs ! i) \<noteq> None \<and>
     SQL_PARSER_supported_conditions sql = SQL_COND_LIMIT \<and> limit_value sql = Some k"

definition limit_entry :: "cache_state \<Rightarrow> string \<Rightarrow> nat \<Rightarrow> DB_QUERY \<Rightarrow> int \<Rightarrow> D_SUB_CACHE" where
  "limit_entry cs sql i q k =
     (let n = min (int (q_row_count q)) k in
      \<lparr>sc_src = i, sc_sql = Some sql, sc_indices_len = of_int n, sc_indices = [0..<nat n],
       sc_generate_time = ca_generate_time (cs_cache cs ! i)\<rparr>)"

lemma limited_sub:
  assumes "limited cs sql i q k"
  shows "DB_SUB_CACHE_init drv i (cs_cache cs ! i) sql w = Inr (True, limit_entry cs sql i q k, w)"
proof -
  obtain d where d: "ca_db (cs_cache cs ! i) = Some d" using assms by (auto simp: limited_def)
  have m: "(if int (q_row_count q) < k then int (q_row_count q) else k) = min (int (q_row_count q)) k" by simp
  from assms have a: "ca_query (cs_cache cs ! i) = Some q" "limit_value sql = Some k"
    "SQL_PARSER_supported_conditions sql = SQL_COND_LIMIT" by (simp_all add: limited_def)
  show ?thesis
    by (simp add: DB_SUB_CACHE_init_def SQL_PARSER_collect_data_def limit_entry_def a d m Let_def del: of_int_min)
qed

lemma limited_init:
  assumes "limited cs sql i q k"
  shows "DB_CACHE_init drv now dst db sql t cs w =
    Inr (Init_sub_cached, dst, cs\<lparr>cs_sub_cache := cs_sub_cache cs @ [limit_entry cs sql i q k]\<rparr>, w)"
proof -
  from assms have a: "DB_CACHE_subset_search sql (cs_cache cs) = Some i"
    "DB_SUB_CACHE_exists sql (cs_sub_cache cs) = Inr None" by (simp_all add: limited_def)
  show ?thesis by (simp add: DB_CACHE_init_def a limited_sub [OF assms])
qed

lemma limited_get:
  assumes "limited cs sql i q k"
  shows "DB_CACHE_get sql (cs\<lparr>cs_sub_cache := cs_sub_cache cs @ [limit_entry cs sql i q k]\<rparr>) =
    (None, Some (length (cs_sub_cache cs)))"
  using assms by (auto simp: limited_def DB_CACHE_get_def find_index_append limit_entry_def Let_def)

lemma limited_answer:
  assumes "limited (pa_cache app) sql i q k" "DATABASE_SYSTEM_DB_get (pa_DB app) db = Some src"
  shows "\<exists>w'. DCPAM_WDS_get_db_data (Suc (Suc fuel)) env app sql db w =
    (let cs = pa_cache app;
         app' = app\<lparr>pa_cache := cs\<lparr>cs_sub_cache := cs_sub_cache cs @ [limit_entry cs sql i q k]\<rparr>\<rparr>
     in Some (obind (cached_answer (pa_cache app') None (Some (length (cs_sub_cache cs)))) (\<lambda>j. Inr (Some j, app', w'))))"
proof -
  let ?cs = "(pa_cache app)\<lparr>cs_sub_cache := cs_sub_cache (pa_cache app) @ [limit_entry (pa_cache app) sql i q k]\<rparr>"
  have g: "DB_CACHE_get sql (pa_cache app) = (None, None)" using assms(1) by (simp add: limited_def)
  obtain v where m: "missed env app sql db src w = Inr (Init_sub_cached, empty_entry, ?cs, v)"
    by (simp add: missed_def limited_init [OF assms(1)])
  have g': "DB_CACHE_get sql (pa_cache (app\<lparr>pa_cache := ?cs\<rparr>)) = (None, Some (length (cs_sub_cache (pa_cache app))))"
    using limited_get [OF assms(1)] by simp
  obtain j where j: "cached_answer ?cs None (Some (length (cs_sub_cache (pa_cache app)))) = j" by blast
  show ?thesis
    using g assms(2) m j by (cases j) (auto simp: get_miss get_hit [OF g'] stopped_def Let_def)
qed

text \<open>
  A statement that a cached one is part of, with a LIMIT and without a WHERE, is answered without
  asking the database: with the first rows of the cached result, as many as the limit says, in their
  cached order, whatever else the statement asks for (an ORDER BY has no effect).
\<close>

theorem limit_answered_from_cache:
  assumes "limited (pa_cache app) sql i q k" "DATABASE_SYSTEM_DB_get (pa_DB app) db = Some src"
    "result_ok q" "0 \<le> k" "q_row_count q < 2 ^ 31"
  shows "\<exists>app' w'. DCPAM_WDS_get_db_data (Suc (Suc fuel)) env app sql db w =
    Some (Inr (Some (answer_json (map (row_of q) [0..<min (q_row_count q) (nat k)]) (min (q_row_count q) (nat k))),
               app', w'))"
proof -
  let ?n = "min (q_row_count q) (nat k)"
  have m: "min (int (q_row_count q)) k = int ?n" using assms(4) by auto
  have "?n < 2 ^ 64" using assms(5) by auto
  then have u: "unat (of_nat ?n :: 64 word) = ?n" by (simp add: unat_of_nat take_bit_nat_eq_self)
  have e: "sc_indices (limit_entry (pa_cache app) sql i q k) = [0..<?n]"
    "sc_indices_len (limit_entry (pa_cache app) sql i q k) = of_nat ?n"
    "sc_src (limit_entry (pa_cache app) sql i q k) = i"
    using m by (simp_all add: limit_entry_def Let_def del: of_nat_min)
  have "rows_json q [0..<?n] = Inr (map (row_of q) [0..<?n])" using assms(3) by (intro rows_json_ok) auto
  moreover have "ca_query (cs_cache (pa_cache app) ! i) = Some q" using assms(1) by (simp add: limited_def)
  ultimately have "cached_answer ((pa_cache app)\<lparr>cs_sub_cache := cs_sub_cache (pa_cache app) @
      [limit_entry (pa_cache app) sql i q k]\<rparr>) None (Some (length (cs_sub_cache (pa_cache app)))) =
      Inr (answer_json (map (row_of q) [0..<?n]) ?n)"
    using e u by (simp add: cached_answer_def Let_def nth_append del: of_nat_min)
  then show ?thesis
    using limited_answer [OF assms(1,2), of fuel env w] by (auto simp: Let_def)
qed

text \<open>
  A negative limit is stored as a huge length with no array behind it, which the answer then reads.
\<close>

theorem negative_limit_crashes:
  assumes "limited (pa_cache app) sql i q k" "DATABASE_SYSTEM_DB_get (pa_DB app) db = Some src"
    "- (2 ^ 63) \<le> k" "k < 0"
  shows "DCPAM_WDS_get_db_data (Suc (Suc fuel)) env app sql db w = Some (Inl Null_pointer)"
proof -
  have m: "min (int (q_row_count q)) k = k" using assms(4) by auto
  have "(of_int k :: 64 word) \<noteq> 0"
    using assms(3,4) zdvd_imp_le [of "2 ^ 64" "- k"] by (auto simp: word_of_int_eq_0_iff)
  then have "0 < unat (of_int k :: 64 word)" by (simp add: unat_gt_0)
  moreover have "ca_query (cs_cache (pa_cache app) ! i) = Some q" using assms(1) by (simp add: limited_def)
  ultimately have "cached_answer ((pa_cache app)\<lparr>cs_sub_cache := cs_sub_cache (pa_cache app) @
      [limit_entry (pa_cache app) sql i q k]\<rparr>) None (Some (length (cs_sub_cache (pa_cache app)))) =
      Inl Null_pointer"
    using m assms(4) by (simp add: cached_answer_def limit_entry_def Let_def nth_append)
  then show ?thesis
    using limited_answer [OF assms(1,2), of fuel env w] by (auto simp: Let_def)
qed

definition storing :: "DATABASE_SYSTEM_DB \<Rightarrow> bool" where
  "storing d \<longleftrightarrow> db_driver d \<in> {Some D_POSTGRESQL, Some D_MYSQL, Some D_MARIADB}"

definition accounted :: "cache_state \<Rightarrow> bool" where
  "accounted cs \<longleftrightarrow> cs_size cs = sum_list (map ca_size (cs_cache cs))"

lemma add_size_eq: "DB_CACHE_add_size c cs = cs\<lparr>cs_size := cs_size cs + ca_size c\<rparr>"
  by (simp add: DB_CACHE_add_size_def word_gt_0)

lemma sub_size_eq: "DB_CACHE_sub_size c cs = cs\<lparr>cs_size := cs_size cs - ca_size c\<rparr>"
  by (simp add: DB_CACHE_sub_size_def word_gt_0)

text \<open>What the creation of an entry does, result by result.\<close>

lemma init_sub_cached:
  assumes "DB_CACHE_init drv now dst db sql t cs w = Inr (res, dst', cs', w')"
    "DB_CACHE_subset_search sql (cs_cache cs) = Some i"
  shows "res = Init_sub_cached \<and> dst' = dst \<and>
    (\<exists>subs. cs' = cs\<lparr>cs_sub_cache := subs\<rparr> \<and> find_index (\<lambda>s. sc_sql s = Some sql) subs \<noteq> None)"
proof -
  obtain e where e: "DB_SUB_CACHE_exists sql (cs_sub_cache cs) = Inr e"
    using assms by (auto simp: DB_CACHE_init_def split: option.splits)
  show ?thesis
  proof (cases e)
    case (Some k)
    with assms e show ?thesis
      using DB_SUB_CACHE_exists_Some [of sql "cs_sub_cache cs" k]
      by (auto simp: DB_CACHE_init_def intro: exI [of _ "cs_sub_cache cs"])
  next
    case None
    with assms e obtain s v where s: "DB_SUB_CACHE_init drv i (cs_cache cs ! i) sql w = Inr (True, s, v)"
      and r: "res = Init_sub_cached" "dst' = dst" "cs' = cs\<lparr>cs_sub_cache := cs_sub_cache cs @ [s]\<rparr>"
      by (auto simp: DB_CACHE_init_def split: if_splits)
    from s have "sc_sql s = Some sql"
      by (auto simp: DB_SUB_CACHE_init_def SQL_PARSER_collect_data_def Let_def split: option.splits if_splits prod.splits)
    with r show ?thesis
      by (auto simp: find_index_append split: option.splits)
  qed
qed

lemma init_fresh:
  assumes "DB_CACHE_init drv now dst db sql t cs w = Inr (res, dst', cs', w')"
    "DB_CACHE_subset_search sql (cs_cache cs) = None" "storing db"
  shows "if res = Init_failed then cs' = cs
         else cs' = cs\<lparr>cs_size := cs_size cs + ca_size dst'\<rparr> \<and> cached_sql dst' = Some sql \<and> ca_db dst' = Some db \<and>
              res = (if cs_max_size cs < cs_size cs + ca_size dst' then Init_over_limit else Init_cached)"
proof -
  obtain ok r v ix where x: "DB_exec drv db (Some sql) (length sql) (Some empty_DB_QUERY) [] None (w, []) = Inr (ok, Some r, v, ix)"
    using assms(1,2) by (auto simp: DB_CACHE_init_def Let_def split: option.splits)
  show ?thesis
  proof (cases ok)
    case True
    have "q_sql r = Some sql" by (rule DB_exec_stores [OF assms(3) [unfolded storing_def] x [unfolded eqTrueI [OF True]]])
    with assms(1,2) x True show ?thesis
      by (auto simp: DB_CACHE_init_def Let_def add_size_eq cached_sql_def)
  next
    case False
    with assms(1,2) x show ?thesis by (auto simp: DB_CACHE_init_def Let_def)
  qed
qed

text \<open>What a request may do to the caches: nothing, more sub-caches, or one entry within the limit.\<close>

definition cache_step :: "cache_state \<Rightarrow> cache_state \<Rightarrow> bool" where
  "cache_step cs cs' \<longleftrightarrow>
     (\<exists>subs. cs' = cs\<lparr>cs_sub_cache := subs\<rparr>) \<or>
     (\<exists>c. cs' = cs\<lparr>cs_cache := cs_cache cs @ [c], cs_size := cs_size cs + ca_size c\<rparr> \<and>
          cs_size cs + ca_size c \<le> cs_max_size cs)"

lemma cache_step_refl: "cache_step cs cs"
  by (auto simp: cache_step_def intro: exI [of _ "cs_sub_cache cs"])

lemma cache_step_accounted:
  "cache_step cs cs' \<Longrightarrow> accounted cs \<Longrightarrow> cs_size cs \<le> cs_max_size cs \<Longrightarrow>
   accounted cs' \<and> cs_size cs' \<le> cs_max_size cs' \<and> cs_max_size cs' = cs_max_size cs"
  by (auto simp: cache_step_def accounted_def)

definition settled :: "P_DCPAM_APP \<Rightarrow> (json option \<times> P_DCPAM_APP \<times> 'w) outcome option \<Rightarrow> bool" where
  "settled app r \<longleftrightarrow> r \<noteq> None \<and>
     (\<forall>j app' w. r = Some (Inr (j, app', w)) \<longrightarrow>
        (\<exists>cs. app' = app\<lparr>pa_cache := cs\<rparr> \<and> cache_step (pa_cache app) cs))"

lemma settled_stopped: "settled app r \<Longrightarrow> settled app (map_option (stopped env db sql) r)"
  by (cases r) (auto simp: settled_def stopped_def)

lemma settled_unchanged: "settled app (Some (Inr (j, app, w)))"
  by (auto simp: settled_def intro: exI [of _ "pa_cache app"] cache_step_refl)

lemma drop_last_grown:
  assumes "drop_last (Inr (j, app\<lparr>pa_cache := (pa_cache app)\<lparr>cs_cache := cs_cache (pa_cache app) @ [c],
      cs_size := cs_size (pa_cache app) + ca_size c\<rparr>\<rparr>, w)) = Inr x"
  shows "x = (j, app, w)"
proof -
  let ?cs = "pa_cache app"
  have "DB_CACHE_free c (?cs\<lparr>cs_size := cs_size ?cs + ca_size c\<rparr>) = Inr (d, cs) \<Longrightarrow> cs = ?cs" for d cs
    by (auto simp: DB_CACHE_free_def sub_size_eq Let_def split: option.splits if_splits)
  with assms show ?thesis by (auto simp: drop_last_def Let_def)
qed

lemma get_hit_settled:
  assumes "DB_CACHE_get sql cs = (entry, sub_i)" "(entry, sub_i) \<noteq> (None, None)" "cache_step (pa_cache app) cs"
  shows "settled app (DCPAM_WDS_get_db_data (Suc fuel) env (app\<lparr>pa_cache := cs\<rparr>) sql db w)"
  using assms get_hit [of sql "app\<lparr>pa_cache := cs\<rparr>" entry sub_i fuel env db w] by (auto simp: settled_def)

lemma get_over_settled:
  assumes "DB_CACHE_get sql cs = (entry, sub_i)" "(entry, sub_i) \<noteq> (None, None)"
    "cs = (pa_cache app)\<lparr>cs_cache := cs_cache (pa_cache app) @ [c], cs_size := cs_size (pa_cache app) + ca_size c\<rparr>"
  shows "settled app (map_option drop_last (DCPAM_WDS_get_db_data (Suc fuel) env (app\<lparr>pa_cache := cs\<rparr>) sql db w))"
proof (cases "cached_answer cs entry sub_i")
  case (Inl e)
  then show ?thesis
    using assms(1,2) get_hit [of sql "app\<lparr>pa_cache := cs\<rparr>" entry sub_i fuel env db w]
    by (simp add: settled_def drop_last_def)
next
  case (Inr j)
  let ?r = "drop_last (Inr (Some j, app\<lparr>pa_cache := cs\<rparr>, reported env db sql w))"
  have "settled app (Some ?r)"
  proof (cases ?r)
    case (Inr x)
    then have "x = (Some j, app, reported env db sql w)" unfolding assms(3) by (rule drop_last_grown)
    with Inr show ?thesis using settled_unchanged by simp
  qed (simp add: settled_def)
  then show ?thesis
    using Inr assms(1,2) get_hit [of sql "app\<lparr>pa_cache := cs\<rparr>" entry sub_i fuel env db w] by simp
qed

lemma get_fresh:
  assumes "DB_CACHE_get sql cs = (None, None)" "cached_sql c = Some sql"
  shows "DB_CACHE_get sql (cs\<lparr>cs_cache := cs_cache cs @ [c], cs_size := n\<rparr>) = (Some (length (cs_cache cs)), None)"
  using assms by (simp add: DB_CACHE_get_def find_index_append)

lemma sub_cached_settles:
  assumes g: "DB_CACHE_get sql (pa_cache app) = (None, None)" "DATABASE_SYSTEM_DB_get (pa_DB app) db = Some src"
    and m: "missed env app sql db src w = Inr (res, dst, cs, v)"
    and k: "DB_CACHE_subset_search sql (cs_cache (pa_cache app)) = Some k"
  shows "settled app (DCPAM_WDS_get_db_data (Suc (Suc fuel)) env app sql db w)"
proof -
  from init_sub_cached [OF m [unfolded missed_def] k] have r: "res = Init_sub_cached"
    and "cache_step (pa_cache app) cs" "snd (DB_CACHE_get sql cs) \<noteq> None"
    by (auto simp: cache_step_def DB_CACHE_get_def)
  then have "settled app (DCPAM_WDS_get_db_data (Suc fuel) env (app\<lparr>pa_cache := cs\<rparr>) sql db
      (wd_report env (cache_descr sql db) DCT_STOP v))"
    by (cases "DB_CACHE_get sql cs") (auto intro: get_hit_settled)
  then show ?thesis using get_miss [OF g, of "Suc fuel" env w] m r by (simp add: settled_stopped Let_def)
qed

lemma fresh_settles:
  assumes g: "DB_CACHE_get sql (pa_cache app) = (None, None)" "DATABASE_SYSTEM_DB_get (pa_DB app) db = Some src"
    and m: "missed env app sql db src w = Inr (res, dst, cs, v)" and src: "storing src"
    and k: "DB_CACHE_subset_search sql (cs_cache (pa_cache app)) = None"
  shows "settled app (DCPAM_WDS_get_db_data (Suc (Suc fuel)) env app sql db w)"
proof (cases "res = Init_failed")
  case True
  then show ?thesis
    using init_fresh [OF m [unfolded missed_def] k src] get_miss [OF g, of "Suc fuel" env w] m settled_unchanged [of app]
    by (auto simp: stopped_def Let_def)
next
  case False
  let ?s = "cs_size (pa_cache app) + ca_size dst"
  let ?cs = "(pa_cache app)\<lparr>cs_cache := cs_cache (pa_cache app) @ [dst], cs_size := ?s\<rparr>"
  let ?next = "DCPAM_WDS_get_db_data (Suc fuel) env (app\<lparr>pa_cache := ?cs\<rparr>) sql db
    (wd_report env (cache_descr sql db) DCT_STOP v)"
  have f: "cs\<lparr>cs_cache := cs_cache cs @ [dst]\<rparr> = ?cs" "cached_sql dst = Some sql"
    "res = (if cs_max_size (pa_cache app) < ?s then Init_over_limit else Init_cached)"
    using init_fresh [OF m [unfolded missed_def] k src] False by auto
  note h = get_fresh [OF g(1) f(2), of ?s]
  show ?thesis
  proof (cases "cs_max_size (pa_cache app) < ?s")
    case True
    have "settled app (map_option drop_last ?next)" by (rule get_over_settled [OF h _ refl]) simp
    then show ?thesis
      using get_miss [OF g, of "Suc fuel" env w] m f True by (simp add: settled_stopped Let_def)
  next
    case False
    then have "settled app ?next" by (intro get_hit_settled [OF h]) (auto simp: cache_step_def)
    then show ?thesis
      using get_miss [OF g, of "Suc fuel" env w] m f False by (simp add: settled_stopped Let_def)
  qed
qed

lemma get_settles:
  assumes "\<forall>d \<in> set (pa_DB app). storing d"
  shows "settled app (DCPAM_WDS_get_db_data (Suc (Suc fuel)) env app sql db w)"
proof (cases "DB_CACHE_get sql (pa_cache app) = (None, None)")
  case False
  then show ?thesis
    using get_hit_settled [of sql "pa_cache app" _ _ app "Suc fuel" env db w] cache_step_refl
    by (cases "DB_CACHE_get sql (pa_cache app)") auto
next
  case g: True
  show ?thesis
  proof (cases "DATABASE_SYSTEM_DB_get (pa_DB app) db")
    case None
    then show ?thesis using g settled_unchanged by (simp add: get_unknown_db)
  next
    case (Some src)
    then have src: "storing src" using assms by (auto simp: DATABASE_SYSTEM_DB_get_def find_Some_iff)
    show ?thesis
    proof (cases "missed env app sql db src w")
      case (Inl e)
      then show ?thesis using get_miss [OF g Some, of "Suc fuel" env w] by (simp add: settled_def stopped_def)
    next
      case (Inr m)
      then obtain res dst cs v where m: "missed env app sql db src w = Inr (res, dst, cs, v)" by (metis prod_cases4)
      show ?thesis
        using sub_cached_settles [OF g Some m] fresh_settles [OF g Some m src]
        by (cases "DB_CACHE_subset_search sql (cs_cache (pa_cache app))") auto
    qed
  qed
qed

text \<open>
  C10: the function that calls itself after caching does so once: with PostgreSQL, MySQL and MariaDB
  the second call finds what the first has stored, so that two units of fuel are always enough.
\<close>

theorem get_db_data_terminates:
  assumes "\<forall>d \<in> set (pa_DB app). storing d" "2 \<le> fuel"
  shows "\<exists>r. DCPAM_WDS_get_db_data fuel env app sql db w = Some r"
proof -
  obtain n where "fuel = Suc (Suc n)" using assms(2) by (metis add_2_eq_Suc le_Suc_ex)
  then show ?thesis using get_settles [OF assms(1), of n env sql db w] by (auto simp: settled_def)
qed

text \<open>
  C6: the counter of cached bytes stays the sum of the sizes of the entries and within the limit, over
  every request and every result of the database, an entry over the limit included.
\<close>

theorem memory_limit_respected:
  assumes "\<forall>d \<in> set (pa_DB app). storing d" "accounted (pa_cache app)"
    "cs_size (pa_cache app) \<le> cs_max_size (pa_cache app)"
    "DCPAM_WDS_get_db_data (Suc (Suc fuel)) env app sql db w = Some (Inr (j, app', w'))"
  shows "accounted (pa_cache app') \<and> cs_size (pa_cache app') \<le> cs_max_size (pa_cache app') \<and>
    cs_max_size (pa_cache app') = cs_max_size (pa_cache app) \<and> pa_DB app' = pa_DB app"
  using get_settles [OF assms(1), of fuel env sql db w] assms(2,3,4)
  by (auto simp: settled_def dest: cache_step_accounted)

section \<open>Access\<close>

text \<open>
  C34: a request gets its data if its key is that of every entry of its host, and an error answer
  otherwise; a host without an entry needs no particular key.
\<close>

theorem wds_access_rule:
  assumes "wd_parse env (cstr_of content) = Some request" "content \<noteq> []"
    "cJSON_GetObjectItem request ''msg'' = None" "cJSON_GetObjectItem request ''report'' = None"
    "cJSON_GetObjectItem request ''key'' = Some (JString k)"
  shows "DCPAM_WDS_query fuel env app content client st w =
    (if \<forall>(h, a) \<in> set (pa_allowed_hosts app). h = so_ip st \<longrightarrow> a = k
     then wds_data fuel env app request client st w
     else Some (wds_error env app client st w))"
proof -
  obtain ok where ok: "(\<forall>(h, a) \<in> set (pa_allowed_hosts app). h = so_ip st \<longrightarrow> a = k) = ok" by blast
  show ?thesis
    unfolding ok using assms by (cases ok) (simp_all add: DCPAM_WDS_query_def valuestring_def key_allowed_iff ok)
qed

text \<open>
  A request whose \<open>msg\<close> is not a text makes the server read through NULL, before any key is checked.
\<close>

theorem untyped_message_crashes:
  assumes "wd_parse env (cstr_of content) = Some request" "content \<noteq> []"
    "cJSON_GetObjectItem request ''msg'' = Some m" "valuestring m = None"
  shows "DCPAM_WDS_query fuel env app content client st w = Some (Inl Null_pointer)"
  using assms by (simp add: DCPAM_WDS_query_def strcmp_eq_def)

section \<open>Concrete inputs\<close>

definition demo_cache :: cache_state where
  "demo_cache = \<lparr>cs_cache = [demo_entry], cs_sub_cache = [], cs_size = 6, cs_max_size = 8\<rparr>"

definition demo_wds :: P_DCPAM_APP where
  "demo_wds = \<lparr>pa_DB = [demo_wds_db], pa_DATA = [], pa_cache = demo_cache,
               pa_allowed_hosts = [(''10.0.0.1'', ''k'')], pa_nodes = []\<rparr>"

definition demo_request :: json where
  "demo_request = JObject [(''key'', JString ''k''), (''sql'', JString ''SELECT a FROM t''), (''db'', JString ''dw'')]"

definition demo_wds_env :: "json \<Rightarrow> string list wds_env" where
  "demo_wds_env req =
     \<lparr>wd_drv = demo_wds_drivers [[''3''], [''1''], [''2'']],
      wd_net = \<lparr>net_socket = (\<lambda>w. (- 1, w)), net_ctx = (\<lambda>w. (True, w)), net_connect = (\<lambda>s h p w. (False, w)),
                net_handshake = (\<lambda>s w. (True, w)), net_send = (\<lambda>b s d w. (True, w)), net_recv = (\<lambda>b s n w. ([], w)),
                net_os = \<lparr>os_select = (\<lambda>m w. ({}, w)), os_accept = (\<lambda>w. (- 1, [], w)), os_recv = (\<lambda>fd w. (Recv_data [], w)),
                          os_send = (\<lambda>fd s w. (int (length s), w @ [s])), os_close = (\<lambda>fd w. w)\<rparr>\<rparr>,
      wd_fresh = demo_conn, wd_parse = (\<lambda>s. Some req), wd_print = (\<lambda>j. ''json''),
      wd_report = (\<lambda>s t w. w), wd_usage = (\<lambda>cs. ''0 B''), wd_now = 1000000\<rparr>"

lemmas demo_wds_defs = demo_wds_env_def demo_wds_def demo_cache_def demo_cached_def demo_entry_def demo_wds_db_def demo_request_def

text \<open>A request that has a statement run on PostgreSQL, and one over the limit of eight bytes.\<close>

lemma demo_storing: "\<forall>d \<in> set (pa_DB demo_wds). storing d"
  by (simp add: demo_wds_defs storing_def)

theorem cached_answers_never_expire_witness:
  "DCPAM_WDS_get_db_data 1 (demo_wds_env demo_request) demo_wds ''SELECT a FROM t'' ''unknown'' [] =
     Some (Inr (Some (answer_json (map (row_of demo_cached) [0..<3]) 3), demo_wds, []))"
proof -
  have "DCPAM_WDS_get_db_data (Suc 0) (demo_wds_env demo_request) demo_wds ''SELECT a FROM t'' ''unknown'' [] =
    Some (Inr (Some (answer_json (map (row_of demo_cached) [0..<q_row_count demo_cached]) (q_row_count demo_cached)),
      demo_wds, reported (demo_wds_env demo_request) ''unknown'' ''SELECT a FROM t'' []))"
    by (rule cached_answers_never_expire [where i = 0])
      (simp_all add: demo_wds_def demo_cache_def demo_entry_def cached_sql_def demo_cached_def result_ok_def mk_records_def
        mk_record_def demo_rows_def)
  moreover have "q_row_count demo_cached = 3" "wd_report (demo_wds_env demo_request) s t w = w" for s t w
    by (simp_all add: demo_cached_def demo_wds_env_def)
  ultimately show ?thesis by (simp add: reported_def)
qed

theorem limit_answered_from_cache_witness:
  "\<exists>app' w'. DCPAM_WDS_get_db_data 2 (demo_wds_env demo_request) demo_wds
       ''SELECT a FROM t ORDER BY a LIMIT 2'' ''dw'' [] =
     Some (Inr (Some (answer_json [JObject [(''a'', JString ''3'')], JObject [(''a'', JString ''1'')]] 2), app', w'))"
proof -
  have "\<exists>app' w'. DCPAM_WDS_get_db_data (Suc (Suc 0)) (demo_wds_env demo_request) demo_wds
       ''SELECT a FROM t ORDER BY a LIMIT 2'' ''dw'' [] =
     Some (Inr (Some (answer_json (map (row_of demo_cached) [0..<min (q_row_count demo_cached) (nat 2)])
       (min (q_row_count demo_cached) (nat 2))), app', w'))"
  proof (rule limit_answered_from_cache)
    show "limited (pa_cache demo_wds) ''SELECT a FROM t ORDER BY a LIMIT 2'' 0 demo_cached 2" by code_simp
    show "DATABASE_SYSTEM_DB_get (pa_DB demo_wds) ''dw'' = Some demo_wds_db" by code_simp
    show "result_ok demo_cached" by code_simp
  qed (simp_all add: demo_cached_def)
  moreover have "answer_json (map (row_of demo_cached) [0..<min (q_row_count demo_cached) (nat 2)])
      (min (q_row_count demo_cached) (nat 2)) =
    answer_json [JObject [(''a'', JString ''3'')], JObject [(''a'', JString ''1'')]] 2" by code_simp
  ultimately show ?thesis by (simp add: numeral_2_eq_2)
qed

theorem negative_limit_crashes_witness:
  "DCPAM_WDS_get_db_data 2 (demo_wds_env demo_request) demo_wds ''SELECT a FROM t LIMIT -1'' ''dw'' [] =
     Some (Inl Null_pointer)"
proof -
  have "DCPAM_WDS_get_db_data (Suc (Suc 0)) (demo_wds_env demo_request) demo_wds ''SELECT a FROM t LIMIT -1'' ''dw'' [] =
     Some (Inl Null_pointer)"
  proof (rule negative_limit_crashes)
    show "limited (pa_cache demo_wds) ''SELECT a FROM t LIMIT -1'' 0 demo_cached (- 1)" by code_simp
    show "DATABASE_SYSTEM_DB_get (pa_DB demo_wds) ''dw'' = Some demo_wds_db" by code_simp
  qed simp_all
  then show ?thesis by (simp add: numeral_2_eq_2)
qed

theorem get_db_data_terminates_witness:
  "\<exists>r. DCPAM_WDS_get_db_data 2 (demo_wds_env demo_request) demo_wds ''SELECT b FROM u'' ''dw'' [] = Some r"
  by (rule get_db_data_terminates [OF demo_storing]) simp

theorem memory_limit_respected_witness:
  "\<exists>j app w. DCPAM_WDS_get_db_data 2 (demo_wds_env demo_request) demo_wds ''SELECT b FROM u'' ''dw'' [] =
      Some (Inr (j, app, w)) \<and> accounted (pa_cache app) \<and> cs_size (pa_cache app) \<le> cs_max_size (pa_cache app)"
proof -
  have "case DCPAM_WDS_get_db_data 2 (demo_wds_env demo_request) demo_wds ''SELECT b FROM u'' ''dw'' [] of
      Some (Inr (j, app, w)) \<Rightarrow> True | _ \<Rightarrow> False" by code_simp
  then obtain j app w where r: "DCPAM_WDS_get_db_data 2 (demo_wds_env demo_request) demo_wds ''SELECT b FROM u'' ''dw'' [] =
      Some (Inr (j, app, w))" by (auto split: option.splits sum.splits)
  moreover have "accounted (pa_cache demo_wds)" "cs_size (pa_cache demo_wds) \<le> cs_max_size (pa_cache demo_wds)"
    by (simp_all add: demo_wds_def demo_cache_def demo_entry_def accounted_def)
  ultimately show ?thesis
    using memory_limit_respected [OF demo_storing, of 0 "demo_wds_env demo_request" "''SELECT b FROM u''" "''dw''" "[]" j app w]
    unfolding numeral_2_eq_2 by (metis (no_types))
qed

theorem wds_access_rule_witness:
  "DCPAM_WDS_query 2 (demo_wds_env demo_request) demo_wds ''{}'' 0 (demo_sock\<lparr>so_ip := ''10.0.0.2''\<rparr>) [] =
     wds_data 2 (demo_wds_env demo_request) demo_wds demo_request 0 (demo_sock\<lparr>so_ip := ''10.0.0.2''\<rparr>) []"
  using wds_access_rule [of "demo_wds_env demo_request" "''{}''" demo_request "''k''" 2 demo_wds 0
      "demo_sock\<lparr>so_ip := ''10.0.0.2''\<rparr>" "[]"]
  by (simp add: demo_wds_def demo_wds_env_def demo_request_def cJSON_GetObjectItem_def to_lower_def)

theorem untyped_message_crashes_witness:
  "DCPAM_WDS_query 2 (demo_wds_env (JObject [(''msg'', JNumber 1)])) demo_wds ''{}'' 0 demo_sock [] =
     Some (Inl Null_pointer)"
  by (rule untyped_message_crashes [where request = "JObject [(''msg'', JNumber 1)]" and m = "JNumber 1"])
    (simp_all add: demo_wds_env_def cJSON_GetObjectItem_def to_lower_def valuestring_def)

end
