(* ===== verification/Server_Config.thy ===== *)
theory Server_Config
  imports Etl_Startup Rdp_Server Wds_Answers
begin

text \<open>
  The configuration files of the three servers, read key by key: \<open>DCPAM_RDP_load_configuration\<close>,
  \<open>DCPAM_LCS_load_configuration\<close> and \<open>DCPAM_WDS_load_configuration\<close>, and the start of their \<open>main\<close> functions with
  what was read. As in \<open>Etl_Config\<close>, \<open>Inr None\<close> is \<open>return FALSE\<close>, which ends the program.
\<close>

section \<open>What the three files share\<close>

definition load_names :: "json \<Rightarrow> (string \<times> string) part" where
  "load_names a =
     pbind (pbind (need a ''name'') format_of) (\<lambda>name.
     pbind (pbind (need a ''version'') format_of) (\<lambda>ver. Inr (Some (name, ver))))"

definition load_port :: "json \<Rightarrow> int" where
  "load_port network = (case cJSON_GetObjectItem network ''port'' of None \<Rightarrow> 9090 | Some p \<Rightarrow> valueint p)"

text \<open>
  A host without its address or its key: \<open>None\<close> is the pointer that was not written after \<open>malloc\<close>.
\<close>

type_synonym raw_host = "string option \<times> string option"

definition load_raw_host :: "json \<Rightarrow> raw_host part" where
  "load_raw_host item =
     pbind (load_optional item ''ip'') (\<lambda>ip. pbind (load_optional item ''key'') (\<lambda>key. Inr (Some (ip, key))))"

definition load_hosts :: "json \<Rightarrow> raw_host list part" where
  "load_hosts network = pbind (need network ''allowed_hosts'') (load_list load_raw_host)"

text \<open>
  The hosts as the servers use them. The threads copy every address when they start; a key is read when
  its host sends a request, and when the configuration is released. Here both are read at the start.
\<close>

fun ready_hosts :: "raw_host list \<Rightarrow> (string \<times> string) list outcome" where
  "ready_hosts [] = Inr []"
| "ready_hosts ((Some ip, Some key) # hosts) = obind (ready_hosts hosts) (\<lambda>hs. Inr ((ip, key) # hs))"
| "ready_hosts (host # hosts) = Inl Uninitialised"

text \<open>The LCS is required by the RDP and the WDS.\<close>

definition load_lcs_report :: "json \<Rightarrow> LCS_REPORT \<Rightarrow> string \<Rightarrow> string \<Rightarrow> LCS_REPORT part" where
  "load_lcs_report config r name ver =
     pbind (need config ''LCS'') (\<lambda>lcs.
     pbind (pbind (need lcs ''address'') format_of) (\<lambda>address.
       case LCS_REPORT_init (r\<lparr>lr_address := Some address\<rparr>) address name ver of
         (False, _) \<Rightarrow> Inr None
       | (True, r) \<Rightarrow> Inr (Some r)))"

section \<open>The remote data processor\<close>

record RDP_CONFIG =
  rc_name :: "string option"
  rc_version :: "string option"
  rc_port :: int
  rc_hosts :: "raw_host list"
  rc_lcs_report :: LCS_REPORT

text \<open>A file that is not JSON leaves the static memory as it was, and is no error.\<close>

definition DCPAM_RDP_load_configuration ::
  "(string \<Rightarrow> json option) \<Rightarrow> string option \<Rightarrow> RDP_CONFIG \<Rightarrow> RDP_CONFIG part" where
  "DCPAM_RDP_load_configuration parse content cfg =
     (case content of
        None \<Rightarrow> Inr None
      | Some s \<Rightarrow>
          (case parse s of
             None \<Rightarrow> Inr (Some cfg)
           | Some config \<Rightarrow>
               pbind (need config ''app'') (\<lambda>a.
               pbind (load_names a) (\<lambda>(name, ver).
               pbind (need a ''network'') (\<lambda>network.
               pbind (load_hosts network) (\<lambda>hosts.
               pbind (load_lcs_report config (rc_lcs_report cfg) name ver) (\<lambda>r.
                 Inr (Some \<lparr>rc_name = Some name, rc_version = Some ver, rc_port = load_port network,
                            rc_hosts = hosts, rc_lcs_report = r\<rparr>))))))))"

definition rdp_app :: "RDP_CONFIG \<Rightarrow> R_DCPAM_APP outcome" where
  "rdp_app cfg = obind (ready_hosts (rc_hosts cfg)) (\<lambda>hosts.
     Inr \<lparr>ra_name = the_text (rc_name cfg), ra_version = the_text (rc_version cfg), ra_allowed_hosts = hosts\<rparr>)"

definition rdp_start ::
  "'w rdp_env \<Rightarrow> 'w listen_os \<Rightarrow> (string \<Rightarrow> json option) \<Rightarrow> string option \<Rightarrow> RDP_CONFIG \<Rightarrow> nat \<Rightarrow> sock_state \<Rightarrow> 'w \<Rightarrow>
   (sock_state option \<times> 'w) part" where
  "rdp_start env ls parse content cfg rounds st w =
     pbind (DCPAM_RDP_load_configuration parse content cfg) (\<lambda>cfg.
     obind (rdp_app cfg) (\<lambda>app.
     obind (deref (lr_lcs_host (rc_lcs_report cfg))) (\<lambda>lcs_host.
     obind (DCPAM_RDP_worker env ls app lcs_host (rc_port cfg) rounds st w) (\<lambda>r. Inr (Some r)))))"

definition DCPAM_RDP_free_configuration :: "'w net \<Rightarrow> RDP_CONFIG \<Rightarrow> sock_state \<Rightarrow> 'w \<Rightarrow> RDP_CONFIG \<times> sock_state \<times> 'w" where
  "DCPAM_RDP_free_configuration net cfg st w =
     (case LCS_REPORT_free net (rc_lcs_report cfg) st w of
        (r, st, w) \<Rightarrow> (cfg\<lparr>rc_lcs_report := r, rc_hosts := [], rc_version := None, rc_name := None\<rparr>, st, w))"

section \<open>The live component state\<close>

record LCS_CONFIG =
  lc_name :: "string option"
  lc_version :: "string option"
  lc_port :: int
  lc_components :: "DCPAM_COMPONENT list"
  lc_hosts :: "raw_host list"

text \<open>
  The four keys of a component are dereferenced without a test. The entries are filled in order, each with
  a ping over the network; what the check finds is only logged.
\<close>

definition component_args :: "json \<Rightarrow> (string \<times> string \<times> string \<times> int) outcome" where
  "component_args item =
     (case map (cJSON_GetObjectItem item) [''name'', ''version'', ''ip'', ''port''] of
        [Some name, Some ver, Some ip, Some port] \<Rightarrow>
          obind (deref (valuestring name)) (\<lambda>n. obind (deref (valuestring ver)) (\<lambda>v.
          obind (deref (valuestring ip)) (\<lambda>i. Inr (n, v, i, valueint port))))
      | _ \<Rightarrow> Inl Null_pointer)"

fun load_components ::
  "'w net \<Rightarrow> (string \<Rightarrow> json option) \<Rightarrow> NET_CONN \<Rightarrow> string \<Rightarrow> DCPAM_COMPONENT \<Rightarrow> json list \<Rightarrow> sock_state \<Rightarrow> 'w \<Rightarrow>
   (DCPAM_COMPONENT list \<times> sock_state \<times> 'w) outcome option" where
  "load_components net parse fresh now mem [] st w = Some (Inr ([], st, w))"
| "load_components net parse fresh now mem (item # rest) st w =
     (case component_args item of
        Inl e \<Rightarrow> Some (Inl e)
      | Inr (name, ver, ip, port) \<Rightarrow>
          (case LCS_COMPONENT_register net parse fresh now mem name ver ip port st w of
             None \<Rightarrow> None
           | Some (Inl e) \<Rightarrow> Some (Inl e)
           | Some (Inr (ok, c, st, w)) \<Rightarrow>
               map_option (\<lambda>r. obind r (\<lambda>(cs, st, w). Inr (c # cs, st, w)))
                 (load_components net parse fresh now mem rest st w)))"

definition lcs_head :: "json \<Rightarrow> (string \<times> string \<times> json \<times> json list) part" where
  "lcs_head config =
     pbind (need config ''app'') (\<lambda>a.
     pbind (load_names a) (\<lambda>(name, ver).
     pbind (need a ''network'') (\<lambda>network.
     pbind (need network ''required_components'') (\<lambda>comps. Inr (Some (name, ver, network, items comps))))))"

text \<open>The outer \<open>None\<close> is a component that is connected and never closes.\<close>

definition DCPAM_LCS_load_configuration ::
  "'w net \<Rightarrow> (string \<Rightarrow> json option) \<Rightarrow> NET_CONN \<Rightarrow> string \<Rightarrow> DCPAM_COMPONENT \<Rightarrow> string option \<Rightarrow> LCS_CONFIG \<Rightarrow>
   sock_state \<Rightarrow> 'w \<Rightarrow> (LCS_CONFIG option \<times> sock_state \<times> 'w) outcome option" where
  "DCPAM_LCS_load_configuration net parse fresh now mem content cfg st w =
     (case content of
        None \<Rightarrow> Some (Inr (None, st, w))
      | Some s \<Rightarrow>
          (case parse s of
             None \<Rightarrow> Some (Inr (Some cfg, st, w))
           | Some config \<Rightarrow>
               (case lcs_head config of
                  Inl e \<Rightarrow> Some (Inl e)
                | Inr None \<Rightarrow> Some (Inr (None, st, w))
                | Inr (Some (name, ver, network, comps)) \<Rightarrow>
                    map_option (\<lambda>r. obind r (\<lambda>(cs, st, w). obind (load_hosts network) (\<lambda>hosts.
                        Inr (map_option (\<lambda>hs. \<lparr>lc_name = Some name, lc_version = Some ver, lc_port = load_port network,
                                               lc_components = cs, lc_hosts = hs\<rparr>) hosts, st, w))))
                      (load_components net parse fresh now mem comps st w))))"

text \<open>The addresses that may connect: those of the components and those of the configured hosts, all counted.\<close>

definition lcs_hosts :: "L_DCPAM_APP \<Rightarrow> string list outcome" where
  "lcs_hosts app =
     foldr (\<lambda>c r. obind (deref (co_ip c)) (\<lambda>ip. obind (format_copy ip) (\<lambda>ip. obind r (\<lambda>hs. Inr (ip # hs)))))
       (la_components app)
       (foldr (\<lambda>h r. obind (format_copy (fst h)) (\<lambda>ip. obind r (\<lambda>hs. Inr (ip # hs)))) (la_allowed_hosts app) (Inr []))"

text \<open>
  The handler changes the components, so that the socket loop runs over the world with the application
  beside it.
\<close>

definition beside_os :: "'w os \<Rightarrow> ('a \<times> 'w) os" where
  "beside_os sys =
     \<lparr>os_select = (\<lambda>m (a, w). case os_select sys m w of (r, w) \<Rightarrow> (r, a, w)),
      os_accept = (\<lambda>(a, w). case os_accept sys w of (fd, ip, w) \<Rightarrow> (fd, ip, a, w)),
      os_recv = (\<lambda>fd (a, w). case os_recv sys fd w of (r, w) \<Rightarrow> (r, a, w)),
      os_send = (\<lambda>fd s (a, w). case os_send sys fd s w of (n, w) \<Rightarrow> (n, a, w)),
      os_close = (\<lambda>fd (a, w). (a, os_close sys fd w))\<rparr>"

definition beside_listen :: "'w listen_os \<Rightarrow> ('a \<times> 'w) listen_os" where
  "beside_listen ls =
     \<lparr>ls_socket = (\<lambda>(a, w). case ls_socket ls w of (fd, w) \<Rightarrow> (fd, a, w)),
      ls_option = (\<lambda>fd x (a, w). (a, ls_option ls fd x w)),
      ls_bind = (\<lambda>fd p (a, w). case ls_bind ls fd p w of (ok, w) \<Rightarrow> (ok, a, w)),
      ls_nonblock = (\<lambda>fd (a, w). case ls_nonblock ls fd w of (ok, w) \<Rightarrow> (ok, a, w)),
      ls_listen = (\<lambda>fd n (a, w). case ls_listen ls fd n w of (ok, w) \<Rightarrow> (ok, a, w))\<rparr>"

definition lcs_app :: "LCS_CONFIG \<Rightarrow> L_DCPAM_APP outcome" where
  "lcs_app cfg =
     obind (ready_hosts (lc_hosts cfg)) (\<lambda>hosts. Inr \<lparr>la_components = lc_components cfg, la_allowed_hosts = hosts\<rparr>)"

definition lcs_handler ::
  "'w os \<Rightarrow> (string \<Rightarrow> json option) \<Rightarrow> (json \<Rightarrow> string) \<Rightarrow> string \<Rightarrow> (L_DCPAM_APP \<times> 'w) spc" where
  "lcs_handler sys parse print now content client st = (\<lambda>(app, w).
     obind (DCPAM_LCS_listener sys parse print now app content client st w) (\<lambda>(app, st, w). Inr (st, app, w)))"

text \<open>
  The start of \<open>main\<close>. The watcher thread, which checks the components at the same time, is
  \<open>LCS_WORKER_pass\<close>.
\<close>

definition lcs_serve ::
  "'w os \<Rightarrow> 'w listen_os \<Rightarrow> (string \<Rightarrow> json option) \<Rightarrow> (json \<Rightarrow> string) \<Rightarrow> string \<Rightarrow> LCS_CONFIG \<Rightarrow> nat \<Rightarrow> sock_state \<Rightarrow> 'w \<Rightarrow>
   (sock_state option \<times> L_DCPAM_APP \<times> 'w) outcome" where
  "lcs_serve sys ls parse print now cfg rounds st w =
     obind (lcs_app cfg) (\<lambda>app. obind (lcs_hosts app) (\<lambda>hosts.
       SOCKET_main (beside_listen ls) (beside_os sys) (Some (lcs_handler sys parse print now)) (lc_port cfg) hosts
         (length hosts) rounds st (app, w)))"

definition DCPAM_LCS_free_configuration :: "LCS_CONFIG \<Rightarrow> LCS_CONFIG" where
  "DCPAM_LCS_free_configuration cfg =
     cfg\<lparr>lc_components := la_components (DCPAM_LCS_free_components \<lparr>la_components = lc_components cfg, la_allowed_hosts = []\<rparr>),
         lc_hosts := [], lc_version := None, lc_name := None\<rparr>"

section \<open>The web service: memory, nodes and databases\<close>

text \<open>
  \<open>%6d%2s\<close>, or the same with a space. The multiplier of a terabyte is a product of four \<open>int\<close>s, which
  two's complement arithmetic makes 0; the limit is then divided by it for the log.
\<close>

definition multiplier :: "string \<Rightarrow> 64 word" where
  "multiplier unit =
     (if unit = ''KB'' then 1024 else if unit = ''MB'' then 1024 * 1024 else if unit = ''GB'' then 1024 * 1024 * 1024
      else if unit = ''TB'' then scast (1024 * 1024 * 1024 * 1024 :: 32 word) else 1)"

definition memory_value :: "string \<Rightarrow> (int \<times> string) option" where
  "memory_value s =
     (case scan_fields [Num 6, Word 2] s of
        [I v, S unit] \<Rightarrow> Some (v, unit)
      | _ \<Rightarrow> (case scan_fields [Num 6, White, Word 2] s of [I v, S unit] \<Rightarrow> Some (v, unit) | _ \<Rightarrow> None))"

text \<open>The multiplier and the limit.\<close>

definition load_memory :: "json \<Rightarrow> (64 word \<times> 64 word) part" where
  "load_memory j =
     (case valuestring j of
        None \<Rightarrow> Inr None
      | Some s \<Rightarrow>
          if 32 \<le> length s then Inr None
          else
            (case memory_value s of
               None \<Rightarrow> Inr None
             | Some (v, unit) \<Rightarrow>
                 if multiplier unit = 0 then Inl Division_by_zero
                 else Inr (Some (multiplier unit, of_int v * multiplier unit))))"

text \<open>A node keeps what \<open>malloc\<close> returned, \<open>None\<close>, for a key that is missing, which is only logged.\<close>

record RAW_NODE =
  rn_ip :: "string option"
  rn_port :: "int option"
  rn_key :: "string option"
  rn_tables :: "string list option"

definition load_table :: "json \<Rightarrow> string part" where
  "load_table item = pbind (format_of item) (\<lambda>t. Inr (Some (take (MAX_TABLE_NAME_LEN - 1) t)))"

definition load_node :: "json \<Rightarrow> RAW_NODE part" where
  "load_node item =
     pbind (load_optional item ''ip'') (\<lambda>ip.
     pbind (load_optional item ''key'') (\<lambda>key.
     pbind (case cJSON_GetObjectItem item ''tables'' of
              None \<Rightarrow> Inr (Some None)
            | Some arr \<Rightarrow> pbind (load_list load_table arr) (\<lambda>ts. Inr (Some (Some ts)))) (\<lambda>tables.
       Inr (Some \<lparr>rn_ip = ip, rn_port = map_option valueint (cJSON_GetObjectItem item ''port''), rn_key = key,
                  rn_tables = tables\<rparr>))))"

definition load_nodes :: "json \<Rightarrow> RAW_NODE list part" where
  "load_nodes a =
     (case cJSON_GetObjectItem a ''WDS'' of None \<Rightarrow> Inr (Some []) | Some arr \<Rightarrow> load_list load_node arr)"

text \<open>The nodes as the answers use them; as for the hosts, what was not written is reported at the start.\<close>

fun ready_nodes :: "RAW_NODE list \<Rightarrow> WDS_NODE list outcome" where
  "ready_nodes [] = Inr []"
| "ready_nodes (n # ns) =
     (case (rn_ip n, rn_port n, rn_key n, rn_tables n) of
        (Some ip, Some port, Some key, Some tables) \<Rightarrow>
          obind (ready_nodes ns) (\<lambda>ns. Inr (\<lparr>wn_ip = ip, wn_port = port, wn_key = key, wn_tables = tables\<rparr> # ns))
      | _ \<Rightarrow> Inl Uninitialised)"

text \<open>Every entry of \<open>DB\<close> is filled into memory from \<open>malloc\<close>.\<close>

fun load_dbs :: "(nat \<Rightarrow> DATABASE_SYSTEM_DB) \<Rightarrow> nat \<Rightarrow> json list \<Rightarrow> DATABASE_SYSTEM_DB list outcome" where
  "load_dbs heap i [] = Inr []"
| "load_dbs heap i (item # rest) =
     obind (db_of item (heap i)) (\<lambda>db. obind (load_dbs heap (Suc i) rest) (\<lambda>dbs. Inr (db # dbs)))"

section \<open>The web service: data and actions\<close>

definition MAX_DCPAM_DATA_ITEMS :: nat where "MAX_DCPAM_DATA_ITEMS = 5"
definition MAX_DCPAM_DATA_ACTIONS :: nat where "MAX_DCPAM_DATA_ACTIONS = 8"

text \<open>The elements of an array with their positions.\<close>

fun each_at :: "(nat \<Rightarrow> 'a \<Rightarrow> 'b part) \<Rightarrow> nat \<Rightarrow> 'a list \<Rightarrow> 'b list part" where
  "each_at f i [] = Inr (Some [])"
| "each_at f i (x # xs) = pbind (f i x) (\<lambda>y. pbind (each_at f (Suc i) xs) (\<lambda>ys. Inr (Some (y # ys))))"

text \<open>
  The first key of an entry of a static array: its length is taken before the entry is written, whose
  position is not compared with the size of the array.
\<close>

definition first_key :: "nat \<Rightarrow> nat \<Rightarrow> json \<Rightarrow> string \<Rightarrow> string part" where
  "first_key cap i item key =
     pbind (need item key) (\<lambda>v. pbind (text_of v) (\<lambda>_. if cap \<le> i then Inl Out_of_bounds else format_of v))"

definition short_of :: "int \<Rightarrow> int" where
  "short_of i = sint (word_of_int i :: 16 word)"

text \<open>
  The time to live is set to 60 when its key is missing, and then the missing item is dereferenced all the
  same.
\<close>

definition load_action :: "nat \<Rightarrow> json \<Rightarrow> DCPAM_DATA_ACTION part" where
  "load_action j item =
     pbind (first_key MAX_DCPAM_DATA_ACTIONS j item ''name'') (\<lambda>name.
     pbind (pbind (need item ''description'') format_of) (\<lambda>description.
     pbind (need item ''type'') (\<lambda>type.
     pbind (need item ''internal'') (\<lambda>internal.
     obind (deref (cJSON_GetObjectItem item ''cache_ttl'')) (\<lambda>ttl.
     pbind (pbind (need item ''condition'') format_of) (\<lambda>condition.
     pbind (pbind (need item ''sql'') text_of) (\<lambda>sql.
       Inr (Some \<lparr>da_name = Some name, da_description = Some description, da_type = valueint type,
                  da_internal = short_of (valueint internal), da_condition = Some condition,
                  da_cache_ttl = valueint ttl, da_sql = sql\<rparr>))))))))"

definition load_columns :: "json \<Rightarrow> string list part" where
  "load_columns arr =
     pbind (each_part text_of (take MAX_ETL_COLUMNS (items arr))) (\<lambda>cs.
       if MAX_ETL_COLUMNS < length (items arr) then Inl Out_of_bounds
       else Inr (Some (map (take (MAX_COLUMN_NAME_LEN - 1)) cs)))"

definition load_data_item :: "nat \<Rightarrow> json \<Rightarrow> DCPAM_DATA part" where
  "load_data_item i item =
     pbind (first_key MAX_DCPAM_DATA_ITEMS i item ''id'') (\<lambda>id.
     pbind (pbind (need item ''name'') format_of) (\<lambda>name.
     pbind (pbind (need item ''db_table_name'') load_table) (\<lambda>table.
     pbind (pbind (need item ''db_name'') format_of) (\<lambda>db_name.
     pbind (pbind (need item ''columns'') load_columns) (\<lambda>columns.
     pbind (pbind (need item ''description'') format_of) (\<lambda>description.
     pbind (need item ''actions'') (\<lambda>actions.
     pbind (each_at load_action 0 (items actions)) (\<lambda>actions.
       Inr (Some \<lparr>dt_id = Some id, dt_name = Some name, dt_db_name = db_name, dt_db_table_name = table,
                  dt_columns = columns, dt_description = Some description, dt_actions = actions\<rparr>)))))))))"

section \<open>The web service\<close>

record WDS_CONFIG =
  wc_name :: "string option"
  wc_version :: "string option"
  wc_port :: int
  wc_hosts :: "raw_host list"
  wc_multiplier :: "64 word"
  wc_max_size :: "64 word"
  wc_nodes :: "RAW_NODE list"
  wc_DB :: "DATABASE_SYSTEM_DB list"
  wc_DATA :: "DCPAM_DATA list"
  wc_cache_len :: nat
  wc_lcs_report :: LCS_REPORT

text \<open>Without \<open>max_memory\<close> the limit is that of the static memory, 0.\<close>

definition load_limit :: "json \<Rightarrow> WDS_CONFIG \<Rightarrow> (64 word \<times> 64 word) part" where
  "load_limit a cfg =
     (case cJSON_GetObjectItem a ''max_memory'' of
        None \<Rightarrow> Inr (Some (wc_multiplier cfg, wc_max_size cfg)) | Some m \<Rightarrow> load_memory m)"

definition load_wds_app :: "(nat \<Rightarrow> DATABASE_SYSTEM_DB) \<Rightarrow> json \<Rightarrow> WDS_CONFIG \<Rightarrow> WDS_CONFIG part" where
  "load_wds_app heap a cfg =
     pbind (load_names a) (\<lambda>(name, ver).
     pbind (need a ''network'') (\<lambda>network.
     pbind (load_hosts network) (\<lambda>hosts.
     pbind (load_limit a cfg) (\<lambda>(mult, limit).
     pbind (load_nodes a) (\<lambda>nodes.
     pbind (need a ''DB'') (\<lambda>dbs.
     obind (load_dbs heap 0 (items dbs)) (\<lambda>dbs.
     pbind (need a ''DATA'') (\<lambda>data.
     pbind (each_at load_data_item 0 (items data)) (\<lambda>data.
       Inr (Some (cfg\<lparr>wc_name := Some name, wc_version := Some ver, wc_port := load_port network, wc_hosts := hosts,
         wc_multiplier := mult, wc_max_size := limit, wc_nodes := nodes, wc_DB := dbs, wc_DATA := data,
         wc_cache_len := sum_list (map (length \<circ> dt_actions) data)\<rparr>)))))))))))"

definition DCPAM_WDS_load_configuration ::
  "(string \<Rightarrow> json option) \<Rightarrow> (nat \<Rightarrow> DATABASE_SYSTEM_DB) \<Rightarrow> string option \<Rightarrow> WDS_CONFIG \<Rightarrow> WDS_CONFIG part" where
  "DCPAM_WDS_load_configuration parse heap content cfg =
     (case content of
        None \<Rightarrow> Inr None
      | Some s \<Rightarrow>
          (case parse s of
             None \<Rightarrow> Inr (Some cfg)
           | Some config \<Rightarrow>
               pbind (need config ''app'') (\<lambda>a.
               pbind (load_wds_app heap a cfg) (\<lambda>cfg.
               pbind (load_lcs_report config (wc_lcs_report cfg) (the_text (wc_name cfg)) (the_text (wc_version cfg))) (\<lambda>r.
                 Inr (Some (cfg\<lparr>wc_lcs_report := r\<rparr>)))))))"

text \<open>The application of \<open>Wds_Server\<close>, with an empty cache.\<close>

definition wds_app :: "WDS_CONFIG \<Rightarrow> P_DCPAM_APP outcome" where
  "wds_app cfg =
     obind (ready_hosts (wc_hosts cfg)) (\<lambda>hosts. obind (ready_nodes (wc_nodes cfg)) (\<lambda>nodes.
       Inr \<lparr>pa_DB = wc_DB cfg, pa_DATA = wc_DATA cfg,
            pa_cache = \<lparr>cs_cache = [], cs_sub_cache = [], cs_size = 0, cs_max_size = wc_max_size cfg\<rparr>,
            pa_allowed_hosts = hosts, pa_nodes = nodes\<rparr>))"

text \<open>The start of \<open>main\<close> up to the thread: \<open>None\<close> when the file is refused or a connection fails.\<close>

definition wds_start ::
  "'w wds_env \<Rightarrow> (nat \<Rightarrow> DATABASE_SYSTEM_DB) \<Rightarrow> string option \<Rightarrow> WDS_CONFIG \<Rightarrow> 'w \<Rightarrow> (P_DCPAM_APP \<times> 'w) part" where
  "wds_start env heap content cfg w =
     pbind (DCPAM_WDS_load_configuration (wd_parse env) heap content cfg) (\<lambda>cfg.
     obind (wds_app cfg) (\<lambda>app.
     obind (DCPAM_WDS_init_cache env (wc_cache_len cfg) app w) (\<lambda>(ok, app, w).
       Inr (if ok then Some (app, w) else None))))"

text \<open>The hosts of \<open>DCPAM_WDS_worker\<close>: here the LCS is in the list and in the count.\<close>

definition wds_hosts :: "P_DCPAM_APP \<Rightarrow> string \<Rightarrow> string list \<times> nat" where
  "wds_hosts app lcs_host = (map fst (pa_allowed_hosts app) @ [lcs_host], length (pa_allowed_hosts app) + 1)"

section \<open>The memory limit\<close>

lemma multiplier_values:
  "multiplier ''KB'' = 1024" "multiplier ''MB'' = 1048576" "multiplier ''GB'' = 1073741824" "multiplier ''TB'' = 0"
  by (simp_all add: multiplier_def)

lemma scan_limit:
  assumes "n < 10 ^ 6" "unit \<in> {''KB'', ''MB'', ''GB'', ''TB''}"
  shows "scan_fields [Num 6, Word 2] (show_nat n @ unit) = [I (int n), S unit]"
proof -
  have len: "length (show_nat n) \<le> 6" using length_show_nat(2) [of n 5] assms(1) by simp
  obtain c cs where s: "show_nat n = c # cs" by (cases "show_nat n") auto
  then have "is_digit c" using show_nat_digits [of n] by simp
  then have "\<not> is_space c" by (auto simp: is_digit_def is_space_def)
  then have dw: "dropWhile is_space (show_nat n @ unit) = show_nat n @ unit" using s by simp
  let ?m = "6 - length (show_nat n)"
  have "take ?m unit = [] \<or> \<not> is_digit (hd (take ?m unit))"
    using assms(2) by (cases ?m) (auto simp: is_digit_def)
  from scan_int_show_nat [OF this, of n]
  have "scan_int (take 6 (show_nat n @ unit)) = Some (int n, take ?m unit)" using len by simp
  moreover have "drop 6 (show_nat n @ unit) = drop ?m unit" using len by simp
  ultimately have "scan_num 6 (show_nat n @ unit) = Some (int n, unit)"
    unfolding scan_num_def Let_def dw by (simp only: option.case prod.case append_take_drop_id)
  moreover have "scan_word 2 unit = Some (unit, [])"
    using assms(2) by (auto simp: scan_word_def is_space_def Let_def)
  ultimately show ?thesis by simp
qed

text \<open>
  The limit of the cache is the number of the configuration times its unit, without loss, for kilo-,
  mega- and gigabytes and up to six digits. In terabytes the product of the \<open>int\<close>s is 0 and the server
  divides by it: a limit in one of the four documented units ends the program.
\<close>

theorem memory_limit_in_bytes:
  assumes "n < 10 ^ 6" "unit \<in> {''KB'', ''MB'', ''GB'', ''TB''}"
  shows "if unit = ''TB'' then load_memory (JString (show_nat n @ unit)) = Inl Division_by_zero
         else \<exists>limit. load_memory (JString (show_nat n @ unit)) = Inr (Some (multiplier unit, limit)) \<and>
                unat limit = n * unat (multiplier unit)"
proof -
  have len: "length (show_nat n @ unit) < 32" using length_show_nat(2) [of n 5] assms by auto
  have v: "memory_value (show_nat n @ unit) = Some (int n, unit)"
    using scan_limit [OF assms] by (simp add: memory_value_def)
  have m: "unit \<noteq> ''TB'' \<Longrightarrow> unat (multiplier unit) \<le> 1073741824 \<and> multiplier unit \<noteq> 0"
    using assms(2) by (auto simp: multiplier_values)
  show ?thesis
  proof (cases "unit = ''TB''")
    case True
    with v len show ?thesis by (simp add: load_memory_def valuestring_def multiplier_values)
  next
    case False
    let ?limit = "of_int (int n) * multiplier unit"
    have "n * unat (multiplier unit) \<le> 10 ^ 6 * 1073741824"
      by (rule mult_le_mono) (use assms(1) m False in auto)
    then have "n * unat (multiplier unit) < 2 ^ LENGTH(64)" by (rule le_less_trans) simp
    moreover have "unat (of_nat n :: 64 word) = n" using assms(1) by (simp add: unat_of_nat)
    ultimately have "unat ?limit = n * unat (multiplier unit)"
      using unat_mult_lem [of "of_nat n :: 64 word" "multiplier unit"] by simp
    with v len m False show ?thesis by (simp add: load_memory_def valuestring_def)
  qed
qed

section \<open>The time to live of an action\<close>

text \<open>
  The default time to live does not exist: an action without \<open>cache_ttl\<close> is announced in the log with
  60 seconds, and the missing key is then read through a null pointer.
\<close>

theorem missing_cache_ttl_crashes:
  assumes "first_key MAX_DCPAM_DATA_ACTIONS j item ''name'' = Inr (Some name)"
    "cJSON_GetObjectItem item ''description'' = Some d" "format_of d = Inr (Some description)"
    "cJSON_GetObjectItem item ''type'' = Some t" "cJSON_GetObjectItem item ''internal'' = Some internal"
    "cJSON_GetObjectItem item ''cache_ttl'' = None"
  shows "load_action j item = Inl Null_pointer"
  using assms by (simp add: load_action_def need_def)

section \<open>A slot for every action\<close>

lemma DB_CACHE_init_keeps_length:
  "DB_CACHE_init drv now dst db sql t cs w = Inr (res, dst', cs', w') \<Longrightarrow> length (cs_cache cs') = length (cs_cache cs)"
  by (auto simp: DB_CACHE_init_def Let_def obind_Inr DB_CACHE_add_size_def split: option.splits if_splits)

lemma init_actions_slots:
  "init_actions env dbs owner as (i, cs, w) = Inr (i', cs', w') \<Longrightarrow>
   i' \<le> i + length as \<and> length (cs_cache cs') = length (cs_cache cs)"
proof (induction as arbitrary: i cs w)
  case (Cons a as)
  from Cons.prems obtain i1 cs1 w1 where rest: "init_actions env dbs owner as (i1, cs1, w1) = Inr (i', cs', w')"
    and "i1 \<le> i + 1" "length (cs_cache cs1) = length (cs_cache cs)"
    by (auto simp: obind_Inr split: if_splits option.splits dest!: DB_CACHE_init_keeps_length)
  with Cons.IH [OF rest] show ?case by simp
qed simp

lemma init_data_slots:
  "init_data env dbs ds (i, cs, w) = Inr (i', cs', w') \<Longrightarrow>
   i' \<le> i + sum_list (map (length \<circ> dt_actions) ds) \<and> length (cs_cache cs') = length (cs_cache cs)"
proof (induction ds arbitrary: i cs w)
  case (Cons d ds)
  from Cons.prems obtain i1 cs1 w1 where first: "init_actions env dbs (dt_db_name d) (dt_actions d) (i, cs, w) = Inr (i1, cs1, w1)"
    and rest: "init_data env dbs ds (i1, cs1, w1) = Inr (i', cs', w')" by (auto simp: obind_Inr)
  from init_actions_slots [OF first] Cons.IH [OF rest] show ?case by simp
qed simp

lemma load_wds_slots:
  assumes "load_wds_app heap a cfg = Inr (Some cfg')"
  shows "wc_cache_len cfg' = sum_list (map (length \<circ> dt_actions) (wc_DATA cfg'))"
  using assms by (auto simp: load_wds_app_def pbind_Some obind_Inr)

text \<open>
  C21: the cache has a slot for every action: whenever the initial caching under a loaded configuration
  comes to an action, the next slot to fill is one of those that were allocated, so that \<open>CACHE\<close> is never
  written behind its end.
\<close>

theorem a_slot_for_every_action:
  assumes "DCPAM_WDS_load_configuration parse heap (Some s) cfg0 = Inr (Some cfg)" "parse s \<noteq> None"
    "wc_DATA cfg = ds1 @ d # ds2" "dt_actions d = as1 @ a # as2"
    "init_data env dbs ds1 (0, cs0\<lparr>cs_cache := replicate (wc_cache_len cfg) empty_entry\<rparr>, w0) = Inr (i1, cs1, w1)"
    "init_actions env dbs (dt_db_name d) as1 (i1, cs1, w1) = Inr (i, cs, w)"
  shows "i < length (cs_cache cs)"
proof -
  from assms(1,2) obtain a cfg1 where "load_wds_app heap a cfg0 = Inr (Some cfg1)"
    "wc_DATA cfg = wc_DATA cfg1" "wc_cache_len cfg = wc_cache_len cfg1"
    by (auto simp: DCPAM_WDS_load_configuration_def pbind_Some)
  with load_wds_slots have "wc_cache_len cfg = sum_list (map (length \<circ> dt_actions) (wc_DATA cfg))" by metis
  with assms(3,4) init_data_slots [OF assms(5)] init_actions_slots [OF assms(6)] show ?thesis by simp
qed

section \<open>The components of the LCS\<close>

definition registered :: "json \<Rightarrow> DCPAM_COMPONENT \<Rightarrow> bool" where
  "registered item c \<longleftrightarrow>
     (\<exists>n v i p. component_args item = Inr (n, v, i, p) \<and> co_name c = Some n \<and> co_version c = Some v \<and>
        co_ip c = Some i \<and> co_port c = p \<and> co_active c)"

lemma register_fills:
  assumes "component_args item = Inr (n, v, i, p)"
    "LCS_COMPONENT_register net parse fresh now mem n v i p st w = Some (Inr (ok, c, st', w'))"
  shows "registered item c"
  using assms by (auto simp: LCS_COMPONENT_register_def Let_def registered_def obind_Inr)

lemma load_components_registered:
  "load_components net parse fresh now mem js st w = Some (Inr (cs, st', w')) \<Longrightarrow> list_all2 registered js cs"
proof (induction js arbitrary: cs st w)
  case (Cons item js)
  from Cons.prems obtain n v i p ok c st1 w1 rest where
    a: "component_args item = Inr (n, v, i, p)"
    and r: "LCS_COMPONENT_register net parse fresh now mem n v i p st w = Some (Inr (ok, c, st1, w1))"
    and l: "load_components net parse fresh now mem js st1 w1 = Some (Inr (rest, st', w'))" "cs = c # rest"
    by (auto simp: obind_Inr split: sum.splits option.splits prod.splits)
  from register_fills [OF a r] Cons.IH [OF l(1)] l(2) show ?case by simp
qed simp

lemma check_unreachable:
  assumes "\<And>c ip port w. \<not> fst (NET_CONN_connect net c ip port False w)" "co_ip c = Some ip"
  shows "\<exists>st' w'. LCS_COMPONENT_check net parse fresh c st w = Some (Inr (False, st', w'))"
proof -
  obtain ok x v where i: "NET_CONN_init net fresh ip (co_port c) False w = (ok, x, v)"
    by (cases "NET_CONN_init net fresh ip (co_port c) False w")
  obtain y u where n: "NET_CONN_connect net x ip (co_port c) False v = (False, y, u)"
    using assms(1) [of x ip "co_port c" v] by (cases "NET_CONN_connect net x ip (co_port c) False v") auto
  have d: "\<exists>st' w'. disconnect_times k net z st v = (st', w')" for k z v
    by (cases "disconnect_times k net z st v") auto
  from i n assms(2) d [of 1 x v] d [of 2 y u] show ?thesis
    by (cases ok) (auto simp: LCS_COMPONENT_check_def)
qed

lemma register_unreachable:
  assumes "\<And>c ip port w. \<not> fst (NET_CONN_connect net c ip port False w)"
  shows "\<exists>c st' w'. LCS_COMPONENT_register net parse fresh now mem n v i p st w = Some (Inr (False, c, st', w'))"
proof -
  let ?c = "mem\<lparr>co_port := p, co_name := Some n, co_version := Some v, co_ip := Some i, co_active := True,
    co_actions := [\<lparr>ac_description = ''Component registration.'', ac_timestamp = take 20 now, ac_type = DCT_START\<rparr>]\<rparr>"
  from check_unreachable [OF assms, of ?c i parse fresh st w] obtain st' w' where
    "LCS_COMPONENT_check net parse fresh ?c st w = Some (Inr (False, st', w'))" by auto
  then show ?thesis by (simp add: LCS_COMPONENT_register_def Let_def)
qed

lemma load_components_unreachable:
  assumes "\<And>c ip port w. \<not> fst (NET_CONN_connect net c ip port False w)"
    "\<forall>item \<in> set js. \<exists>args. component_args item = Inr args"
  shows "\<exists>cs st' w'. load_components net parse fresh now mem js st w = Some (Inr (cs, st', w'))"
  using assms(2)
proof (induction js arbitrary: st w)
  case (Cons item js)
  then obtain n v i p where a: "component_args item = Inr (n, v, i, p)" by fastforce
  obtain c st1 w1 where r: "LCS_COMPONENT_register net parse fresh now mem n v i p st w = Some (Inr (False, c, st1, w1))"
    using register_unreachable [OF assms(1)] by blast
  obtain cs st2 w2 where "load_components net parse fresh now mem js st1 w1 = Some (Inr (cs, st2, w2))"
    using Cons by fastforce
  with a r show ?case by simp
qed simp

text \<open>
  Nobody has to be there: when every connection is refused the LCS still starts, contrary to the comment on
  a failed registration, and with every component marked as active until the first pass of the watcher.
\<close>

theorem unreachable_components_are_active:
  assumes "\<And>c ip port w. \<not> fst (NET_CONN_connect net c ip port False w)"
    "parse s = Some config" "lcs_head config = Inr (Some (name, ver, network, comps))"
    "\<forall>item \<in> set comps. \<exists>args. component_args item = Inr args" "load_hosts network = Inr (Some hosts)"
  shows "\<exists>cfg st' w'. DCPAM_LCS_load_configuration net parse fresh now mem (Some s) cfg0 st w = Some (Inr (Some cfg, st', w')) \<and>
    length (lc_components cfg) = length comps \<and> (\<forall>c \<in> set (lc_components cfg). co_active c)"
proof -
  obtain cs st' w' where l: "load_components net parse fresh now mem comps st w = Some (Inr (cs, st', w'))"
    using load_components_unreachable [OF assms(1,4)] by blast
  from load_components_registered [OF l] have "length comps = length cs" "\<forall>c \<in> set cs. co_active c"
    by (auto simp: list_all2_conv_all_nth in_set_conv_nth registered_def)
  with l assms(2,3,5) show ?thesis by (simp add: DCPAM_LCS_load_configuration_def)
qed

section \<open>The files are read as they were written\<close>

definition host_json :: "string \<times> string \<Rightarrow> json" where
  "host_json h = JObject [(''ip'', JString (fst h)), (''key'', JString (snd h))]"

definition host_ok :: "string \<times> string \<Rightarrow> bool" where
  "host_ok h \<longleftrightarrow> no_directive (fst h) \<and> no_directive (snd h)"

lemma host_read: "host_ok h \<Longrightarrow> load_raw_host (host_json h) = Inr (Some (Some (fst h), Some (snd h)))"
  by (simp add: load_raw_host_def host_json_def load_optional_def host_ok_def reads to_lower_def)

lemma each_part_map_to:
  "(\<And>x. x \<in> set xs \<Longrightarrow> f (g x) = Inr (Some (h x))) \<Longrightarrow> each_part f (map g xs) = Inr (Some (map h xs))"
  by (induction xs) simp_all

definition network_json :: "int \<Rightarrow> (string \<times> string) list \<Rightarrow> json" where
  "network_json port hosts = JObject [(''port'', JNumber port), (''allowed_hosts'', JArray (map host_json hosts))]"

definition raw_hosts :: "(string \<times> string) list \<Rightarrow> raw_host list" where
  "raw_hosts hosts = map (\<lambda>h. (Some (fst h), Some (snd h))) hosts"

lemma hosts_read:
  "\<forall>h \<in> set hosts. host_ok h \<Longrightarrow> load_hosts (network_json port hosts) = Inr (Some (raw_hosts hosts))"
  unfolding raw_hosts_def
  by (simp add: load_hosts_def need_def network_json_def load_list_def reads to_lower_def each_part_map_to host_read)

lemma ready_raw_hosts: "ready_hosts (raw_hosts hosts) = Inr hosts"
  by (induction hosts) (simp_all add: raw_hosts_def)

lemma port_read: "load_port (network_json port hosts) = valueint (JNumber port)"
  by (simp add: load_port_def network_json_def reads to_lower_def)

definition rdp_json :: "string \<Rightarrow> string \<Rightarrow> int \<Rightarrow> (string \<times> string) list \<Rightarrow> string \<Rightarrow> json" where
  "rdp_json name ver port hosts address = JObject
     [(''app'', JObject [(''name'', JString name), (''version'', JString ver), (''network'', network_json port hosts)]),
      (''LCS'', JObject [(''address'', JString address)])]"

lemma names_read:
  "no_directive name \<Longrightarrow> no_directive ver \<Longrightarrow>
   load_names (JObject ((''name'', JString name) # (''version'', JString ver) # rest)) = Inr (Some (name, ver))"
  by (simp add: load_names_def need_def reads to_lower_def)

lemma lcs_report_read:
  assumes "no_directive address" "scan_address address = Some (host, port)" "cJSON_GetObjectItem config ''LCS'' =
    Some (JObject [(''address'', JString address)])"
  shows "\<exists>r'. load_lcs_report config r name ver = Inr (Some r') \<and> lr_component r' = Some name \<and>
    lr_version r' = Some ver \<and> lr_lcs_host r' = Some (snprintf_s (length host + 1) host []) \<and> lr_lcs_port r' = port"
  using assms by (simp add: load_lcs_report_def need_def reads to_lower_def LCS_REPORT_init_def Let_def)

text \<open>
  C22: the RDP runs with what its file says: a file written with a name, a version, a port, the hosts with
  their keys and the address of the LCS is loaded, and the worker is started with exactly these hosts and
  keys, on that port, next to the LCS.
\<close>

theorem rdp_runs_as_configured:
  assumes "parse s = Some (rdp_json name ver port hosts address)" "no_directive name" "no_directive ver"
    "\<forall>h \<in> set hosts. host_ok h" "no_directive address" "scan_address address = Some (host, lcs_port)"
    "0 \<le> port" "port < 2 ^ 31"
  shows "rdp_start env ls parse (Some s) cfg rounds st w =
    obind (DCPAM_RDP_worker env ls \<lparr>ra_name = name, ra_version = ver, ra_allowed_hosts = hosts\<rparr>
             (snprintf_s (length host + 1) host []) port rounds st w) (\<lambda>r. Inr (Some r))"
proof -
  let ?c = "rdp_json name ver port hosts address" and ?n = "network_json port hosts"
  have lcs: "cJSON_GetObjectItem ?c ''LCS'' = Some (JObject [(''address'', JString address)])"
    by (simp add: rdp_json_def reads to_lower_def)
  obtain r where r: "load_lcs_report ?c (rc_lcs_report cfg) name ver = Inr (Some r)"
    "lr_lcs_host r = Some (snprintf_s (length host + 1) host [])"
    using lcs_report_read [OF assms(5,6) lcs] by metis
  have "load_port ?n = port" using assms(7,8) by (simp add: port_read valueint_def)
  moreover obtain a where a: "cJSON_GetObjectItem ?c ''app'' = Some a" "load_names a = Inr (Some (name, ver))"
    "cJSON_GetObjectItem a ''network'' = Some ?n"
    using names_read [OF assms(2,3)] by (simp add: rdp_json_def reads to_lower_def)
  ultimately have "DCPAM_RDP_load_configuration parse (Some s) cfg = Inr (Some
      \<lparr>rc_name = Some name, rc_version = Some ver, rc_port = port, rc_hosts = raw_hosts hosts, rc_lcs_report = r\<rparr>)"
    using r(1) assms(1) hosts_read [OF assms(4), of port] by (simp add: DCPAM_RDP_load_configuration_def need_def)
  with r(2) show ?thesis by (simp add: rdp_start_def rdp_app_def ready_raw_hosts the_text_def)
qed

text \<open>The file of the LCS, and what it says of a component: its name, version, address and port.\<close>

definition component_json :: "string \<times> string \<times> string \<times> int \<Rightarrow> json" where
  "component_json c = (case c of (name, ver, ip, port) \<Rightarrow> JObject
     [(''name'', JString name), (''version'', JString ver), (''ip'', JString ip), (''port'', JNumber port)])"

definition lcs_json ::
  "string \<Rightarrow> string \<Rightarrow> int \<Rightarrow> (string \<times> string \<times> string \<times> int) list \<Rightarrow> (string \<times> string) list \<Rightarrow> json" where
  "lcs_json name ver port comps hosts = JObject
     [(''app'', JObject [(''name'', JString name), (''version'', JString ver),
        (''network'', JObject [(''port'', JNumber port), (''required_components'', JArray (map component_json comps)),
           (''allowed_hosts'', JArray (map host_json hosts))])])]"

lemma component_read:
  "- (2 ^ 31) \<le> port \<Longrightarrow> port < 2 ^ 31 \<Longrightarrow> component_args (component_json (name, ver, ip, port)) = Inr (name, ver, ip, port)"
  by (simp add: component_args_def component_json_def valuestring_def valueint_def reads to_lower_def)

lemma lcs_json_read:
  assumes "no_directive name" "no_directive ver" "\<forall>h \<in> set hosts. host_ok h" "0 \<le> port" "port < 2 ^ 31"
  obtains network where "lcs_head (lcs_json name ver port comps hosts) = Inr (Some (name, ver, network, map component_json comps))"
    "load_hosts network = Inr (Some (raw_hosts hosts))" "load_port network = port"
proof -
  let ?n = "JObject [(''port'', JNumber port), (''required_components'', JArray (map component_json comps)),
    (''allowed_hosts'', JArray (map host_json hosts))]"
  have "load_hosts ?n = Inr (Some (raw_hosts hosts))"
    using assms(3) unfolding raw_hosts_def
    by (simp add: load_hosts_def need_def load_list_def reads to_lower_def each_part_map_to host_read)
  moreover have "load_port ?n = port" using assms(4,5) by (simp add: load_port_def reads to_lower_def valueint_def)
  moreover have "lcs_head (lcs_json name ver port comps hosts) = Inr (Some (name, ver, ?n, map component_json comps))"
    using names_read [OF assms(1,2)] by (simp add: lcs_head_def lcs_json_def need_def reads to_lower_def comp_def)
  ultimately show thesis using that by blast
qed

lemma registered_written:
  "\<forall>c \<in> set comps. case c of (name, ver, ip, p) \<Rightarrow> 0 \<le> p \<and> p < 2 ^ 31 \<Longrightarrow>
   list_all2 registered (map component_json comps) cs \<Longrightarrow>
   map (\<lambda>c. (co_name c, co_version c, co_ip c, co_port c, co_active c)) cs =
     map (\<lambda>(name, ver, ip, p). (Some name, Some ver, Some ip, p, True)) comps"
proof (induction comps arbitrary: cs)
  case (Cons c comps)
  from Cons.prems(2) obtain d ds where d: "cs = d # ds" "registered (component_json c) d"
    "list_all2 registered (map component_json comps) ds" by (auto simp: list_all2_Cons1)
  obtain name ver ip p where c: "c = (name, ver, ip, p)" by (cases c) auto
  with Cons.prems(1) have "component_args (component_json c) = Inr (name, ver, ip, p)" by (simp add: component_read)
  with d(2) have "(co_name d, co_version d, co_ip d, co_port d, co_active d) = (Some name, Some ver, Some ip, p, True)"
    by (auto simp: registered_def)
  with Cons.IH [OF _ d(3)] Cons.prems(1) d(1) c show ?case by simp
qed simp

text \<open>
  C39: The LCS registers what is configured: when the loading of a file that was written with a name, a version, a port,
  a list of required components and the hosts with their keys returns, it has succeeded, and there is one entry for every
  component, in the order of the file, marked as active, with the name, version, address and port written there, beside the
  name, version, port and hosts of the LCS itself. Its own name and version and the hosts hold no printf directive; ports
  are not negative and fit an \<open>int\<close>.
\<close>

theorem lcs_registers_all_components:
  assumes "DCPAM_LCS_load_configuration net parse fresh now mem (Some s) cfg0 st w = Some (Inr (loaded, st', w'))"
    "parse s = Some (lcs_json name ver port comps hosts)" "no_directive name" "no_directive ver"
    "\<forall>h \<in> set hosts. host_ok h" "0 \<le> port" "port < 2 ^ 31"
    "\<forall>(n, v, i, p) \<in> set comps. 0 \<le> p \<and> p < 2 ^ 31"
  shows "\<exists>cfg. loaded = Some cfg \<and>
    map (\<lambda>c. (co_name c, co_version c, co_ip c, co_port c, co_active c)) (lc_components cfg) =
      map (\<lambda>(n, v, i, p). (Some n, Some v, Some i, p, True)) comps \<and>
    lc_name cfg = Some name \<and> lc_version cfg = Some ver \<and> lc_port cfg = port \<and>
    lc_hosts cfg = map (\<lambda>(ip, key). (Some ip, Some key)) hosts"
proof -
  obtain network where n: "lcs_head (lcs_json name ver port comps hosts) = Inr (Some (name, ver, network, map component_json comps))"
    "load_hosts network = Inr (Some (raw_hosts hosts))" "load_port network = port"
    using lcs_json_read [OF assms(3-7)] by blast
  with assms(1,2) obtain cs where l: "load_components net parse fresh now mem (map component_json comps) st w = Some (Inr (cs, st', w'))"
    "loaded = Some \<lparr>lc_name = Some name, lc_version = Some ver, lc_port = port, lc_components = cs, lc_hosts = raw_hosts hosts\<rparr>"
    by (auto simp: DCPAM_LCS_load_configuration_def obind_Inr)
  from registered_written [OF _ load_components_registered [OF l(1)]] assms(8) l(2) show ?thesis
    by (auto simp: raw_hosts_def)
qed

definition action_json_of :: "DCPAM_DATA_ACTION \<Rightarrow> json" where
  "action_json_of a = JObject
     [(''name'', JString (the_text (da_name a))), (''description'', JString (the_text (da_description a))),
      (''type'', JNumber (da_type a)), (''internal'', JNumber (da_internal a)),
      (''condition'', JString (the_text (da_condition a))), (''cache_ttl'', JNumber (da_cache_ttl a)),
      (''sql'', JString (da_sql a))]"

definition int_ok :: "int \<Rightarrow> bool" where
  "int_ok i \<longleftrightarrow> - (2 ^ 31) \<le> i \<and> i < 2 ^ 31"

definition plain_text :: "string option \<Rightarrow> bool" where
  "plain_text t \<longleftrightarrow> (\<exists>s. t = Some s \<and> no_directive s)"

definition action_ok :: "DCPAM_DATA_ACTION \<Rightarrow> bool" where
  "action_ok a \<longleftrightarrow> plain_text (da_name a) \<and> plain_text (da_description a) \<and> plain_text (da_condition a) \<and>
     int_ok (da_type a) \<and> - (2 ^ 15) \<le> da_internal a \<and> da_internal a < 2 ^ 15 \<and> int_ok (da_cache_ttl a)"

lemma valueint_read: "int_ok i \<Longrightarrow> valueint (JNumber i) = i"
  by (simp add: valueint_def int_ok_def)

lemma first_key_read:
  "i < cap \<Longrightarrow> no_directive s \<Longrightarrow> cJSON_GetObjectItem item key = Some (JString s) \<Longrightarrow>
   first_key cap i item key = Inr (Some s)"
  by (simp add: first_key_def need_def reads)

lemma short_of_short: "- (2 ^ 15) \<le> i \<Longrightarrow> i < 2 ^ 15 \<Longrightarrow> short_of i = i"
  by (simp add: short_of_def signed_of_int signed_take_bit_int_eq_self)

lemma action_read:
  assumes "action_ok a" "j < MAX_DCPAM_DATA_ACTIONS"
  shows "load_action j (action_json_of a) = Inr (Some a)"
proof -
  from assms(1) obtain n d c where t: "da_name a = Some n" "da_description a = Some d" "da_condition a = Some c"
    "no_directive n" "no_directive d" "no_directive c" by (auto simp: action_ok_def plain_text_def)
  have v: "valueint (JNumber (da_type a)) = da_type a" "valueint (JNumber (da_cache_ttl a)) = da_cache_ttl a"
    "short_of (valueint (JNumber (da_internal a))) = da_internal a"
    using assms(1) by (simp_all add: valueint_read action_ok_def short_of_short int_ok_def)
  have "first_key MAX_DCPAM_DATA_ACTIONS j (action_json_of a) ''name'' = Inr (Some n)"
    using assms(2) t by (intro first_key_read) (simp_all add: action_json_of_def reads to_lower_def the_text_def)
  with t v show ?thesis
    by (simp add: load_action_def need_def action_json_of_def reads to_lower_def the_text_def)
qed

lemma each_at_map:
  "(\<And>x j. x \<in> set xs \<Longrightarrow> j < k \<Longrightarrow> f j (g x) = Inr (Some x)) \<Longrightarrow> i + length xs \<le> k \<Longrightarrow>
   each_at f i (map g xs) = Inr (Some xs)"
  by (induction xs arbitrary: i) simp_all

definition data_json_of :: "DCPAM_DATA \<Rightarrow> json" where
  "data_json_of d = JObject
     [(''id'', JString (the_text (dt_id d))), (''name'', JString (the_text (dt_name d))),
      (''db_name'', JString (dt_db_name d)), (''db_table_name'', JString (dt_db_table_name d)),
      (''columns'', jtexts (dt_columns d)), (''description'', JString (the_text (dt_description d))),
      (''actions'', JArray (map action_json_of (dt_actions d)))]"

definition data_ok :: "DCPAM_DATA \<Rightarrow> bool" where
  "data_ok d \<longleftrightarrow> plain_text (dt_id d) \<and> plain_text (dt_name d) \<and> plain_text (dt_description d) \<and>
     no_directive (dt_db_name d) \<and> no_directive (dt_db_table_name d) \<and> length (dt_db_table_name d) < MAX_TABLE_NAME_LEN \<and>
     values_ok (dt_columns d) \<and> (\<forall>a \<in> set (dt_actions d). action_ok a) \<and> length (dt_actions d) \<le> MAX_DCPAM_DATA_ACTIONS"

lemma columns_read:
  assumes "values_ok cs"
  shows "load_columns (jtexts cs) = Inr (Some cs)"
proof -
  have "map (take (MAX_COLUMN_NAME_LEN - 1)) cs = cs"
    by (rule map_idI) (use assms in \<open>auto simp: values_ok_def MAX_COLUMN_NAME_LEN_def\<close>)
  with assms show ?thesis by (simp add: load_columns_def values_ok_def reads)
qed

lemma wds_data_round_trip_at:
  assumes "data_ok d"
  shows "load_data_item i (data_json_of d) = (if i < MAX_DCPAM_DATA_ITEMS then Inr (Some d) else Inl Out_of_bounds)"
proof -
  from assms obtain k n e where t: "dt_id d = Some k" "dt_name d = Some n" "dt_description d = Some e"
    "no_directive k" "no_directive n" "no_directive e" by (auto simp: data_ok_def plain_text_def)
  have "first_key MAX_DCPAM_DATA_ITEMS i (data_json_of d) ''id'' =
      (if i < MAX_DCPAM_DATA_ITEMS then Inr (Some k) else Inl Out_of_bounds)"
    using t by (simp add: first_key_def need_def data_json_of_def reads to_lower_def the_text_def)
  moreover have "load_table (JString (dt_db_table_name d)) = Inr (Some (dt_db_table_name d))"
    using assms by (auto simp: load_table_def data_ok_def reads)
  moreover have "load_columns (jtexts (dt_columns d)) = Inr (Some (dt_columns d))"
    using assms by (simp add: columns_read data_ok_def)
  moreover have "each_at load_action 0 (map action_json_of (dt_actions d)) = Inr (Some (dt_actions d))"
    using assms by (intro each_at_map [where k = MAX_DCPAM_DATA_ACTIONS]) (auto simp: action_read data_ok_def)
  ultimately show ?thesis
    using t assms by (simp add: load_data_item_def need_def data_json_of_def data_ok_def reads to_lower_def the_text_def)
qed

lemma each_at_bounded:
  assumes "\<And>x j. x \<in> set xs \<Longrightarrow> f j (g x) = (if j < k then Inr (Some x) else Inl Out_of_bounds)"
  shows "i \<le> k \<Longrightarrow> each_at f i (map g xs) = (if i + length xs \<le> k then Inr (Some xs) else Inl Out_of_bounds)"
  using assms
proof (induction xs arbitrary: i)
  case (Cons x xs)
  show ?case
  proof (cases "i < k")
    case True
    with Cons.prems(2) Cons.IH [of "Suc i"] show ?thesis by (auto simp: Suc_le_eq)
  next
    case False
    with Cons.prems show ?thesis by simp
  qed
qed simp

text \<open>
  C37: the data of the web service is read back: items of \<open>DATA\<close> with at most 32 columns and eight actions,
  whose texts hold no directive of a format, are loaded as they were written when there are at most five;
  with more the sixth is written behind the array.
\<close>

theorem wds_data_round_trip:
  assumes "\<forall>d \<in> set ds. data_ok d"
  shows "each_at load_data_item 0 (map data_json_of ds) =
    (if length ds \<le> MAX_DCPAM_DATA_ITEMS then Inr (Some ds) else Inl Out_of_bounds)"
proof -
  have "load_data_item j (data_json_of d) = (if j < MAX_DCPAM_DATA_ITEMS then Inr (Some d) else Inl Out_of_bounds)"
    if "d \<in> set ds" for d j
    using assms that by (blast intro: wds_data_round_trip_at)
  from each_at_bounded [of ds load_data_item data_json_of, OF this, of 0] show ?thesis by simp
qed

section \<open>Concrete files\<close>

theorem memory_limit_in_bytes_witness:
  "(\<exists>limit. load_memory (JString ''5MB'') = Inr (Some (1048576, limit)) \<and> unat limit = 5242880) \<and>
   load_memory (JString ''1TB'') = Inl Division_by_zero"
proof -
  have "show_nat 5 = ''5''" "show_nat 1 = ''1''" by code_simp+
  then show ?thesis
    using memory_limit_in_bytes [of 5 "''MB''"] memory_limit_in_bytes [of 1 "''TB''"] by (simp add: multiplier_values)
qed

definition demo_data_action :: DCPAM_DATA_ACTION where
  "demo_data_action =
     \<lparr>da_name = Some ''GET_DATA'', da_description = Some ''rows'', da_type = 1, da_internal = 0, da_condition = Some ''id'',
      da_cache_ttl = 3600, da_sql = ''SELECT a FROM t''\<rparr>"

definition demo_data :: DCPAM_DATA where
  "demo_data =
     \<lparr>dt_id = Some ''T'', dt_name = Some ''times'', dt_db_name = ''dw'', dt_db_table_name = ''t'', dt_columns = [''a''],
      dt_description = Some ''all'', dt_actions = [demo_data_action, demo_data_action\<lparr>da_condition := Some []\<rparr>]\<rparr>"

lemma demo_data_ok: "data_ok demo_data"
  by (simp add: data_ok_def demo_data_def demo_data_action_def plain_text_def no_directive_def action_ok_def int_ok_def
      values_ok_def MAX_TABLE_NAME_LEN_def MAX_DCPAM_DATA_ACTIONS_def MAX_ETL_COLUMNS_def MAX_COLUMN_NAME_LEN_def)

theorem wds_data_round_trip_witness:
  "each_at load_data_item 0 (map data_json_of [demo_data, demo_data]) = Inr (Some [demo_data, demo_data]) \<and>
   each_at load_data_item 0 (map data_json_of (replicate 6 demo_data)) = Inl Out_of_bounds"
  using wds_data_round_trip [of "[demo_data, demo_data]"] wds_data_round_trip [of "replicate 6 demo_data"] demo_data_ok
  by (simp add: MAX_DCPAM_DATA_ITEMS_def)

definition ttl_less_action :: json where
  "ttl_less_action = JObject
     [(''name'', JString ''GET_DATA''), (''description'', JString ''rows''), (''type'', JNumber 1), (''internal'', JNumber 0),
      (''condition'', JString ''''), (''sql'', JString ''SELECT 1'')]"

theorem missing_cache_ttl_crashes_witness: "load_action 0 ttl_less_action = Inl Null_pointer"
  by (rule missing_cache_ttl_crashes [of 0 ttl_less_action "''GET_DATA''" "JString ''rows''" "''rows''" "JNumber 1" "JNumber 0"])
    (simp_all add: ttl_less_action_def first_key_def need_def reads to_lower_def no_directive_def MAX_DCPAM_DATA_ACTIONS_def)

definition wds_app_json :: "json \<Rightarrow> json \<Rightarrow> json" where
  "wds_app_json network data = JObject
     [(''name'', JString ''WDS''), (''version'', JString ''1''), (''network'', network), (''DB'', JArray []), (''DATA'', data)]"

lemma wds_app_keys:
  "cJSON_GetObjectItem (wds_app_json network data) ''network'' = Some network"
  "cJSON_GetObjectItem (wds_app_json network data) ''max_memory'' = None"
  "cJSON_GetObjectItem (wds_app_json network data) ''WDS'' = None"
  "cJSON_GetObjectItem (wds_app_json network data) ''DB'' = Some (JArray [])"
  "cJSON_GetObjectItem (wds_app_json network data) ''DATA'' = Some data"
  "load_names (wds_app_json network data) = Inr (Some (''WDS'', ''1''))"
  by code_simp+

lemma file_keys:
  "cJSON_GetObjectItem (JObject [(''app'', a), (''LCS'', l)]) ''app'' = Some a"
  "cJSON_GetObjectItem (JObject [(''app'', a), (''LCS'', l)]) ''LCS'' = Some l"
  by code_simp+

definition demo_wds_json :: json where
  "demo_wds_json = JObject
     [(''app'', wds_app_json (network_json 8880 [(''10.0.0.1'', ''k'')]) (JArray [data_json_of demo_data])),
      (''LCS'', JObject [(''address'', JString ''dcpam://10.0.0.9:9090'')])]"

definition zero_wds :: WDS_CONFIG where
  "zero_wds =
     \<lparr>wc_name = None, wc_version = None, wc_port = 0, wc_hosts = [], wc_multiplier = 0, wc_max_size = 0, wc_nodes = [],
      wc_DB = [], wc_DATA = [], wc_cache_len = 0, wc_lcs_report = demo_report\<rparr>"

lemma demo_address:
  "scan_address ''dcpam://10.0.0.9:9090'' = Some (''10.0.0.9'', 9090)" "no_directive ''dcpam://10.0.0.9:9090''"
  by code_simp+

lemma demo_wds_loaded:
  "\<exists>cfg. DCPAM_WDS_load_configuration (\<lambda>_. Some demo_wds_json) heap (Some s) zero_wds = Inr (Some cfg) \<and> wc_DATA cfg = [demo_data]"
proof -
  let ?n = "network_json 8880 [(''10.0.0.1'', ''k'')]"
  have keys: "cJSON_GetObjectItem demo_wds_json ''LCS'' = Some (JObject [(''address'', JString ''dcpam://10.0.0.9:9090'')])"
    "cJSON_GetObjectItem demo_wds_json ''app'' = Some (wds_app_json ?n (JArray [data_json_of demo_data]))"
    by (simp_all add: demo_wds_json_def file_keys)
  obtain r where "load_lcs_report demo_wds_json demo_report ''WDS'' ''1'' = Inr (Some r)"
    using lcs_report_read [OF demo_address(2,1) keys(1)] by metis
  moreover have "load_hosts ?n = Inr (Some (raw_hosts [(''10.0.0.1'', ''k'')]))"
    by (rule hosts_read) (simp add: host_ok_def no_directive_def)
  ultimately show ?thesis
    using wds_data_round_trip_at [OF demo_data_ok, of 0] keys(2)
    by (simp add: DCPAM_WDS_load_configuration_def load_wds_app_def wds_app_keys need_def load_limit_def load_nodes_def
        zero_wds_def reads the_text_def MAX_DCPAM_DATA_ITEMS_def)
qed

theorem a_slot_for_every_action_witness:
  "\<exists>i cs w. init_actions (demo_wds_env demo_request) [] ''dw'' [demo_data_action]
     (0, demo_cache\<lparr>cs_cache := [empty_entry, empty_entry]\<rparr>, []) = Inr (i, cs, w) \<and> i < length (cs_cache cs)"
proof -
  obtain cfg where c: "DCPAM_WDS_load_configuration (\<lambda>_. Some demo_wds_json) (\<lambda>_. zero_db) (Some ''x'') zero_wds = Inr (Some cfg)"
    "wc_DATA cfg = [demo_data]" using demo_wds_loaded by blast
  let ?c0 = "demo_cache\<lparr>cs_cache := replicate (wc_cache_len cfg) empty_entry\<rparr>"
  have "wc_cache_len cfg = 2"
    using c load_wds_slots by (auto simp: DCPAM_WDS_load_configuration_def pbind_Some demo_data_def)
  moreover have "0 < length (cs_cache ?c0)"
    by (rule a_slot_for_every_action [OF c(1), of "[]" demo_data "[]" "[demo_data_action]" "demo_data_action\<lparr>da_condition := Some []\<rparr>" "[]"
        "demo_wds_env demo_request" "[]" demo_cache "[]" 0 ?c0 "[]" 0 ?c0 "[]"])
      (use c(2) in \<open>simp_all add: demo_data_def demo_data_action_def\<close>)
  ultimately show ?thesis
    by (simp add: demo_data_action_def numeral_2_eq_2)
qed

definition demo_lcs_json :: json where
  "demo_lcs_json = lcs_json ''LCS'' ''1'' 9090 [(''ETL'', ''2'', ''10.0.0.2'', 9091), (''WDS'', ''3'', ''10.0.0.3'', 9092)] [(''10.0.0.1'', ''k'')]"

definition zero_lcs :: LCS_CONFIG where
  "zero_lcs = \<lparr>lc_name = None, lc_version = None, lc_port = 0, lc_components = [], lc_hosts = []\<rparr>"

lemma demo_lcs_parts:
  obtains network items where "lcs_head demo_lcs_json = Inr (Some (''LCS'', ''1'', network, items))" "length items = 2"
    "load_hosts network = Inr (Some (raw_hosts [(''10.0.0.1'', ''k'')]))" "\<forall>item \<in> set items. \<exists>args. component_args item = Inr args"
proof -
  let ?comps = "[(''ETL'', ''2'', ''10.0.0.2'', 9091), (''WDS'', ''3'', ''10.0.0.3'', 9092)]"
  obtain network where n: "lcs_head demo_lcs_json = Inr (Some (''LCS'', ''1'', network, map component_json ?comps))"
    "load_hosts network = Inr (Some (raw_hosts [(''10.0.0.1'', ''k'')]))"
    using lcs_json_read [of "''LCS''" "''1''" "[(''10.0.0.1'', ''k'')]" 9090 ?comps]
    by (simp add: demo_lcs_json_def no_directive_def host_ok_def) blast
  show thesis by (rule that [OF n(1) _ n(2)]) (simp_all add: component_read)
qed

lemma demo_net_refuses: "\<not> fst (NET_CONN_connect (demo_net False) c ip port False w)"
  by (simp add: NET_CONN_connect_def demo_net_def Let_def split: prod.splits)

theorem unreachable_components_are_active_witness:
  "\<exists>cfg st' w'. DCPAM_LCS_load_configuration (demo_net False) (\<lambda>_. Some demo_lcs_json) demo_conn ''now'' demo_component (Some ''x'')
     zero_lcs demo_sock ([], []) = Some (Inr (Some cfg, st', w')) \<and> length (lc_components cfg) = 2 \<and>
     (\<forall>c \<in> set (lc_components cfg). co_active c)"
proof -
  obtain network items where n: "lcs_head demo_lcs_json = Inr (Some (''LCS'', ''1'', network, items))" "length items = 2"
    "load_hosts network = Inr (Some (raw_hosts [(''10.0.0.1'', ''k'')]))" "\<forall>item \<in> set items. \<exists>args. component_args item = Inr args"
    using demo_lcs_parts by blast
  show ?thesis
    using unreachable_components_are_active [OF demo_net_refuses _ n(1,4,3), of "\<lambda>_. Some demo_lcs_json" "''x''" demo_conn
        "''now''" demo_component zero_lcs demo_sock "([], [])"] n(2)
    by simp
qed

theorem lcs_registers_all_components_witness:
  "\<exists>cfg st' w'. DCPAM_LCS_load_configuration (demo_net False) (\<lambda>_. Some demo_lcs_json) demo_conn ''now'' demo_component (Some ''x'')
     zero_lcs demo_sock ([], []) = Some (Inr (Some cfg, st', w')) \<and>
     map (\<lambda>c. (co_name c, co_version c, co_ip c, co_port c, co_active c)) (lc_components cfg) =
       [(Some ''ETL'', Some ''2'', Some ''10.0.0.2'', 9091, True), (Some ''WDS'', Some ''3'', Some ''10.0.0.3'', 9092, True)] \<and>
     lc_port cfg = 9090"
proof -
  obtain network items where n: "lcs_head demo_lcs_json = Inr (Some (''LCS'', ''1'', network, items))"
    "load_hosts network = Inr (Some (raw_hosts [(''10.0.0.1'', ''k'')]))" "\<forall>item \<in> set items. \<exists>args. component_args item = Inr args"
    by (rule demo_lcs_parts) blast
  obtain cs st' w' where "load_components (demo_net False) (\<lambda>_. Some demo_lcs_json) demo_conn ''now'' demo_component items
      demo_sock ([], []) = Some (Inr (cs, st', w'))"
    using load_components_unreachable [OF demo_net_refuses n(3)] by blast
  then obtain cfg where l: "DCPAM_LCS_load_configuration (demo_net False) (\<lambda>_. Some demo_lcs_json) demo_conn ''now'' demo_component
      (Some ''x'') zero_lcs demo_sock ([], []) = Some (Inr (Some cfg, st', w'))"
    using n by (auto simp: DCPAM_LCS_load_configuration_def simp del: split_paired_Ex)
  have p: "(\<lambda>_. Some demo_lcs_json) ''x'' = Some (lcs_json ''LCS'' ''1'' 9090
      [(''ETL'', ''2'', ''10.0.0.2'', 9091), (''WDS'', ''3'', ''10.0.0.3'', 9092)] [(''10.0.0.1'', ''k'')])"
    by (simp add: demo_lcs_json_def)
  have "no_directive ''LCS''" "no_directive ''1''" "\<forall>h \<in> set [(''10.0.0.1'', ''k'')]. host_ok h"
    by (simp_all add: no_directive_def host_ok_def)
  from lcs_registers_all_components [OF l p this] have
    "map (\<lambda>c. (co_name c, co_version c, co_ip c, co_port c, co_active c)) (lc_components cfg) =
       [(Some ''ETL'', Some ''2'', Some ''10.0.0.2'', 9091, True), (Some ''WDS'', Some ''3'', Some ''10.0.0.3'', 9092, True)] \<and>
     lc_port cfg = 9090" by simp
  then show ?thesis by (intro exI conjI) (rule l, simp_all)
qed

definition zero_rdp :: RDP_CONFIG where
  "zero_rdp = \<lparr>rc_name = None, rc_version = None, rc_port = 0, rc_hosts = [], rc_lcs_report = demo_report\<rparr>"

theorem rdp_runs_as_configured_witness:
  "rdp_start demo_rdp_env demo_listen (\<lambda>_. Some (rdp_json ''RDP'' ''1'' 9092 [(''10.0.0.1'', ''k'')] ''dcpam://10.0.0.9:9090''))
     (Some ''x'') zero_rdp 1 demo_sock [] =
   obind (DCPAM_RDP_worker demo_rdp_env demo_listen demo_rdp ''10.0.0.9'' 9092 1 demo_sock []) (\<lambda>r. Inr (Some r))"
proof -
  have "snprintf_s (length ''10.0.0.9'' + 1) ''10.0.0.9'' [] = ''10.0.0.9''" by code_simp
  moreover have "no_directive ''RDP''" "no_directive ''1''" "\<forall>h \<in> set [(''10.0.0.1'', ''k'')]. host_ok h"
    by (simp_all add: no_directive_def host_ok_def)
  ultimately show ?thesis
    using rdp_runs_as_configured [of "\<lambda>_. Some (rdp_json ''RDP'' ''1'' 9092 [(''10.0.0.1'', ''k'')] ''dcpam://10.0.0.9:9090'')" "''x''"
        "''RDP''" "''1''" 9092 "[(''10.0.0.1'', ''k'')]", OF refl _ _ _ demo_address(2,1)]
    by (simp add: demo_rdp_def)
qed

end
