(* ===== verification/Lcs_Reports.thy ===== *)
theory Lcs_Reports
  imports Server_Config
begin

text \<open>
  The two sides of a report: \<open>LCS_REPORT_send\<close> (\<open>src/core/lcs_report.c\<close>), with which every component announces
  what it does, and the server loop of the LCS with its listener (\<open>src/core/network/socket_io.c\<close>,
  \<open>src/DCPAM_LCS/dcpam-lcs.c\<close>), which writes it to the log of the component.
\<close>



lemma type_text_stop [simp]: "(if type_text t = ''stop'' then DCT_STOP else DCT_START) = t"
  by (cases t) (simp_all add: type_text_def)





section \<open>A history of reports\<close>










text \<open>The sender sees its report succeed when the answer of the LCS comes back.\<close>

lemma report_is_acknowledged:
  assumes "NET_CONN_init net (lr_conn r) (the_text (lr_lcs_host r)) (lr_lcs_port r) False v = (True, c1, v1)"
    "NET_CONN_connect net c1 (the_text (lr_lcs_host r)) (lr_lcs_port r) False v1 = (True, c2, v2)"
    "nc_initialized c2" "nc_connected c2"
    "net_send net (nc_cSSL c2) (nc_socket c2) (report_bytes r action t) v2 = (True, v3)"
    "delivers net (nc_cSSL c2) (nc_socket c2) [''1''] v3 v4"
  shows "\<exists>r' u' v'. LCS_REPORT_send net r action t u v = Some (True, r', u', v')"
proof -
  from NET_CONN_send_full [OF assms(3-6)] obtain c3 where "NET_CONN_send net c2 (report_bytes r action t) v2 = Some (True, c3, v4)"
    by auto
  with assms(1,2) show ?thesis by (auto simp: LCS_REPORT_send_def Let_def split: prod.splits)
qed

section \<open>Concrete reports\<close>






end
