(* ===== verification/Log_Buffer.thy ===== *)
theory Log_Buffer
  imports C_Strings
begin

text \<open>
  \<open>src/utils/log.c\<close>: the log object. Its state is the text buffer (65535 bytes at every call of
  \<open>LOG_init\<close>) and what its file holds on disk. The time stamps, the formatting of a message and the
  result of \<open>fopen\<close> are arguments, the calls about directories, with \<open>get_app_path\<close> and \<open>directory_exists\<close> of
  \<open>src/utils/filesystem.c\<close> over them, a parameter; the echo to standard output is not kept.
\<close>

definition BUFFER_SIZE :: nat where "BUFFER_SIZE = 32768"
definition FORMATTED_TEXT_LEN :: nat where "FORMATTED_TEXT_LEN = 1024"
definition LARGE_BUFF_SIZE :: nat where "LARGE_BUFF_SIZE = 8192"

record LOG_OBJECT =
  log_filename :: string
  log_buffer :: "char list"
  log_disk :: string

definition MAX_PATH_LENGTH :: nat where "MAX_PATH_LENGTH = 2048"
definition LOGS_PATH :: string where "LOGS_PATH = ''/''"

definition memset0 :: "char list \<Rightarrow> nat \<Rightarrow> char list" where
  "memset0 buf n = replicate (min n (length buf)) NUL @ drop n buf"

text \<open>
  \<open>LOG_print\<close>: \<open>text\<close> is the whole formatted message, of which \<open>vsnprintf\<close> keeps 1023 characters.
  The flush branch is as in the code: with more than \<open>BUFFER_SIZE\<close> characters the copy of the
  remainder into a buffer of exactly that many bytes writes one byte too many.
\<close>

definition LOG_print :: "bool \<Rightarrow> LOG_OBJECT \<Rightarrow> string \<Rightarrow> LOG_OBJECT outcome" where
  "LOG_print fopen_ok log text =
     (let output_text = take (FORMATTED_TEXT_LEN - 1) text in
      case strlcat (log_buffer log) output_text BUFFER_SIZE of
        None \<Rightarrow> Inl Out_of_bounds
      | Some (buf, _) \<Rightarrow>
          (let buf_len = length (cstr_of buf) in
           if BUFFER_SIZE \<le> buf_len
           then if BUFFER_SIZE < buf_len
             then Inl Out_of_bounds
             else Inr (log\<lparr>log_buffer := memset0 buf BUFFER_SIZE,
                           log_disk := (if fopen_ok then log_disk log @ take BUFFER_SIZE buf
                                        else log_disk log)\<rparr>)
           else Inr (log\<lparr>log_buffer := buf\<rparr>)))"

text \<open>\<open>LOG_save\<close>: \<open>None\<close> is \<open>exit(EXIT_FAILURE)\<close>. Only the first 8192 bytes are cleared.\<close>

definition LOG_save :: "bool \<Rightarrow> LOG_OBJECT \<Rightarrow> LOG_OBJECT option" where
  "LOG_save fopen_ok log =
     (if fopen_ok
      then Some (log\<lparr>log_disk := log_disk log @ cstr_of (log_buffer log),
                     log_buffer := memset0 (log_buffer log) LARGE_BUFF_SIZE\<rparr>)
      else None)"

text \<open>\<open>pre\<close> is the \<open>prefix\<close> argument; a NULL one is printed by the C library as \<open>(null)\<close>.\<close>

definition LOG_prepare ::
  "string \<Rightarrow> LOG_OBJECT \<Rightarrow> string option \<Rightarrow> string \<Rightarrow> LOG_OBJECT outcome" where
  "LOG_prepare time log pre app_path =
     LOG_print True
       (log\<lparr>log_filename := snprintf_s MAX_PATH_LENGTH ''%s%s%s-log.txt''
              [app_path, LOGS_PATH, case pre of Some p \<Rightarrow> p | None \<Rightarrow> ''dcpam'']\<rparr>)
       (sfmt ([NL] @ ''[%s] Session start: %s.'' @ [NL])
          [time, case pre of Some p \<Rightarrow> p | None \<Rightarrow> ''(null)''])"

section \<open>The working directory\<close>

text \<open>\<open>getcwd\<close> into a buffer of a size, \<open>chdir\<close> and \<open>mkdir\<close>.\<close>

record 'w dirs =
  dr_getcwd :: "nat \<Rightarrow> 'w \<Rightarrow> string option"
  dr_chdir :: "string \<Rightarrow> 'w \<Rightarrow> bool \<times> 'w"
  dr_mkdir :: "string \<Rightarrow> 'w \<Rightarrow> bool \<times> 'w"

text \<open>The size given to \<open>strlcat\<close> is what is left in the buffer, not the size of the buffer.\<close>

definition get_app_path :: "'w dirs \<Rightarrow> 'w \<Rightarrow> string outcome" where
  "get_app_path fs w =
     (case dr_getcwd fs MAX_PATH_LENGTH w of
        None \<Rightarrow> Inr []
      | Some path \<Rightarrow>
          (case strlcat (path @ replicate (MAX_PATH_LENGTH - length path) NUL) [] (MAX_PATH_LENGTH - length path) of
             None \<Rightarrow> Inl Out_of_bounds
           | Some (buf, _) \<Rightarrow> Inr (cstr_of buf)))"

text \<open>The test for a directory goes into it.\<close>

definition directory_exists :: "'w dirs \<Rightarrow> string \<Rightarrow> 'w \<Rightarrow> bool \<times> 'w" where
  "directory_exists fs path w = dr_chdir fs path w"

lemma get_app_path_cwd:
  assumes "dr_getcwd fs MAX_PATH_LENGTH w = Some path" "cstring path" "length path < MAX_PATH_LENGTH"
  shows "get_app_path fs w = Inr path"
proof -
  let ?n = "MAX_PATH_LENGTH - length path"
  from assms(3) obtain k where k: "?n = Suc k" by (metis Suc_diff_Suc)
  have buf: "path @ replicate ?n NUL = path @ NUL # replicate k NUL" by (simp add: k)
  show ?thesis
  proof (cases "?n \<le> length path")
    case True
    then have scan: "strlcat_scan ?n (path @ NUL # replicate k NUL) = ?n"
      unfolding strlcat_scan_string [OF assms(2)] by (rule min_absorb1)
    have "strlcat (path @ NUL # replicate k NUL) [] ?n = Some (path @ NUL # replicate k NUL, ?n)"
      unfolding strlcat_def scan Let_def by simp
    with assms show ?thesis by (simp add: get_app_path_def buf)
  next
    case False
    with strlcat_eq [of path "[]" ?n "replicate k NUL"] assms(2) k obtain b where
      "strlcat (path @ NUL # replicate k NUL) [] ?n = Some (b, length path)" "cstr_of b = path"
      by (auto simp: cstring_def)
    with assms(1) show ?thesis by (simp add: get_app_path_def buf)
  qed
qed

section \<open>The start of a log\<close>

definition LOG_validate_paths ::
  "'w dirs \<Rightarrow> string \<Rightarrow> LOG_OBJECT \<Rightarrow> string option \<Rightarrow> string \<Rightarrow> 'w \<Rightarrow> (LOG_OBJECT \<times> 'w) outcome" where
  "LOG_validate_paths fs time log pre app_path w =
     (let log_path = snprintf_s MAX_PATH_LENGTH ''%s%s'' [app_path, LOGS_PATH] in
      case directory_exists fs log_path w of
        (True, w) \<Rightarrow> obind (LOG_prepare time log pre app_path) (\<lambda>log. Inr (log, w))
      | (False, w) \<Rightarrow>
          (case dr_mkdir fs log_path w of
             (made, w) \<Rightarrow>
               obind (if made then Inr log else LOG_print True log (''Error creating path!'' @ [NL])) (\<lambda>log.
                 case dr_chdir fs app_path w of
                   (True, w) \<Rightarrow> obind (LOG_prepare time log pre app_path) (\<lambda>log. Inr (log, w))
                 | (False, w) \<Rightarrow> obind (LOG_print True log (''Error: chdir().'' @ [NL])) (\<lambda>log. Inr (log, w)))))"

text \<open>The path is copied as a format without arguments.\<close>

definition LOG_init ::
  "'w dirs \<Rightarrow> bool \<Rightarrow> string \<Rightarrow> string option \<Rightarrow> nat \<Rightarrow> 'w \<Rightarrow> (LOG_OBJECT option \<times> 'w) outcome" where
  "LOG_init fs fopen_ok time pre buffer_size w =
     obind (get_app_path fs w) (\<lambda>path.
       let app_path = snprintf_s MAX_PATH_LENGTH path [] in
       obind (LOG_validate_paths fs time
                \<lparr>log_filename = [], log_buffer = replicate buffer_size NUL, log_disk = []\<rparr> pre app_path w)
         (\<lambda>(log, w). obind (LOG_print True log
                         (sfmt (''[%s] Start path: '' @ [DQ] @ ''%s'' @ [DQ] @ ''.'' @ [NL]) [time, app_path]))
            (\<lambda>log. Inr (LOG_save fopen_ok log, w))))"

text \<open>
  \<open>LOG_free\<close> releases the buffer; a released one has no byte here. A message printed afterwards is copied through
  a NULL pointer.
\<close>

definition LOG_free :: "LOG_OBJECT \<Rightarrow> LOG_OBJECT" where
  "LOG_free log = log\<lparr>log_buffer := []\<rparr>"

lemma print_after_free: "LOG_print fo (LOG_free log) text = Inl Out_of_bounds"
proof -
  have scan: "strlcat_scan n [] = 0" for n by (cases n) simp_all
  have "strlcat_loop n [] 0 s = Some (buf, k) \<Longrightarrow> buf = []" for n s buf k
    by (induction s) (auto simp: poke_def split: if_splits)
  then have "strlcat [] s BUFFER_SIZE = None" for s
    by (fastforce simp: strlcat_def scan BUFFER_SIZE_def poke_def split: option.split)
  then show ?thesis by (simp add: LOG_print_def LOG_free_def)
qed

text \<open>A sequence of messages written to one log.\<close>

fun LOG_print_all :: "bool \<Rightarrow> LOG_OBJECT \<Rightarrow> string list \<Rightarrow> LOG_OBJECT outcome" where
  "LOG_print_all fo log [] = Inr log"
| "LOG_print_all fo log (t # ts) = obind (LOG_print fo log t) (\<lambda>log. LOG_print_all fo log ts)"

text \<open>Well-formed: the buffer is larger than \<open>BUFFER_SIZE\<close> and its text ends before that offset.\<close>

definition log_ok :: "LOG_OBJECT \<Rightarrow> bool" where
  "log_ok log \<longleftrightarrow> BUFFER_SIZE \<le> length (log_buffer log) \<and> length (cstr_of (log_buffer log)) < BUFFER_SIZE"

abbreviation log_text :: "LOG_OBJECT \<Rightarrow> string" where
  "log_text log \<equiv> cstr_of (log_buffer log)"

lemma LOG_print_result:
  assumes "log_ok log" "cstring text"
  shows "\<exists>buf. LOG_print fo log text = Inr (log\<lparr>log_buffer := buf\<rparr>) \<and> log_ok (log\<lparr>log_buffer := buf\<rparr>) \<and>
           cstr_of buf = take (BUFFER_SIZE - 1) (log_text log @ take 1023 text)"
proof -
  let ?b = "log_buffer log" and ?t = "take 1023 text"
  have in_set: "NUL \<in> set ?b"
  proof (rule ccontr)
    assume "NUL \<notin> set ?b"
    then have "cstr_of ?b = ?b" by (simp add: cstring_def)
    then have "length ?b < BUFFER_SIZE" using assms(1) by (simp add: log_ok_def)
    moreover have "BUFFER_SIZE \<le> length ?b" using assms(1) by (simp add: log_ok_def)
    ultimately show False by simp
  qed
  define r where "r = drop (Suc (length (cstr_of ?b))) ?b"
  have b: "?b = cstr_of ?b @ NUL # r" unfolding r_def by (rule buffer_split [OF in_set])
  obtain buf where buf: "strlcat (cstr_of ?b @ NUL # r) ?t BUFFER_SIZE =
      Some (buf, length (cstr_of ?b) + length ?t)"
    "length buf = length (cstr_of ?b @ NUL # r)" "cstr_of buf = take (BUFFER_SIZE - 1) (cstr_of ?b @ ?t)"
    using strlcat_eq [of "cstr_of ?b" ?t BUFFER_SIZE r] assms b
    by (auto simp: log_ok_def cstring_take)
  have len: "length (cstr_of buf) < BUFFER_SIZE"
    by (simp add: buf(3) BUFFER_SIZE_def)
  have "LOG_print fo log text = Inr (log\<lparr>log_buffer := buf\<rparr>)"
    using buf(1) len b unfolding LOG_print_def FORMATTED_TEXT_LEN_def Let_def by simp
  moreover have "log_ok (log\<lparr>log_buffer := buf\<rparr>)"
    using len buf(2) assms(1) b by (simp add: log_ok_def)
  ultimately show ?thesis using buf(3) by blast
qed

lemma LOG_print_all_result:
  assumes "log_ok log" "\<forall>t \<in> set ts. cstring t"
  shows "\<exists>log'. LOG_print_all fo log ts = Inr log' \<and> log_ok log' \<and> log_disk log' = log_disk log \<and>
           log_text log' = take (BUFFER_SIZE - 1) (log_text log @ concat (map (take 1023) ts))"
  using assms
proof (induction ts arbitrary: log)
  case Nil
  then show ?case by (simp add: log_ok_def BUFFER_SIZE_def)
next
  case (Cons t ts)
  obtain buf where buf: "LOG_print fo log t = Inr (log\<lparr>log_buffer := buf\<rparr>)"
    "log_ok (log\<lparr>log_buffer := buf\<rparr>)" "cstr_of buf = take (BUFFER_SIZE - 1) (log_text log @ take 1023 t)"
    using LOG_print_result [of log t] Cons.prems by auto
  from Cons.IH [OF buf(2)] Cons.prems(2) obtain log' where
    "LOG_print_all fo (log\<lparr>log_buffer := buf\<rparr>) ts = Inr log'" "log_ok log'"
    "log_disk log' = log_disk log"
    "log_text log' = take (BUFFER_SIZE - 1) (cstr_of buf @ concat (map (take 1023) ts))"
    by auto
  moreover from this(4) have "log_text log' =
      take (BUFFER_SIZE - 1) ((log_text log @ take 1023 t) @ concat (map (take 1023) ts))"
    unfolding buf(3) by (simp only: take_take_append)
  ultimately show ?case using buf by simp
qed

lemma memset0_text: "buf \<noteq> [] \<Longrightarrow> 0 < n \<Longrightarrow> cstr_of (memset0 buf n) = []" "length (memset0 buf n) = length buf"
  by (cases n; cases buf) (simp_all add: memset0_def cstr_of_def)

text \<open>
  What a program's first lines do: started in a directory whose path has no percent sign, with a name that fits, \<open>LOG_init\<close>
  opens the log of that name in this directory, writes the two lines about the start of the session to it, and
  leaves an empty buffer. \<open>LOGS_PATH\<close> is a slash, so that the test for the directory of the logs changes to the
  working directory itself.
\<close>

theorem log_opens:
  assumes "dr_getcwd fs MAX_PATH_LENGTH w = Some cwd" "dr_chdir fs (cwd @ ''/'') w = (True, w)"
    "cstring cwd" "CHR ''%'' \<notin> set cwd" "cstring pre" "cstring time"
    "length cwd + length pre + 9 < MAX_PATH_LENGTH" "length time + length pre < 900" "length time + length cwd < 900"
  shows "\<exists>log. LOG_init fs True time (Some pre) 65535 w = Inr (Some log, w) \<and> log_ok log \<and>
    log_filename log = cwd @ ''/'' @ pre @ ''-log.txt'' \<and> log_text log = [] \<and>
    log_disk log = NL # ''['' @ time @ ''] Session start: '' @ pre @ ''.'' @ NL #
                   ''['' @ time @ ''] Start path: '' @ DQ # cwd @ DQ # ''.'' @ [NL]"
proof -
  let ?l1 = "NL # ''['' @ time @ ''] Session start: '' @ pre @ ''.'' @ [NL]"
  let ?l2 = "''['' @ time @ ''] Start path: '' @ DQ # cwd @ DQ # ''.'' @ [NL]"
  let ?log = "\<lparr>log_filename = cwd @ ''/'' @ pre @ ''-log.txt'', log_buffer = replicate 65535 NUL, log_disk = []\<rparr>"
  have path: "get_app_path fs w = Inr cwd" "snprintf_s MAX_PATH_LENGTH cwd [] = cwd"
    using get_app_path_cwd [OF assms(1,3)] assms(4,7) by (simp_all add: snprintf_s_def sfmt_literal)
  have names: "snprintf_s MAX_PATH_LENGTH ''%s%s'' [cwd, LOGS_PATH] = cwd @ ''/''"
    "snprintf_s MAX_PATH_LENGTH ''%s%s%s-log.txt'' [cwd, LOGS_PATH, pre] = cwd @ ''/'' @ pre @ ''-log.txt''"
    using assms(7) by (simp_all add: snprintf_s_def LOGS_PATH_def)
  have lines: "sfmt (NL # ''[%s] Session start: %s.'' @ [NL]) [time, pre] = ?l1"
    "sfmt (''[%s] Start path: '' @ [DQ] @ ''%s'' @ [DQ] @ ''.'' @ [NL]) [time, cwd] = ?l2" by simp_all
  have c: "cstring ?l1" "cstring ?l2" using assms(3,5,6) by (simp_all add: cstring_def)
  have empty: "cstr_of (replicate 65535 NUL) = []" by (simp add: cstr_of_def takeWhile_eq_Nil_iff)
  then have ok: "log_ok ?log" by (simp add: log_ok_def BUFFER_SIZE_def)
  obtain b1 where b1: "LOG_print True ?log ?l1 = Inr (?log\<lparr>log_buffer := b1\<rparr>)" "log_ok (?log\<lparr>log_buffer := b1\<rparr>)" "cstr_of b1 = ?l1"
    using LOG_print_result [OF ok c(1), of True] empty assms(8) by (auto simp: BUFFER_SIZE_def)
  obtain b2 where b2: "LOG_print True (?log\<lparr>log_buffer := b1\<rparr>) ?l2 = Inr (?log\<lparr>log_buffer := b2\<rparr>)"
    "log_ok (?log\<lparr>log_buffer := b2\<rparr>)" "cstr_of b2 = ?l1 @ ?l2"
    using LOG_print_result [OF b1(2) c(2), of True] b1(3) assms(8,9) by (auto simp: BUFFER_SIZE_def)
  have "LOG_init fs True time (Some pre) 65535 w = Inr (LOG_save True (?log\<lparr>log_buffer := b2\<rparr>), w)"
    using b1(1) b2(1) assms(2)
    by (simp add: LOG_init_def LOG_validate_paths_def LOG_prepare_def directory_exists_def path names lines Let_def)
  moreover have "b2 \<noteq> []" using b2(3) by auto
  then have "log_ok (?log\<lparr>log_buffer := memset0 b2 LARGE_BUFF_SIZE\<rparr>)" "cstr_of (memset0 b2 LARGE_BUFF_SIZE) = []"
    using b2(2) memset0_text [of b2 LARGE_BUFF_SIZE] by (simp_all add: log_ok_def BUFFER_SIZE_def LARGE_BUFF_SIZE_def)
  ultimately show ?thesis using b2(3) by (simp add: LOG_save_def log_ok_def)
qed

text \<open>
  The flush of \<open>LOG_print\<close> is unreachable. From any log whose text is shorter than
  \<open>BUFFER_SIZE\<close>, every sequence of messages runs without a fault, leaves the file on disk as it was,
  and keeps in memory the messages (1023 characters of each) cut to 32767 characters in total: what
  is logged after \<open>LOG_init\<close> never reaches the file, and beyond that size it is lost.
\<close>

theorem log_never_flushed:
  assumes "log_ok log" "\<forall>t \<in> set ts. cstring t"
  shows "\<exists>log'. LOG_print_all fo log ts = Inr log' \<and> log_disk log' = log_disk log \<and>
           log_text log' = take 32767 (log_text log @ concat (map (take 1023) ts))"
  using LOG_print_all_result [OF assms] by (auto simp: BUFFER_SIZE_def)

theorem log_never_flushed_witness:
  "\<exists>log'. LOG_print_all True \<lparr>log_filename = ''dcpam'', log_buffer = replicate 65535 NUL, log_disk = ''old''\<rparr>
            [replicate 1023 CHR ''x'', ''ab''] = Inr log' \<and>
     log_disk log' = ''old'' \<and> length (log_text log') = 1025"
proof -
  have nul: "cstr_of (replicate 65535 NUL) = []"
    by (simp add: cstr_of_def takeWhile_eq_Nil_iff)
  have "log_ok \<lparr>log_filename = ''dcpam'', log_buffer = replicate 65535 NUL, log_disk = ''old''\<rparr>"
    by (simp add: log_ok_def BUFFER_SIZE_def nul)
  from log_never_flushed [OF this, of "[replicate 1023 CHR ''x'', ''ab'']" True] nul
  show ?thesis by (auto simp: cstring_def)
qed

text \<open>Directories that are all there: the world is the working directory.\<close>

definition demo_dirs :: "string dirs" where
  "demo_dirs = \<lparr>dr_getcwd = (\<lambda>n w. if length w < n then Some w else None),
                dr_chdir = (\<lambda>p w. (True, if p = w @ ''/'' then w else p)), dr_mkdir = (\<lambda>p w. (False, w))\<rparr>"

theorem log_opens_witness:
  "\<exists>log. LOG_init demo_dirs True ''9:00'' (Some ''dcpam-etl'') 65535 ''/opt/dcpam'' = Inr (Some log, ''/opt/dcpam'') \<and>
     log_filename log = ''/opt/dcpam/dcpam-etl-log.txt''"
proof -
  have "\<exists>log. LOG_init demo_dirs True ''9:00'' (Some ''dcpam-etl'') 65535 ''/opt/dcpam'' = Inr (Some log, ''/opt/dcpam'') \<and>
    log_ok log \<and> log_filename log = ''/opt/dcpam'' @ ''/'' @ ''dcpam-etl'' @ ''-log.txt'' \<and> log_text log = [] \<and>
    log_disk log = NL # ''['' @ ''9:00'' @ ''] Session start: '' @ ''dcpam-etl'' @ ''.'' @ NL #
                   ''['' @ ''9:00'' @ ''] Start path: '' @ DQ # ''/opt/dcpam'' @ DQ # ''.'' @ [NL]"
    by (rule log_opens) (simp_all add: demo_dirs_def MAX_PATH_LENGTH_def cstring_def)
  then show ?thesis by auto
qed

end
