(* ===== verification/Process_Main.thy ===== *)
theory Process_Main
  imports Server_Config Log_Buffer Transition_Systems
begin

text \<open>
  The four programs from their command line to their end: the choice of the configuration file, the
  composition of their \<open>main\<close> functions from the parts of the other theories, the handlers of the termination
  signals, and the watcher thread of the LCS beside its handler, as a step relation.
\<close>

section \<open>The configuration file\<close>

text \<open>
  The four \<open>main\<close> functions choose it in the same way; \<open>app\<close> is \<open>etl\<close>, \<open>lcs\<close>, \<open>rdp\<close> or \<open>wds\<close>. The buffer has one byte
  more than \<open>MAX_PATH_LENGTH\<close>, but \<open>snprintf\<close> is given that length.
\<close>

definition config_file :: "string \<Rightarrow> string list \<Rightarrow> string" where
  "config_file app args =
     (case args of
        [] \<Rightarrow> snprintf_s MAX_PATH_LENGTH (''./conf/'' @ app @ ''_config.json'') []
      | arg # _ \<Rightarrow>
          if MAX_PATH_LENGTH < length arg then snprintf_s MAX_PATH_LENGTH (app @ ''_config.json'') []
          else snprintf_s MAX_PATH_LENGTH ''%s'' [arg])"

lemma sfmt_s: "sfmt ''%s'' [a] = a"
  by simp

lemma config_file_given: "length arg < MAX_PATH_LENGTH \<Longrightarrow> config_file app (arg # args) = arg"
  by (simp add: config_file_def snprintf_s_def)

text \<open>A name of exactly the maximal length passes the test and loses its last character.\<close>

lemma config_file_cut: "length arg = MAX_PATH_LENGTH \<Longrightarrow> config_file app (arg # args) = butlast arg"
  by (simp add: config_file_def snprintf_s_def butlast_conv_take MAX_PATH_LENGTH_def)

section \<open>The four programs\<close>

text \<open>\<open>read\<close> is the file system: the contents of a file, \<open>None\<close> when it cannot be opened.\<close>

definition etl_main ::
  "(string \<Rightarrow> string option) \<Rightarrow> 'w os \<Rightarrow> 'w listen_os \<Rightarrow> (string \<Rightarrow> json option) \<Rightarrow> (nat \<Rightarrow> memory) \<Rightarrow> DATABASE_SYSTEM_DB \<Rightarrow>
   DCPAM_APP \<Rightarrow> nat \<Rightarrow> string list \<Rightarrow> sock_state \<Rightarrow> 'w \<Rightarrow> (sock_state option \<times> 'w) part" where
  "etl_main read sys ls parse heap mem_sa app rounds args st w =
     etl_start sys ls parse heap mem_sa (read (config_file ''etl'' args)) app rounds st w"

definition rdp_main ::
  "(string \<Rightarrow> string option) \<Rightarrow> 'w rdp_env \<Rightarrow> 'w listen_os \<Rightarrow> (string \<Rightarrow> json option) \<Rightarrow> RDP_CONFIG \<Rightarrow> nat \<Rightarrow> string list \<Rightarrow>
   sock_state \<Rightarrow> 'w \<Rightarrow> (sock_state option \<times> 'w) part" where
  "rdp_main read env ls parse cfg rounds args st w =
     rdp_start env ls parse (read (config_file ''rdp'' args)) cfg rounds st w"

text \<open>The components are registered, each with its ping, before the port is opened.\<close>

definition lcs_main ::
  "(string \<Rightarrow> string option) \<Rightarrow> 'w net \<Rightarrow> 'w os \<Rightarrow> 'w listen_os \<Rightarrow> (string \<Rightarrow> json option) \<Rightarrow> (json \<Rightarrow> string) \<Rightarrow> NET_CONN \<Rightarrow>
   string \<Rightarrow> DCPAM_COMPONENT \<Rightarrow> LCS_CONFIG \<Rightarrow> nat \<Rightarrow> string list \<Rightarrow> sock_state \<Rightarrow> 'w \<Rightarrow>
   (sock_state option \<times> L_DCPAM_APP \<times> 'w) option outcome option" where
  "lcs_main read net sys ls parse print fresh now mem cfg rounds args st w =
     map_option (\<lambda>r. obind r (\<lambda>(cfg, st, w).
         case cfg of
           None \<Rightarrow> Inr None
         | Some cfg \<Rightarrow> obind (lcs_serve sys ls parse print now cfg rounds st w) (\<lambda>r. Inr (Some r))))
       (DCPAM_LCS_load_configuration net parse fresh now mem (read (config_file ''lcs'' args)) cfg st w)"

text \<open>
  \<open>DCPAM_WDS_worker\<close>: a request that waits for a node that never answers does not return. The
  application is part of the world the handler changes.
\<close>

definition wds_handler :: "nat \<Rightarrow> 'w wds_env \<Rightarrow> (P_DCPAM_APP \<times> 'w) spc" where
  "wds_handler fuel env content client st = (\<lambda>(app, w).
     case DCPAM_WDS_query fuel env app content client st w of
       None \<Rightarrow> Inl Never_returns
     | Some r \<Rightarrow> obind r (\<lambda>(app, st, w). Inr (st, app, w)))"

definition DCPAM_WDS_worker ::
  "nat \<Rightarrow> 'w wds_env \<Rightarrow> 'w os \<Rightarrow> 'w listen_os \<Rightarrow> P_DCPAM_APP \<Rightarrow> string \<Rightarrow> int \<Rightarrow> nat \<Rightarrow> sock_state \<Rightarrow> 'w \<Rightarrow>
   (sock_state option \<times> P_DCPAM_APP \<times> 'w) outcome" where
  "DCPAM_WDS_worker fuel env sys ls app lcs_host port rounds st w =
     (case wds_hosts app lcs_host of
        (hosts, n) \<Rightarrow>
          SOCKET_main (beside_listen ls) (beside_os sys) (Some (wds_handler fuel env)) port hosts n rounds st (app, w))"

definition wds_main ::
  "(string \<Rightarrow> string option) \<Rightarrow> nat \<Rightarrow> 'w wds_env \<Rightarrow> 'w os \<Rightarrow> 'w listen_os \<Rightarrow> (nat \<Rightarrow> DATABASE_SYSTEM_DB) \<Rightarrow> WDS_CONFIG \<Rightarrow>
   nat \<Rightarrow> string list \<Rightarrow> sock_state \<Rightarrow> 'w \<Rightarrow> (sock_state option \<times> P_DCPAM_APP \<times> 'w) part" where
  "wds_main read fuel env sys ls heap cfg rounds args st w =
     pbind (DCPAM_WDS_load_configuration (wd_parse env) heap (read (config_file ''wds'' args)) cfg) (\<lambda>cfg.
     obind (wds_app cfg) (\<lambda>app.
     obind (DCPAM_WDS_init_cache env (wc_cache_len cfg) app w) (\<lambda>(ok, app, w).
       if \<not> ok then Inr None
       else
         obind (deref (lr_lcs_host (wc_lcs_report cfg))) (\<lambda>lcs_host.
         obind (DCPAM_WDS_worker fuel env sys ls app lcs_host (wc_port cfg) rounds st w) (\<lambda>r. Inr (Some r))))))"

section \<open>The termination signals\<close>

text \<open>
  Each handler acts on the first signal only. It first writes to the log: when it interrupts a thread that is
  writing to a log itself, it waits for a mutex that this thread will never release, which is the result \<open>None\<close>.
\<close>

definition on_first_signal :: "bool \<Rightarrow> bool \<Rightarrow> 'a outcome \<Rightarrow> (bool \<times> 'a option) outcome option" where
  "on_first_signal printing terminated shutdown =
     (if printing then None
      else if terminated then Some (Inr (True, None))
      else Some (obind shutdown (\<lambda>x. Inr (True, Some x))))"

text \<open>
  The ETL waits for the thread whose number is in the global variable. The variable of the same name in \<open>main\<close>
  is the one that is set.
\<close>

record etl_threads =
  et_global_pid :: "nat option"
  et_main_pid :: "nat option"

definition etl_create_thread :: "nat \<Rightarrow> etl_threads \<Rightarrow> etl_threads" where
  "etl_create_thread pid t = t\<lparr>et_main_pid := Some pid\<rparr>"

definition etl_app_terminate ::
  "'w drivers \<Rightarrow> 'w net \<Rightarrow> bool \<Rightarrow> bool \<Rightarrow> etl_threads \<Rightarrow> DCPAM_APP \<Rightarrow> sock_state \<Rightarrow> 'w \<Rightarrow>
   (bool \<times> (DCPAM_APP \<times> sock_state \<times> 'w) option) outcome option" where
  "etl_app_terminate drv net printing terminated t app st w =
     on_first_signal printing terminated
       (case et_global_pid t of
          None \<Rightarrow> Inl Uninitialised
        | Some pid \<Rightarrow> Inr (DCPAM_free_configuration drv net app st w))"

definition rdp_app_terminate ::
  "'w net \<Rightarrow> bool \<Rightarrow> bool \<Rightarrow> RDP_CONFIG \<Rightarrow> sock_state \<Rightarrow> 'w \<Rightarrow>
   (bool \<times> (RDP_CONFIG \<times> sock_state \<times> 'w) option) outcome option" where
  "rdp_app_terminate net printing terminated cfg st w =
     on_first_signal printing terminated (Inr (DCPAM_RDP_free_configuration net cfg st w))"

definition lcs_app_terminate :: "bool \<Rightarrow> bool \<Rightarrow> LCS_CONFIG \<Rightarrow> (bool \<times> LCS_CONFIG option) outcome option" where
  "lcs_app_terminate printing terminated cfg =
     on_first_signal printing terminated (Inr (DCPAM_LCS_free_configuration cfg))"

text \<open>\<open>WDS_NODE_free\<close> logs a NULL pointer and then follows it. The released texts are empty here.\<close>

definition WDS_NODE_free :: "WDS_NODE option \<Rightarrow> WDS_NODE outcome" where
  "WDS_NODE_free src =
     (case src of
        None \<Rightarrow> Inl Null_pointer
      | Some n \<Rightarrow> Inr (n\<lparr>wn_ip := [], wn_port := 0, wn_key := [], wn_tables := []\<rparr>))"

fun free_nodes :: "WDS_NODE list \<Rightarrow> unit outcome" where
  "free_nodes [] = Inr ()"
| "free_nodes (n # ns) = obind (WDS_NODE_free (Some n)) (\<lambda>_. free_nodes ns)"

definition wds_app_terminate ::
  "'w wds_env \<Rightarrow> bool \<Rightarrow> bool \<Rightarrow> LCS_REPORT \<Rightarrow> P_DCPAM_APP \<Rightarrow> sock_state \<Rightarrow> 'w \<Rightarrow>
   (bool \<times> (LCS_REPORT \<times> P_DCPAM_APP \<times> sock_state \<times> 'w) option) outcome option" where
  "wds_app_terminate env printing terminated report app st w =
     on_first_signal printing terminated
       (case LCS_REPORT_free (wd_net env) report st w of
          (report, st, w) \<Rightarrow>
            obind (DCPAM_WDS_free_configuration env app w) (\<lambda>(app', w).
            obind (free_nodes (pa_nodes app)) (\<lambda>_. Inr (report, app', st, w))))"

text \<open>A second signal changes nothing: the configuration is released at most once by the handlers.\<close>

lemma second_signal_ignored: "on_first_signal False True shutdown = Some (Inr (True, None))"
  by (simp add: on_first_signal_def)

text \<open>
  A signal breaks the ETL: the thread the handler waits for was never set, whatever threads \<open>main\<close> has created.
\<close>

lemma etl_signal_faults:
  assumes "et_global_pid t = None"
  shows "etl_app_terminate drv net False False (fold etl_create_thread pids t) app st w = Some (Inl Uninitialised)"
proof -
  have "et_global_pid (fold etl_create_thread pids u) = et_global_pid u" for u
    by (induction pids arbitrary: u) (simp_all add: etl_create_thread_def)
  with assms show ?thesis by (simp add: etl_app_terminate_def on_first_signal_def)
qed

section \<open>The watcher of the LCS beside the handler\<close>

text \<open>
  \<open>LCS_WORKER_watcher\<close>: the test of the loop, the position in the array of the components, the check of one of
  them over the network, the pause. The array pointer is global; the handler of a signal releases the array and
  sets the pointer to NULL between any two steps, but leaves \<open>COMPONENTS_len\<close>.
\<close>

datatype watch_pc = W_test | W_at nat | W_checking nat | W_sleeping | W_exited | W_crashed

record lcs_run =
  lw_components :: "DCPAM_COMPONENT list option"
  lw_len :: nat
  lw_terminated :: bool
  lw_pc :: watch_pc

definition checked :: "string \<Rightarrow> bool \<Rightarrow> DCPAM_COMPONENT \<Rightarrow> DCPAM_COMPONENT" where
  "checked now ok c = c\<lparr>co_timestamp := take 20 now, co_active := ok\<rparr>"

inductive lcs_step :: "lcs_run \<Rightarrow> lcs_run \<Rightarrow> bool" where
  w_stop: "lw_pc s = W_test \<Longrightarrow> lw_terminated s \<Longrightarrow> lcs_step s (s\<lparr>lw_pc := W_exited\<rparr>)"
| w_enter: "lw_pc s = W_test \<Longrightarrow> \<not> lw_terminated s \<Longrightarrow> lcs_step s (s\<lparr>lw_pc := W_at 0\<rparr>)"
| w_check: "lw_pc s = W_at i \<Longrightarrow> i < lw_len s \<Longrightarrow> lw_components s \<noteq> None \<Longrightarrow> lcs_step s (s\<lparr>lw_pc := W_checking i\<rparr>)"
| w_null: "lw_pc s = W_at i \<Longrightarrow> i < lw_len s \<Longrightarrow> lw_components s = None \<Longrightarrow> lcs_step s (s\<lparr>lw_pc := W_crashed\<rparr>)"
| w_store: "lw_pc s = W_checking i \<Longrightarrow> lw_components s = Some cs \<Longrightarrow>
    lcs_step s (s\<lparr>lw_components := Some (cs[i := checked now ok (cs ! i)]), lw_pc := W_at (Suc i)\<rparr>)"
| w_freed: "lw_pc s = W_checking i \<Longrightarrow> lw_components s = None \<Longrightarrow> lcs_step s (s\<lparr>lw_pc := W_crashed\<rparr>)"
| w_end: "lw_pc s = W_at i \<Longrightarrow> lw_len s \<le> i \<Longrightarrow> lcs_step s (s\<lparr>lw_pc := W_sleeping\<rparr>)"
| w_wake: "lw_pc s = W_sleeping \<Longrightarrow> lcs_step s (s\<lparr>lw_pc := W_test\<rparr>)"

inductive lcs_signal :: "lcs_run \<Rightarrow> lcs_run \<Rightarrow> bool" where
  "\<not> lw_terminated s \<Longrightarrow> lw_pc s \<noteq> W_crashed \<Longrightarrow> lcs_signal s (s\<lparr>lw_terminated := True, lw_components := None\<rparr>)"

definition lcs_moves :: "lcs_run \<Rightarrow> lcs_run \<Rightarrow> bool" where
  "lcs_moves s t \<longleftrightarrow> lcs_step s t \<or> lcs_signal s t"

definition lcs_start :: "DCPAM_COMPONENT list \<Rightarrow> lcs_run" where
  "lcs_start cs = \<lparr>lw_components = Some cs, lw_len = length cs, lw_terminated = False, lw_pc = W_test\<rparr>"

inductive_cases lcs_stepE: "lcs_step s t"
inductive_cases lcs_signalE: "lcs_signal s t"

inductive_simps lcs_signal_iff: "lcs_signal s t"

text \<open>A pass without a signal is \<open>LCS_WORKER_pass\<close>.\<close>

lemma pass_steps:
  "LCS_WORKER_pass net parse fresh now cs st w = Some (Inr (cs', st', w')) \<Longrightarrow>
   lcs_step\<^sup>*\<^sup>* \<lparr>lw_components = Some (done @ cs), lw_len = length (done @ cs), lw_terminated = b, lw_pc = W_at (length done)\<rparr>
     \<lparr>lw_components = Some (done @ cs'), lw_len = length (done @ cs), lw_terminated = b, lw_pc = W_sleeping\<rparr>"
proof (induction cs arbitrary: "done" st w cs')
  case Nil
  then show ?case
    using w_end [of "\<lparr>lw_components = Some done, lw_len = length done, lw_terminated = b, lw_pc = W_at (length done)\<rparr>" "length done"]
    by simp
next
  case (Cons c cs)
  from Cons.prems obtain ok st1 w1 rest where
    r: "LCS_WORKER_pass net parse fresh now cs st1 w1 = Some (Inr (rest, st', w'))" "cs' = checked now ok c # rest"
    by (auto simp: checked_def split: option.splits sum.splits)
  let ?s = "\<lambda>comps pc. \<lparr>lw_components = Some comps, lw_len = length (done @ c # cs), lw_terminated = b, lw_pc = pc\<rparr>"
  have "lcs_step (?s (done @ c # cs) (W_at (length done))) (?s (done @ c # cs) (W_checking (length done)))"
    using w_check [of "?s (done @ c # cs) (W_at (length done))" "length done"] by simp
  moreover have "lcs_step (?s (done @ c # cs) (W_checking (length done))) (?s (done @ checked now ok c # cs) (W_at (Suc (length done))))"
    using w_store [of "?s (done @ c # cs) (W_checking (length done))" "length done" "done @ c # cs" now ok] by simp
  moreover have "lcs_step\<^sup>*\<^sup>* (?s (done @ checked now ok c # cs) (W_at (Suc (length done)))) (?s (done @ cs') W_sleeping)"
    using Cons.IH [OF r(1), of "done @ [checked now ok c]"] r(2) by simp
  ultimately show ?case by (meson converse_rtranclp_into_rtranclp)
qed

text \<open>
  The watcher does what one pass does: from the head of its loop, without a signal, it reaches its pause with the
  components exactly as \<open>LCS_WORKER_pass\<close> leaves them.
\<close>

theorem watcher_pass_refines:
  assumes "LCS_WORKER_pass net parse fresh now cs st w = Some (Inr (cs', st', w'))"
  shows "lcs_step\<^sup>*\<^sup>* (lcs_start cs) \<lparr>lw_components = Some cs', lw_len = length cs, lw_terminated = False, lw_pc = W_sleeping\<rparr>"
proof -
  have "lcs_step (lcs_start cs) \<lparr>lw_components = Some cs, lw_len = length cs, lw_terminated = False, lw_pc = W_at 0\<rparr>"
    using w_enter [of "lcs_start cs"] by (simp add: lcs_start_def)
  with pass_steps [OF assms, of "[]" False] show ?thesis by (simp add: converse_rtranclp_into_rtranclp)
qed

section \<open>When a signal is safe\<close>

definition lcs_inv :: "lcs_run \<Rightarrow> bool" where
  "lcs_inv s \<longleftrightarrow> lw_terminated s = (lw_components s = None) \<and>
     (\<forall>i. lw_pc s = W_at i \<longrightarrow> i \<le> lw_len s) \<and> (\<forall>i. lw_pc s = W_checking i \<longrightarrow> i < lw_len s)"

lemma lcs_inv_step: "lcs_inv s \<Longrightarrow> lcs_moves s t \<Longrightarrow> lcs_inv t"
  unfolding lcs_moves_def by (auto simp: lcs_inv_def elim!: lcs_stepE lcs_signalE)

interpretation lcs: preserved lcs_moves lcs_inv
  by unfold_locales (rule lcs_inv_step)

lemma lcs_inv_reachable: "lcs_moves\<^sup>*\<^sup>* (lcs_start cs) s \<Longrightarrow> lcs_inv s"
  by (erule lcs.reach) (simp add: lcs_inv_def lcs_start_def)

text \<open>Between two passes, or behind the last component of one.\<close>

definition watch_idle :: "lcs_run \<Rightarrow> bool" where
  "watch_idle s \<longleftrightarrow> lw_pc s \<in> {W_test, W_sleeping, W_exited} \<or> lw_pc s = W_at (lw_len s)"

fun watch_left :: "watch_pc \<Rightarrow> nat" where
  "watch_left (W_at i) = 3"
| "watch_left W_sleeping = 2"
| "watch_left W_test = 1"
| "watch_left pc = 0"

lemma idle_terminated_step:
  assumes "watch_idle s" "lw_terminated s" "lcs_moves s t"
  shows "watch_idle t \<and> lw_terminated t \<and> watch_left (lw_pc t) < watch_left (lw_pc s)"
  using assms unfolding lcs_moves_def by (auto simp: watch_idle_def elim!: lcs_stepE lcs_signalE)

interpretation lcs_shutdown: decreasing lcs_moves "\<lambda>s. watch_idle s \<and> lw_terminated s" "\<lambda>s. watch_left (lw_pc s)"
  by unfold_locales (use idle_terminated_step in blast)+

lemma idle_terminated_run:
  "(lcs_moves ^^ n) s t \<Longrightarrow> watch_idle s \<Longrightarrow> lw_terminated s \<Longrightarrow>
   watch_idle t \<and> lw_terminated t \<and> n + watch_left (lw_pc t) \<le> watch_left (lw_pc s)"
  using lcs_shutdown.steps lcs_shutdown.run_length by blast

lemma idle_terminated_progress:
  "watch_idle s \<Longrightarrow> lw_terminated s \<Longrightarrow> lw_pc s = W_exited \<or> (\<exists>t. lcs_moves s t)"
  unfolding lcs_moves_def watch_idle_def by (auto intro: lcs_step.intros)

text \<open>
  C32: A signal stops the LCS or crashes it: when the watcher is between two passes, the thread ends after at most three
  further steps, without touching what was released; when it is within a pass, its very next step follows the
  released array.
\<close>

theorem signal_between_passes_only:
  assumes "lcs_moves\<^sup>*\<^sup>* (lcs_start cs) s" "lcs_signal s s'"
  shows "(watch_idle s \<longrightarrow>
            (\<forall>n t. (lcs_moves ^^ n) s' t \<longrightarrow> lw_pc t \<noteq> W_crashed \<and> n \<le> 3 \<and> (lw_pc t = W_exited \<or> (\<exists>u. lcs_moves t u)))) \<and>
         (\<not> watch_idle s \<longrightarrow> (\<exists>t. lcs_moves s' t) \<and> (\<forall>t. lcs_moves s' t \<longrightarrow> lw_pc t = W_crashed))"
proof -
  from assms(2) have s': "s' = s\<lparr>lw_terminated := True, lw_components := None\<rparr>" "lw_pc s \<noteq> W_crashed"
    by (auto elim: lcs_signalE)
  have idle: "watch_idle s' = watch_idle s" by (simp add: s'(1) watch_idle_def)
  have left: "watch_left (lw_pc s') \<le> 3" by (cases "lw_pc s'") auto
  have first: "lw_pc t \<noteq> W_crashed \<and> n \<le> 3 \<and> (lw_pc t = W_exited \<or> (\<exists>u. lcs_moves t u))"
    if "watch_idle s" "(lcs_moves ^^ n) s' t" for n t
  proof -
    have run: "watch_idle t" "lw_terminated t" "n + watch_left (lw_pc t) \<le> watch_left (lw_pc s')"
      using idle_terminated_run [OF that(2)] that(1) idle by (auto simp: s'(1))
    with left idle_terminated_progress [OF run(1,2)] show ?thesis by (auto simp: watch_idle_def)
  qed
  have second: "(\<exists>t. lcs_moves s' t) \<and> (\<forall>t. lcs_moves s' t \<longrightarrow> lw_pc t = W_crashed)" if busy: "\<not> watch_idle s"
  proof -
    have inv: "lcs_inv s" using lcs_inv_reachable [OF assms(1)] .
    consider i where "lw_pc s = W_at i" "i < lw_len s" | i where "lw_pc s = W_checking i"
      using busy s'(2) inv by (cases "lw_pc s") (auto simp: watch_idle_def lcs_inv_def le_less)
    then show ?thesis
    proof cases
      case 1
      then have "lcs_step s' (s'\<lparr>lw_pc := W_crashed\<rparr>)" by (intro w_null) (simp_all add: s'(1))
      then have "\<exists>t. lcs_moves s' t" unfolding lcs_moves_def by blast
      moreover have "lw_pc t = W_crashed" if "lcs_moves s' t" for t
        using that 1 by (auto simp: lcs_moves_def s'(1) elim!: lcs_stepE lcs_signalE)
      ultimately show ?thesis by blast
    next
      case 2
      then have "lcs_step s' (s'\<lparr>lw_pc := W_crashed\<rparr>)" by (intro w_freed) (simp_all add: s'(1))
      then have "\<exists>t. lcs_moves s' t" unfolding lcs_moves_def by blast
      moreover have "lw_pc t = W_crashed" if "lcs_moves s' t" for t
        using that 2 by (auto simp: lcs_moves_def s'(1) elim!: lcs_stepE lcs_signalE)
      ultimately show ?thesis by blast
    qed
  qed
  from first second show ?thesis by blast
qed

section \<open>Concrete inputs\<close>

text \<open>One component that does not answer, and a signal before and during its check.\<close>

theorem watcher_pass_refines_witness:
  "lcs_step\<^sup>*\<^sup>* (lcs_start [demo_component])
     \<lparr>lw_components = Some [checked ''now'' False demo_component], lw_len = 1, lw_terminated = False, lw_pc = W_sleeping\<rparr>"
proof -
  have "\<exists>r. LCS_WORKER_pass (demo_net False) (\<lambda>_. None) demo_conn ''now'' [demo_component] demo_sock ([], []) =
       Some (Inr ([checked ''now'' False demo_component], r))"
    by (simp add: LCS_COMPONENT_check_def init_plain NET_CONN_connect_def demo_net_def demo_component_def checked_def
        conn_target_def fresh_fd_def split_def) (meson prod_cases3)
  then obtain st' w' where
    "LCS_WORKER_pass (demo_net False) (\<lambda>_. None) demo_conn ''now'' [demo_component] demo_sock ([], []) =
       Some (Inr ([checked ''now'' False demo_component], st', w'))" by auto
  from watcher_pass_refines [OF this] show ?thesis by simp
qed

definition demo_stopped :: "watch_pc \<Rightarrow> lcs_run" where
  "demo_stopped pc = \<lparr>lw_components = None, lw_len = 1, lw_terminated = True, lw_pc = pc\<rparr>"

theorem signal_between_passes_only_witness:
  "W_crashed \<notin> lw_pc ` {t. \<exists>n. (lcs_moves ^^ n) (demo_stopped W_test) t} \<and>
   lw_pc ` {t. lcs_moves (demo_stopped (W_checking 0)) t} = {W_crashed}"
proof -
  let ?s = "lcs_start [demo_component]"
  have step1: "lcs_moves ?s (?s\<lparr>lw_pc := W_at 0\<rparr>)"
    unfolding lcs_moves_def by (intro disjI1 w_enter) (simp_all add: lcs_start_def)
  have step2: "lcs_moves (?s\<lparr>lw_pc := W_at 0\<rparr>) (?s\<lparr>lw_pc := W_checking 0\<rparr>)"
    using w_check [of "?s\<lparr>lw_pc := W_at 0\<rparr>" 0] unfolding lcs_moves_def by (simp add: lcs_start_def)
  from step1 step2 have run: "lcs_moves\<^sup>*\<^sup>* ?s (?s\<lparr>lw_pc := W_checking 0\<rparr>)" by (rule rtranclp_trans [OF r_into_rtranclp r_into_rtranclp])
  have sig: "lcs_signal ?s (demo_stopped W_test)" "lcs_signal (?s\<lparr>lw_pc := W_checking 0\<rparr>) (demo_stopped (W_checking 0))"
    by (simp_all add: lcs_signal_iff lcs_start_def demo_stopped_def)
  have idle: "watch_idle ?s" "\<not> watch_idle (?s\<lparr>lw_pc := W_checking 0\<rparr>)"
    by (simp_all add: watch_idle_def lcs_start_def)
  note stopped = mp [OF conjunct1 [OF signal_between_passes_only [OF rtranclp.rtrancl_refl sig(1)]] idle(1)]
  note crashed = mp [OF conjunct2 [OF signal_between_passes_only [OF run sig(2)]] idle(2)]
  have "lw_pc t \<noteq> W_crashed" if "\<exists>n. (lcs_moves ^^ n) (demo_stopped W_test) t" for t
    by (rule exE [OF that], drule mp [OF spec [OF spec [OF stopped]]], erule conjunct1)
  then have "W_crashed \<notin> lw_pc ` {t. \<exists>n. (lcs_moves ^^ n) (demo_stopped W_test) t}" by (rule image_avoids)
  moreover have "lw_pc ` {t. lcs_moves (demo_stopped (W_checking 0)) t} = {W_crashed}"
    by (rule image_constant [OF conjunct1 [OF crashed] mp [OF spec [OF conjunct2 [OF crashed]]]])
  ultimately show ?thesis ..
qed

end
